theory Spec2Isabelle
  imports Complex_Main "HOL-Library.Word" "HOL-Library.AList"
begin

unbundle bit_operations_syntax

section \<open>Conventions of the embedding\<close>

text \<open>
  The simulation engine of \<^verbatim>\<open>convex/simulation\<close> is embedded function by function.
  \<^item> The generator state of \<^verbatim>\<open>SeededRandom\<close> is a \<open>32 word\<close>; \<^verbatim>\<open>Math.imul\<close>, \<^verbatim>\<open>| 0\<close>,
    \<^verbatim>\<open>>>> 0\<close> and the wrap-around of the additions are the word operations, bit for bit.
  \<^item> Every other JavaScript number is a \<open>real\<close>: rounding of doubles, NaN and the
    infinities are not represented (a comparison that is decided by the last bit of a
    double, such as a decayed weight against 0.01, is decided here by the exact values).
    Where the source relies on an infinity (\<^verbatim>\<open>Math.log(0)\<close> in \<^verbatim>\<open>gammaSample\<close>) the
    branch the doubles take is written out.
  \<^item> An object used as a dictionary (\<^verbatim>\<open>Record<string, number>\<close>) and a \<^verbatim>\<open>Map\<close> are
    association lists in insertion order; assignment to a key is \<open>AList.update\<close>
    (replace in place, else append), which is the order of \<^verbatim>\<open>Object.entries\<close>
    for keys that are not array indices. A \<^verbatim>\<open>Set\<close> of ids is a duplicate-free list.
  \<^item> Mutation is explicit state passing; a call that can throw returns an \<open>option\<close>,
    and so does the rejection loop of \<^verbatim>\<open>gammaSample\<close>, which need not return.
  \<^item> Number formatting, \<^verbatim>\<open>JSON.stringify\<close> and \<^verbatim>\<open>toLowerCase\<close> are parameters
    (record \<open>JsHost\<close>); the replies of the three HTTP back ends are parameters of
    each step (record \<open>LlmEnv\<close>).
  Only the fields of the configuration that the engine reads are kept.
\<close>

section \<open>random.ts: SeededRandom\<close>

type_synonym rng = "32 word"

definition seededRandom :: "int \<Rightarrow> rng" where
  "seededRandom seed = word_of_int seed"

definition rng_output :: "rng \<Rightarrow> rng" where
  "rng_output st =
     (let t = (st XOR drop_bit 15 st) * (1 OR st);
          t2 = (t + (t XOR drop_bit 7 t) * (61 OR t)) XOR t
      in t2 XOR drop_bit 14 t2)"

definition rng_next :: "rng \<Rightarrow> real \<times> rng" where
  "rng_next g = (let st = g + 0x6d2b79f5 in (real (unat (rng_output st)) / 4294967296, st))"

definition rng_range :: "real \<Rightarrow> real \<Rightarrow> rng \<Rightarrow> real \<times> rng" where
  "rng_range lo hi g = (let (u, g') = rng_next g in (lo + (hi - lo) * u, g'))"

section \<open>types.ts\<close>

datatype SeasonName = Spring | Summer | Autumn | Winter

datatype TaskCategory = Foraging | Hunting | PublicGood

datatype TaskNormRule = EqualShare | ProportionalSkill | KeyContributorReward | CollectivePenalty

datatype Outcome = Success | Failure

record ScenarioSeason =
  season_name :: SeasonName
  resourceMultiplier :: real
  climateNoise :: real

record HazardRates =
  hz_injury :: real
  hz_hypothermia :: real
  hz_predator :: real

record PartialHazardRates =
  ph_injury :: "real option"
  ph_hypothermia :: "real option"
  ph_predator :: "real option"

record ScenarioTask =
  task_id :: string
  task_name :: string
  category :: TaskCategory
  successProbability :: real
  yieldPerParticipant :: "real option"
  yieldPerParticipantOnSuccess :: "real option"
  energyCost :: real
  injuryRiskMultiplier :: real
  minParticipants :: real
  recommendedParticipants :: real
  task_norm :: TaskNormRule

record ScenarioConfig =
  displayName :: string
  seasonLengthDays :: real
  seasons :: "ScenarioSeason list"
  basePlantRate :: real
  baseSmallGameRate :: real
  baseLargeGameRate :: real
  gammaShape :: real
  gammaScale :: real
  logGaussian :: "(real \<times> real) option"
  seasonalLargeGameBonus :: "SeasonName \<Rightarrow> real option"
  hazardsBase :: HazardRates
  hazardsSeasonal :: "(SeasonName \<Rightarrow> PartialHazardRates option) option"
  tasks :: "ScenarioTask list"
  populationSize :: real
  skillProfiles :: "(string \<times> real \<times> real) list"
  alphaMean :: real
  alphaStd :: real
  betaMean :: real
  betaStd :: real
  prefReputationWeight :: real
  prefNormPenalty :: real
  socialMemoryHorizonDays :: real
  episodicWindowDays :: real
  reflectionIntervalDays :: real
  emotionDecay :: real
  baselineValence :: real
  baselineArousal :: real
  networkDecay :: real
  eventLog :: bool
  taskLog :: bool
  causalGraphLog :: bool
  dailyEnergyNeed :: real

record EmotionState =
  valence :: real
  arousal :: real
  mood :: real

record SocialMemoryEntry =
  partnerId :: string
  lastInteractionDay :: real
  sm_reciprocity :: real
  resourcesGiven :: real
  resourcesReceived :: real
  sentiment :: real

record EpisodicMemoryEntry =
  ep_day :: real
  ep_summary :: string
  ep_tags :: "string list"
  ep_impact :: real

record AgentPreferences =
  riskTolerance :: real
  normativeAlignment :: real
  socialGoalWeight :: real
  survivalGoalWeight :: real
  memoryFocus :: real

record AgentState =
  agent_id :: string
  agent_name :: string
  campId :: string
  energy :: real
  hungerDebt :: real
  emotion :: EmotionState
  fs_alpha :: real
  fs_beta :: real
  fs_reputationWeight :: real
  fs_normPenalty :: real
  reputation :: real
  skillset :: "(string \<times> real) list"
  preferences :: AgentPreferences
  resourceExpectations :: real
  normExpectation :: real
  socialMemory :: "SocialMemoryEntry list"
  episodicMemory :: "EpisodicMemoryEntry list"
  lastReflectionDay :: real
  lastActions :: "string list"

record EnvironmentState =
  env_day :: real
  seasonIndex :: int
  seasonDay :: real
  plants :: real
  smallGame :: real
  largeGame :: real
  climateShock :: real
  riskModifier :: HazardRates

record NetworkEdge =
  edge_source :: string
  edge_target :: string
  weight :: real

record NetworkState =
  edges :: "NetworkEdge list"
  forgetFactor :: real
  campMembership :: "(string \<times> string) list"

record TaskAssignment =
  taskId :: string
  participants :: "string list"
  outcome :: Outcome
  reward :: real
  injuries :: "string list"
  asg_notes :: string

record DailyMetrics =
  cooperationRate :: real
  energyBalance :: real
  riskIncidents :: nat
  inequalityIndex :: real
  networkAssortativity :: real
  metric_reciprocity :: real

record SimulationState =
  st_environment :: EnvironmentState
  st_agents :: "AgentState list"
  st_network :: NetworkState
  rngSeed :: int
  environmentRngSeed :: int

record PlanItem =
  plan_agentId :: string
  intent :: string
  rationale :: string

record PlanResponse =
  plans :: "PlanItem list"
  provider :: string

record PlanRequest =
  req_day :: real
  req_season :: SeasonName
  req_environment :: EnvironmentState
  req_agents :: "AgentState list"
  pendingTasks :: "ScenarioTask list"

section \<open>tasks.ts\<close>

record TaskExecution =
  assignment :: TaskAssignment
  rewards :: "(string \<times> real) list"
  exec_energyCost :: "(string \<times> real) list"
  exec_successProbability :: real

definition clamp01 :: "real \<Rightarrow> real" where
  "clamp01 x = max 0 (min 1 x)"

definition skillKey :: "ScenarioTask \<Rightarrow> string" where
  "skillKey task =
     (if category task = Foraging then ''gathering''
      else if category task = PublicGood then ''crafting''
      else ''hunting'')"

text \<open>\<^verbatim>\<open>agent.skillset[key] ?? 0.5\<close>\<close>

definition skillOr :: "AgentState \<Rightarrow> string \<Rightarrow> real" where
  "skillOr a k = (case map_of (skillset a) k of None \<Rightarrow> 0.5 | Some v \<Rightarrow> v)"

text \<open>\<^verbatim>\<open>agents.forEach((agent) => { result[agent.id] = f(agent); })\<close> on an empty object.\<close>

definition assignAll :: "(AgentState \<Rightarrow> real) \<Rightarrow> AgentState list \<Rightarrow> (string \<times> real) list" where
  "assignAll f agents = fold (\<lambda>a. AList.update (agent_id a) (f a)) agents []"

text \<open>
  In \<^verbatim>\<open>key_contributor_reward\<close> the sort is the stable \<^verbatim>\<open>Array.prototype.sort\<close> with
  comparator \<^verbatim>\<open>b - a\<close> on the skill; \<^verbatim>\<open>elite.includes(agent)\<close> compares object
  identities, which for the participants of one task (pairwise different ids) is the
  comparison of ids used here.
\<close>

definition computeShare :: "ScenarioTask \<Rightarrow> AgentState list \<Rightarrow> real \<Rightarrow> (string \<times> real) list" where
  "computeShare task agents totalReward =
     (if agents = [] \<or> totalReward \<le> 0 then assignAll (\<lambda>a. 0) agents
      else
        let baseShare = totalReward / real (length agents) in
        case task_norm task of
          EqualShare \<Rightarrow> assignAll (\<lambda>a. baseShare) agents
        | ProportionalSkill \<Rightarrow>
            (let key = skillKey task;
                 total = foldl (\<lambda>acc a. acc + skillOr a key) 0 agents
             in assignAll
                  (\<lambda>a. totalReward *
                     (skillOr a key / (if total \<noteq> 0 then total else real (length agents))))
                  agents)
        | KeyContributorReward \<Rightarrow>
            (let key = skillKey task;
                 sorted = sort_key (\<lambda>a. - skillOr a key) agents;
                 bonusPool = totalReward * 0.25;
                 basePool = totalReward - bonusPool;
                 elite = take (max 1 (length sorted div 3)) sorted;
                 bonusShare = bonusPool / real (length elite)
             in assignAll
                  (\<lambda>a. basePool / real (length agents) +
                     (if agent_id a \<in> set (map agent_id elite) then bonusShare else 0))
                  agents)
        | CollectivePenalty \<Rightarrow> assignAll (\<lambda>a. 0) agents)"

definition computeSuccessProbability :: "ScenarioTask \<Rightarrow> AgentState list \<Rightarrow> real \<Rightarrow> real" where
  "computeSuccessProbability task ps resourceLevel =
     (let key = skillKey task;
          avgSkill = foldl (\<lambda>acc a. acc + skillOr a key) 0 ps
                       / (if ps = [] then 1 else real (length ps));
          participantBonus = 0.05 * max (real (length ps) - minParticipants task) 0;
          skillBonus = 0.1 * (avgSkill - 0.5);
          resourceBonus = (if resourceLevel > 0 then 0.05 * ln (1 + resourceLevel) else - 0.1)
      in clamp01 (successProbability task + participantBonus + skillBonus + resourceBonus))"

definition computeEnergyCost :: "ScenarioTask \<Rightarrow> AgentState list \<Rightarrow> (string \<times> real) list" where
  "computeEnergyCost task ps =
     assignAll
       (\<lambda>a. energyCost task *
          (if category task = Hunting then 1 + (1 - skillOr a ''hunting'') * 0.2 else 1))
       ps"

text \<open>The Fisher-Yates loop \<^verbatim>\<open>for (let i = shuffled.length - 1; i > 0; i--)\<close>.\<close>

fun shuffleFrom :: "nat \<Rightarrow> 'a list \<Rightarrow> rng \<Rightarrow> 'a list \<times> rng" where
  "shuffleFrom 0 xs g = (xs, g)"
| "shuffleFrom (Suc k) xs g =
     (let (u, g') = rng_next g;
          i = Suc k;
          j = nat \<lfloor>u * real (i + 1)\<rfloor>
      in shuffleFrom k (xs[i := xs ! j, j := xs ! i]) g')"

definition shuffle :: "'a list \<Rightarrow> rng \<Rightarrow> 'a list \<times> rng" where
  "shuffle xs g = shuffleFrom (length xs - 1) xs g"

text \<open>A \<^verbatim>\<open>Set<string>\<close>: \<^verbatim>\<open>add\<close>, \<^verbatim>\<open>delete\<close> and the constructor from an array.\<close>

definition setAdd :: "string \<Rightarrow> string list \<Rightarrow> string list" where
  "setAdd x xs = (if x \<in> set xs then xs else xs @ [x])"

definition setDelete :: "string \<Rightarrow> string list \<Rightarrow> string list" where
  "setDelete x xs = removeAll x xs"

definition newSet :: "string list \<Rightarrow> string list" where
  "newSet xs = fold setAdd xs []"

text \<open>The inner \<^verbatim>\<open>shuffled.forEach\<close> of \<^verbatim>\<open>assignTasks\<close>: one candidate.\<close>

definition selectStep ::
  "ScenarioTask \<Rightarrow> real \<Rightarrow> AgentState \<Rightarrow> AgentState list \<times> string list
     \<Rightarrow> AgentState list \<times> string list" where
  "selectStep task need a st =
     (let (ps, avail) = st in
      if real (length ps) \<ge> need then st
      else if agent_id a \<notin> set avail then st
      else if category task = Hunting \<and> skillOr a ''hunting'' < 0.3 then st
      else (ps @ [a], setDelete (agent_id a) avail))"

definition selectParticipants ::
  "ScenarioTask \<Rightarrow> real \<Rightarrow> AgentState list \<Rightarrow> string list \<Rightarrow> AgentState list \<times> string list" where
  "selectParticipants task need shuffled avail = fold (selectStep task need) shuffled ([], avail)"

text \<open>The injury loop: one draw per participant.\<close>

fun sampleInjuries :: "real \<Rightarrow> AgentState list \<Rightarrow> rng \<Rightarrow> string list \<times> rng" where
  "sampleInjuries threshold [] g = ([], g)"
| "sampleInjuries threshold (a # as) g =
     (let (u, g') = rng_next g;
          (rest, g'') = sampleInjuries threshold as g'
      in ((if u < threshold then [agent_id a] else []) @ rest, g''))"

definition resourceByTask :: "real \<times> real \<times> real \<Rightarrow> TaskCategory \<Rightarrow> real" where
  "resourceByTask res c =
     (case res of (pl, sg, lg) \<Rightarrow>
        (case c of Foraging \<Rightarrow> pl | Hunting \<Rightarrow> sg + lg | PublicGood \<Rightarrow> pl))"

text \<open>The second half of the body of \<^verbatim>\<open>tasks.forEach\<close>: the participants are chosen, the
  task is executed (success draw, reward, shares, costs, injury draws).\<close>

definition executeTask ::
  "ScenarioConfig \<Rightarrow> real \<times> real \<times> real \<Rightarrow> ScenarioTask \<Rightarrow> AgentState list \<Rightarrow> rng
     \<Rightarrow> TaskExecution \<times> rng" where
  "executeTask cfg res task ps g =
     (let resourceLevel = resourceByTask res (category task);
          sp = computeSuccessProbability task ps resourceLevel;
          (u, g1) = rng_next g;
          success = (u < sp);
          rewardPerParticipant =
            (case yieldPerParticipant task of
               Some y \<Rightarrow> y
             | None \<Rightarrow> (case yieldPerParticipantOnSuccess task of Some z \<Rightarrow> z | None \<Rightarrow> 0));
          totalReward =
            (if success
             then rewardPerParticipant *
                    (case yieldPerParticipant task of
                       Some y \<Rightarrow> (if y \<noteq> 0 then real (length ps) else 1)
                     | None \<Rightarrow> 1)
             else 0);
          rw = computeShare task ps totalReward;
          ec = computeEnergyCost task ps;
          risk = clamp01 (injuryRiskMultiplier task * hz_injury (hazardsBase cfg));
          (inj, g2) = sampleInjuries (risk * (if success then 0.7 else 1.1)) ps g1
      in (\<lparr> assignment =
               \<lparr> taskId = task_id task,
                 participants = map agent_id ps,
                 outcome = (if success then Success else Failure),
                 reward = totalReward,
                 injuries = inj,
                 asg_notes = (if success then ''coordinated effort succeeded''
                              else ''insufficient payoff'') \<rparr>,
             rewards = rw,
             exec_energyCost = ec,
             exec_successProbability = sp \<rparr>,
          g2))"

text \<open>The body of \<^verbatim>\<open>tasks.forEach\<close>: the state is the available set, the executions so far
  and the generator.\<close>

definition processTask ::
  "ScenarioConfig \<Rightarrow> real \<times> real \<times> real \<Rightarrow> AgentState list \<Rightarrow> ScenarioTask
     \<Rightarrow> string list \<times> TaskExecution list \<times> rng \<Rightarrow> string list \<times> TaskExecution list \<times> rng" where
  "processTask cfg res shuffled task st =
     (let (avail, execs, g) = st;
          need = min (recommendedParticipants task) (real (length avail))
      in
      if need < minParticipants task then st
      else
        let (ps, avail') = selectParticipants task need shuffled avail in
        if real (length ps) < minParticipants task
        then (fold setAdd (map agent_id ps) avail', execs, g)
        else
          let (exec, g2) = executeTask cfg res task ps g
          in (avail', execs @ [exec], g2))"

text \<open>The idle fallback after the loop.\<close>

definition idleFallback ::
  "ScenarioConfig \<Rightarrow> ScenarioTask list \<Rightarrow> AgentState list \<Rightarrow> string list \<Rightarrow> TaskExecution list" where
  "idleFallback cfg tsks shuffled avail =
     (if avail = [] then []
      else
        case (case find (\<lambda>t. task_id t = ''camp_maintenance'') tsks of
                Some m \<Rightarrow> Some m
              | None \<Rightarrow> find (\<lambda>t. task_id t = ''camp_maintenance'') (tasks cfg)) of
          None \<Rightarrow> []
        | Some maintenance \<Rightarrow>
            (let ps = filter (\<lambda>a. agent_id a \<in> set avail) shuffled
             in [\<lparr> assignment =
                     \<lparr> taskId = task_id maintenance,
                       participants = map agent_id ps,
                       outcome = Success,
                       reward = 0,
                       injuries = [],
                       asg_notes = ''fallback maintenance duty'' \<rparr>,
                   rewards = computeShare maintenance ps 0,
                   exec_energyCost = computeEnergyCost maintenance ps,
                   exec_successProbability = 1 \<rparr>]))"

definition taskLoop ::
  "ScenarioConfig \<Rightarrow> real \<times> real \<times> real \<Rightarrow> AgentState list \<Rightarrow> ScenarioTask list
     \<Rightarrow> string list \<times> TaskExecution list \<times> rng \<Rightarrow> string list \<times> TaskExecution list \<times> rng" where
  "taskLoop cfg res shuffled tsks st = fold (processTask cfg res shuffled) tsks st"

definition assignTasks ::
  "ScenarioConfig \<Rightarrow> rng \<Rightarrow> AgentState list \<Rightarrow> real \<times> real \<times> real \<Rightarrow> ScenarioTask list option
     \<Rightarrow> TaskExecution list \<times> rng" where
  "assignTasks cfg g agents res taskSequence =
     (let (shuffled, g1) = shuffle agents g;
          availableAgents = newSet (map agent_id shuffled);
          tsks = (case taskSequence of Some ts \<Rightarrow> ts | None \<Rightarrow> tasks cfg);
          (avail, execs, g2) = taskLoop cfg res shuffled tsks (availableAgents, [], g1)
      in (execs @ idleFallback cfg tsks shuffled avail, g2))"

section \<open>cognition.ts: fehrSchmidtUtility\<close>

definition fehrSchmidtUtility :: "real \<Rightarrow> real list \<Rightarrow> real \<Rightarrow> real \<Rightarrow> real" where
  "fehrSchmidtUtility ownShare othersShares alpha beta =
     (let avgOthers =
            (if othersShares = [] then 0
             else foldl (\<lambda>acc share. acc + max (share - ownShare) 0) 0 othersShares
                    / real (length othersShares));
          avgAdvantage =
            (if othersShares = [] then 0
             else foldl (\<lambda>acc share. acc + max (ownShare - share) 0) 0 othersShares
                    / real (length othersShares))
      in ownShare - alpha * avgOthers - beta * avgAdvantage)"

section \<open>tasks.ts: evaluateCooperation\<close>

text \<open>The accumulators of the \<^verbatim>\<open>executions.forEach\<close>: \<^verbatim>\<open>energyBalance\<close>,
  \<^verbatim>\<open>inequalitySamples\<close>, \<^verbatim>\<open>riskIncidents\<close>.\<close>

definition evalStep ::
  "AgentState list \<Rightarrow> TaskExecution \<Rightarrow> real \<times> real list \<times> nat \<Rightarrow> real \<times> real list \<times> nat" where
  "evalStep agents exec acc =
     (let (eb, samples, ri) = acc;
          samples' =
            fold (\<lambda>(agentId, rwd) s.
                    case find (\<lambda>a. agent_id a = agentId) agents of
                      None \<Rightarrow> s
                    | Some agent \<Rightarrow>
                        s @ [fehrSchmidtUtility rwd
                               (map snd (filter (\<lambda>(i, sh). i \<noteq> agentId) (rewards exec)))
                               (fs_alpha agent) (fs_beta agent)])
                 (rewards exec) samples;
          eb' = fold (\<lambda>cost e. e - cost) (map snd (exec_energyCost exec)) eb;
          eb'' = eb' + reward (assignment exec)
      in (eb'', samples', ri + length (injuries (assignment exec))))"

definition evaluateCooperation :: "TaskExecution list \<Rightarrow> AgentState list \<Rightarrow> DailyMetrics" where
  "evaluateCooperation executions agents =
     (let cooperativeAssignments =
            length (filter (\<lambda>e. length (participants (assignment e)) > 1) executions);
          cooperationRate' =
            (if executions = [] then 0
             else real cooperativeAssignments / real (length executions));
          (eb, samples, ri) = fold (evalStep agents) executions (0, [], 0);
          inequalityIndex' =
            (if samples = [] then 0
             else foldl (\<lambda>acc v. acc + v) 0 samples / real (length samples))
      in \<lparr> cooperationRate = cooperationRate',
           energyBalance = eb,
           riskIncidents = ri,
           inequalityIndex = inequalityIndex',
           networkAssortativity = 0,
           metric_reciprocity = 0 \<rparr>)"

section \<open>Host functions\<close>

text \<open>
  What the host supplies: \<^verbatim>\<open>Number.prototype.toFixed(2)\<close>, the conversion of a number in a
  template string, \<^verbatim>\<open>String.prototype.toLowerCase\<close> and \<^verbatim>\<open>JSON.stringify\<close> of an
  execution.
\<close>

record JsHost =
  toFixed2 :: "real \<Rightarrow> string"
  numToString :: "real \<Rightarrow> string"
  toLowerCase :: "string \<Rightarrow> string"
  jsonStringify :: "TaskExecution \<Rightarrow> string"

section \<open>environment.ts\<close>

text \<open>
  \<^verbatim>\<open>gammaSample\<close> for \<^verbatim>\<open>shape >= 1\<close>: the nested loops \<^verbatim>\<open>while (true) { do { ... } while (v <= 0); ... }\<close>
  are one loop, since leaving the inner loop early and starting the outer loop again both
  continue with two fresh draws. The loop has no bound, so the result is an \<open>option\<close>.
  For \<^verbatim>\<open>u1 = 0\<close> the doubles give \<^verbatim>\<open>r = Infinity\<close>: \<^verbatim>\<open>v\<close> is \<^verbatim>\<open>-Infinity\<close> (the inner loop
  repeats) when the cosine is negative, and otherwise \<^verbatim>\<open>Infinity\<close> or \<^verbatim>\<open>NaN\<close>, for which
  \<^verbatim>\<open>u\<close> is drawn and both acceptance tests are false. For \<^verbatim>\<open>u = 0\<close> the second test
  compares \<^verbatim>\<open>-Infinity\<close> with a finite number and accepts.
\<close>

partial_function (option) gammaLoop :: "real \<Rightarrow> real \<Rightarrow> real \<Rightarrow> rng \<Rightarrow> (real \<times> rng) option" where
  "gammaLoop gscale d c g =
     (let u1 = fst (rng_next g); g1 = snd (rng_next g);
          u2 = fst (rng_next g1); g2 = snd (rng_next g1);
          x = sqrt (- 2 * ln u1) * cos (2 * pi * u2);
          v = 1 + c * x;
          u = fst (rng_next g2); g3 = snd (rng_next g2);
          v3 = v * v * v
      in
      if u1 = 0 then (if cos (2 * pi * u2) < 0 then gammaLoop gscale d c g2 else gammaLoop gscale d c g3)
      else if v \<le> 0 then gammaLoop gscale d c g2
      else if u < 1 - 0.0331 * x ^ 4 then Some (gscale * d * v3, g3)
      else if u = 0 \<or> ln u < 0.5 * x * x + d * (1 - v3 + ln v3) then Some (gscale * d * v3, g3)
      else gammaLoop gscale d c g3)"

text \<open>\<^verbatim>\<open>gammaSample\<close>: for \<^verbatim>\<open>shape < 1\<close> one draw and a recursive call on \<^verbatim>\<open>shape + 1\<close>;
  \<^verbatim>\<open>Math.pow(u, 1 / 0)\<close> is \<^verbatim>\<open>Math.pow(u, Infinity) = 0\<close> for \<^verbatim>\<open>u < 1\<close>.\<close>

function gammaSample :: "real \<Rightarrow> real \<Rightarrow> rng \<Rightarrow> (real \<times> rng) option" where
  "gammaSample gshape gscale g =
     (if gshape < 1
      then (case gammaSample (gshape + 1) gscale (snd (rng_next g)) of
              None \<Rightarrow> None
            | Some (r, g2) \<Rightarrow>
                Some (r * (if gshape = 0 then 0 else fst (rng_next g) powr (1 / gshape)), g2))
      else gammaLoop gscale (gshape - 1 / 3) (1 / sqrt (9 * (gshape - 1 / 3))) g)"
  by pat_completeness auto
termination
  by (relation "measure (\<lambda>(gshape, gscale, g). nat \<lceil>1 - gshape\<rceil>)") (auto, linarith)

declare gammaSample.simps [simp del]

text \<open>\<^verbatim>\<open>rng.next() || 1e-6\<close> and the Box-Muller transform, shared by \<^verbatim>\<open>logGaussianSample\<close> and
  \<^verbatim>\<open>sampleNormal\<close>.\<close>

definition standardNormal :: "rng \<Rightarrow> real \<times> rng" where
  "standardNormal g =
     (let (u, g1) = rng_next g;
          u1 = (if u = 0 then 1 / 1000000 else u);
          (u2, g2) = rng_next g1
      in (sqrt (- 2 * ln u1) * cos (2 * pi * u2), g2))"

definition logGaussianSample :: "real \<Rightarrow> real \<Rightarrow> rng \<Rightarrow> real \<times> rng" where
  "logGaussianSample mean variance g =
     (let (z, g2) = standardNormal g in (exp (mean + sqrt variance * z), g2))"

definition clampRisk :: "real \<Rightarrow> real" where
  "clampRisk rate = max 0 (min 1 rate)"

text \<open>The remainder \<^verbatim>\<open>%\<close> of JavaScript on integers and on numbers (sign of the dividend);
  the divisor is not 0 where they are used.\<close>

definition jsRemInt :: "int \<Rightarrow> int \<Rightarrow> int" where
  "jsRemInt a b = sgn a * (\<bar>a\<bar> mod \<bar>b\<bar>)"

definition jsRem :: "real \<Rightarrow> real \<Rightarrow> real" where
  "jsRem x y = x - y * (sgn (x / y) * of_int \<lfloor>\<bar>x / y\<bar>\<rfloor>)"

text \<open>\<^verbatim>\<open>seasons[i]\<close> for an integer number \<open>i\<close>: \<^verbatim>\<open>undefined\<close> outside the array.\<close>

definition seasonAt :: "ScenarioConfig \<Rightarrow> int \<Rightarrow> ScenarioSeason option" where
  "seasonAt cfg i =
     (if 0 \<le> i \<and> i < int (length (seasons cfg)) then Some (seasons cfg ! nat i) else None)"

definition orZero :: "real option \<Rightarrow> real" where
  "orZero v = (case v of None \<Rightarrow> 0 | Some x \<Rightarrow> x)"

text \<open>The hazard triple of \<^verbatim>\<open>composeHazard\<close> for given seasonal overrides.\<close>

definition hazardWith :: "ScenarioConfig \<Rightarrow> PartialHazardRates \<Rightarrow> HazardRates" where
  "hazardWith cfg seasonal =
     \<lparr> hz_injury = clampRisk (hz_injury (hazardsBase cfg) + orZero (ph_injury seasonal)),
       hz_hypothermia = clampRisk (hz_hypothermia (hazardsBase cfg) + orZero (ph_hypothermia seasonal)),
       hz_predator = clampRisk (hz_predator (hazardsBase cfg) + orZero (ph_predator seasonal)) \<rparr>"

text \<open>
  \<^verbatim>\<open>composeHazard\<close>. The season is \<^verbatim>\<open>seasons[seasonIndex % seasons.length]\<close>, which is
  \<^verbatim>\<open>undefined\<close> for an empty array or an index outside it. \<^verbatim>\<open>hazards.seasonal?.[season.name]\<close>
  reads \<^verbatim>\<open>season.name\<close> only when \<^verbatim>\<open>hazards.seasonal\<close> is present: with no seasonal
  overrides the result is the clamped base rates whatever the season, and with them an
  undefined season throws a \<^verbatim>\<open>TypeError\<close>.
\<close>

definition composeHazard :: "ScenarioConfig \<Rightarrow> int \<Rightarrow> HazardRates option" where
  "composeHazard cfg idx =
     (let season =
            (if seasons cfg = [] then None
             else seasonAt cfg (jsRemInt idx (int (length (seasons cfg)))));
          none = \<lparr> ph_injury = None, ph_hypothermia = None, ph_predator = None \<rparr>
      in case hazardsSeasonal cfg of
           None \<Rightarrow> Some (hazardWith cfg none)
         | Some overrides \<Rightarrow>
             (case season of
                None \<Rightarrow> None
              | Some s \<Rightarrow>
                  Some (hazardWith cfg
                          (case overrides (season_name s) of None \<Rightarrow> none | Some h \<Rightarrow> h))))"

definition initialEnvironment :: "ScenarioConfig \<Rightarrow> EnvironmentState option" where
  "initialEnvironment cfg =
     (case composeHazard cfg 0 of
        None \<Rightarrow> None
      | Some initialHazard \<Rightarrow>
          Some \<lparr> env_day = 0, seasonIndex = 0, seasonDay = 0,
                 plants = basePlantRate cfg, smallGame = baseSmallGameRate cfg,
                 largeGame = baseLargeGameRate cfg, climateShock = 0,
                 riskModifier = initialHazard \<rparr>)"

text \<open>
  \<^verbatim>\<open>tick\<close>. A season length of 0 makes the season index \<^verbatim>\<open>NaN\<close>, and an index outside the
  array makes \<^verbatim>\<open>season\<close> undefined; \<^verbatim>\<open>season.climateNoise\<close> then throws.
\<close>

definition tick :: "ScenarioConfig \<Rightarrow> EnvironmentState \<Rightarrow> rng \<Rightarrow> (EnvironmentState \<times> rng) option" where
  "tick cfg st g =
     (let nextDay = env_day st + 1;
          seasonLength = seasonLengthDays cfg
      in
      if seasonLength = 0 \<or> seasons cfg = [] then None
      else
        let idx = jsRemInt \<lfloor>nextDay / seasonLength\<rfloor> (int (length (seasons cfg)));
            sDay = jsRem nextDay seasonLength
        in
        case gammaSample (gammaShape cfg) (gammaScale cfg) g of
          None \<Rightarrow> None
        | Some (gamma, g1) \<Rightarrow>
            (case seasonAt cfg idx of
               None \<Rightarrow> None
             | Some season \<Rightarrow>
                 (let (shock, g2) =
                        (if climateNoise season \<noteq> 0
                         then rng_range (- climateNoise season) (climateNoise season) g1
                         else (0, g1));
                      (lg, g3) =
                        (case logGaussian cfg of
                           Some (m, v) \<Rightarrow> logGaussianSample m v g2
                         | None \<Rightarrow> (1, g2));
                      baseMultiplier = resourceMultiplier season * max 0.1 (gamma + shock);
                      seasonalBonus = orZero (seasonalLargeGameBonus cfg (season_name season))
                  in
                  case composeHazard cfg idx of
                    None \<Rightarrow> None
                  | Some risk \<Rightarrow>
                      Some (\<lparr> env_day = nextDay, seasonIndex = idx, seasonDay = sDay,
                              plants = basePlantRate cfg * baseMultiplier * lg,
                              smallGame = baseSmallGameRate cfg * baseMultiplier * 0.8,
                              largeGame = baseLargeGameRate cfg * baseMultiplier + seasonalBonus,
                              climateShock = shock,
                              riskModifier = risk \<rparr>,
                            g3))))"

section \<open>cognition.ts\<close>

record EmotionStimulus =
  goalAlignment :: real
  normAlignment :: real
  preferenceAlignment :: real
  stim_arousal :: real
  stim_summary :: string
  stim_tags :: "string list"
  stim_impact :: real

definition clamp :: "real \<Rightarrow> real \<Rightarrow> real \<Rightarrow> real" where
  "clamp v lo hi = max lo (min hi v)"

definition updateEmotion :: "EmotionState \<Rightarrow> EmotionStimulus \<Rightarrow> real \<Rightarrow> EmotionState" where
  "updateEmotion current stimulus decay =
     (let valenceDelta = 0.6 * goalAlignment stimulus + 0.3 * normAlignment stimulus
                           + 0.1 * preferenceAlignment stimulus;
          arousalDelta = stim_arousal stimulus;
          moodDelta = 0.5 * valenceDelta + 0.2 * arousalDelta
      in \<lparr> valence = clamp (valence current * (1 - decay) + valenceDelta) (- 1) 1,
           arousal = clamp (arousal current * (1 - decay) + arousalDelta) 0 1.5,
           mood = clamp (mood current * (1 - decay / 2) + moodDelta) (- 1) 1 \<rparr>)"

definition updateSocialMemory ::
  "SocialMemoryEntry list \<Rightarrow> string \<Rightarrow> real \<Rightarrow> real \<Rightarrow> real \<Rightarrow> real \<Rightarrow> real \<Rightarrow> real
     \<Rightarrow> SocialMemoryEntry list" where
  "updateSocialMemory memory pid day reciprocityDelta given received sent window =
     (let filtered = filter (\<lambda>entry. day - lastInteractionDay entry \<le> window \<and> partnerId entry \<noteq> pid)
                       memory;
          existing = find (\<lambda>entry. partnerId entry = pid) memory;
          newEntry =
            \<lparr> partnerId = pid,
              lastInteractionDay = day,
              sm_reciprocity =
                clamp ((case existing of None \<Rightarrow> 0 | Some e \<Rightarrow> sm_reciprocity e) * 0.6 + reciprocityDelta)
                  (- 1) 1,
              resourcesGiven = (case existing of None \<Rightarrow> 0 | Some e \<Rightarrow> resourcesGiven e) + given,
              resourcesReceived =
                (case existing of None \<Rightarrow> 0 | Some e \<Rightarrow> resourcesReceived e) + received,
              sentiment =
                clamp ((case existing of None \<Rightarrow> 0 | Some e \<Rightarrow> sentiment e) * 0.5 + sent) (- 1) 1 \<rparr>
      in newEntry # filtered)"

definition applyStimulus :: "ScenarioConfig \<Rightarrow> AgentState \<Rightarrow> real \<Rightarrow> EmotionStimulus \<Rightarrow> AgentState" where
  "applyStimulus cfg agent day stimulus =
     agent
       \<lparr> emotion := updateEmotion (emotion agent) stimulus (emotionDecay cfg),
         episodicMemory :=
           \<lparr> ep_day = day, ep_summary = stim_summary stimulus, ep_tags = stim_tags stimulus,
             ep_impact = stim_impact stimulus \<rparr>
           # filter (\<lambda>entry. day - ep_day entry \<le> episodicWindowDays cfg) (episodicMemory agent) \<rparr>"

definition registerInteraction ::
  "ScenarioConfig \<Rightarrow> AgentState \<Rightarrow> string \<Rightarrow> real \<Rightarrow> real \<Rightarrow> real \<Rightarrow> real \<Rightarrow> real \<Rightarrow> AgentState" where
  "registerInteraction cfg agent pid day reciprocityDelta given received sent =
     agent
       \<lparr> socialMemory :=
           updateSocialMemory (socialMemory agent) pid day reciprocityDelta given received sent
             (socialMemoryHorizonDays cfg) \<rparr>"

definition reflect :: "ScenarioConfig \<Rightarrow> JsHost \<Rightarrow> AgentState \<Rightarrow> real \<Rightarrow> string option \<times> AgentState" where
  "reflect cfg host agent day =
     (if day - lastReflectionDay agent < reflectionIntervalDays cfg then (None, agent)
      else
        let recent = take 3 (episodicMemory agent);
            positive = length (filter (\<lambda>e. ep_impact e > 0) recent);
            negative = length (filter (\<lambda>e. ep_impact e < 0) recent);
            tone = (if positive \<ge> negative then ''optimistic'' else ''concerned'')
        in (Some (''Reflecting on '' @ numToString host (real (length recent))
                    @ '' key events, mood is '' @ tone @ '' with valence ''
                    @ toFixed2 host (valence (emotion agent)) @ ''.''),
            agent \<lparr> lastReflectionDay := day \<rparr>))"

section \<open>network.ts\<close>

record SocialNetwork =
  net_edges :: "(string \<times> NetworkEdge) list"
  net_forgetFactor :: real
  net_campMembership :: "(string \<times> string) list"

definition makeKey :: "string \<Rightarrow> string \<Rightarrow> string" where
  "makeKey s t = s @ ''|'' @ t"

text \<open>The constructor, called with a network state by \<^verbatim>\<open>initialize\<close> and by \<^verbatim>\<open>fromState\<close>.\<close>

definition newSocialNetwork :: "NetworkState \<Rightarrow> SocialNetwork" where
  "newSocialNetwork initial =
     \<lparr> net_edges =
         fold (\<lambda>edge. AList.update (makeKey (edge_source edge) (edge_target edge)) edge)
           (edges initial) [],
       net_forgetFactor = forgetFactor initial,
       net_campMembership = campMembership initial \<rparr>"

definition initializeNetwork :: "ScenarioConfig \<Rightarrow> (string \<times> string) list \<Rightarrow> SocialNetwork" where
  "initializeNetwork cfg membership =
     newSocialNetwork \<lparr> edges = [], forgetFactor = networkDecay cfg, campMembership = membership \<rparr>"

definition toState :: "SocialNetwork \<Rightarrow> NetworkState" where
  "toState net =
     \<lparr> edges = map snd (net_edges net),
       forgetFactor = net_forgetFactor net,
       campMembership = net_campMembership net \<rparr>"

text \<open>\<^verbatim>\<open>applyDecay\<close> walks a copy of the entries and deletes from, or writes to, the map.\<close>

definition decayStep ::
  "real \<Rightarrow> string \<times> NetworkEdge \<Rightarrow> (string \<times> NetworkEdge) list \<Rightarrow> (string \<times> NetworkEdge) list" where
  "decayStep decay entry m =
     (let newWeight = weight (snd entry) * decay
      in if newWeight < 0.01 then AList.delete (fst entry) m
         else AList.update (fst entry) ((snd entry) \<lparr> weight := newWeight \<rparr>) m)"

definition applyDecay :: "SocialNetwork \<Rightarrow> SocialNetwork" where
  "applyDecay net =
     net \<lparr> net_edges := fold (decayStep (1 - net_forgetFactor net)) (net_edges net) (net_edges net) \<rparr>"

definition reinforceInteraction :: "SocialNetwork \<Rightarrow> string \<Rightarrow> string \<Rightarrow> real \<Rightarrow> SocialNetwork" where
  "reinforceInteraction net s t delta =
     (let key = makeKey s t;
          updated =
            (case map_of (net_edges net) key of
               Some existing \<Rightarrow> existing \<lparr> weight := weight existing + delta \<rparr>
             | None \<Rightarrow> \<lparr> edge_source = s, edge_target = t, weight = delta \<rparr>)
      in net \<lparr> net_edges := AList.update key updated (net_edges net) \<rparr>)"

record NetworkStats =
  stat_reciprocity :: real
  stat_assortativity :: real
  stat_clustering :: real

text \<open>The adjacency map of \<^verbatim>\<open>computeStats\<close>: source to the set of its targets, in insertion order.\<close>

definition adjacencyOf :: "NetworkEdge list \<Rightarrow> (string \<times> string list) list" where
  "adjacencyOf es =
     fold (\<lambda>edge adj.
             AList.update (edge_source edge)
               (setAdd (edge_target edge)
                  (case map_of adj (edge_source edge) of None \<Rightarrow> [] | Some ts \<Rightarrow> ts))
               adj)
          es []"

text \<open>The pairs \<^verbatim>\<open>(arr[i], arr[j])\<close> with \<^verbatim>\<open>i < j\<close>.\<close>

fun pairsOf :: "'a list \<Rightarrow> ('a \<times> 'a) list" where
  "pairsOf [] = []"
| "pairsOf (x # xs) = map (\<lambda>y. (x, y)) xs @ pairsOf xs"

definition computeStats :: "SocialNetwork \<Rightarrow> NetworkStats" where
  "computeStats net =
     (let es = map snd (net_edges net);
          adjacency = adjacencyOf es;
          totalEdges = length es;
          reciprocalCount =
            length (filter (\<lambda>edge. map_of (net_edges net) (makeKey (edge_target edge) (edge_source edge))
                                    \<noteq> None) es);
          camp = (\<lambda>i. case map_of (net_campMembership net) i of None \<Rightarrow> [] | Some c \<Rightarrow> c);
          known = filter (\<lambda>edge. camp (edge_source edge) \<noteq> [] \<and> camp (edge_target edge) \<noteq> []) es;
          sameCamp = length (filter (\<lambda>edge. camp (edge_source edge) = camp (edge_target edge)) known);
          triadPairs = concat (map (\<lambda>(node, neighbors). pairsOf neighbors) adjacency);
          closedTriads =
            length (filter (\<lambda>(a, b). case map_of adjacency a of None \<Rightarrow> False | Some ni \<Rightarrow> b \<in> set ni)
                      triadPairs)
      in \<lparr> stat_reciprocity =
             (if totalEdges = 0 then 0 else real reciprocalCount / real totalEdges),
           stat_assortativity =
             (if known = [] then 0.5 else real sameCamp / real (length known)),
           stat_clustering =
             (if triadPairs = [] then 0 else real closedTriads / real (length triadPairs)) \<rparr>)"

section \<open>llmAdapters.ts\<close>

text \<open>
  The process environment and the network as one step sees them. An adapter is
  enabled when its environment variables are set; its reply is \<open>None\<close> when the
  request throws (transport error, status outside 2xx, unparsable body). For the two
  JSON back ends a reply carries the optional text field of the body. The prompt built
  by \<^verbatim>\<open>buildPrompt\<close> only travels to the endpoint, whose reply is arbitrary, so it is not
  represented.
\<close>

record LlmEnv =
  openaiEnabled :: bool
  openaiReply :: "string option option"
  bedrockEnabled :: bool
  bedrockReply :: "string option option"
  ollamaEnabled :: bool
  ollamaReply :: "string option"

definition groupPlan :: "string \<Rightarrow> string \<Rightarrow> string \<Rightarrow> PlanResponse" where
  "groupPlan prov txt why =
     \<lparr> plans = [\<lparr> plan_agentId = ''group'', intent = txt, rationale = why \<rparr>], provider = prov \<rparr>"

text \<open>The adapter list of \<^verbatim>\<open>LLMDecisionCore\<close>, in order: provider, \<^verbatim>\<open>isEnabled()\<close>, and the
  result of \<^verbatim>\<open>generatePlan\<close> (\<open>None\<close> when it throws).\<close>

definition adapters :: "LlmEnv \<Rightarrow> (string \<times> bool \<times> PlanResponse option) list" where
  "adapters env =
     [(''openai-responses'', openaiEnabled env,
       map_option
         (\<lambda>r. groupPlan ''openai-responses'' (take 2000 (case r of None \<Rightarrow> [] | Some t \<Rightarrow> t)) ''llm_plan'')
         (openaiReply env)),
      (''bedrock-converse'', bedrockEnabled env,
       map_option
         (\<lambda>r. groupPlan ''bedrock-converse'' (case r of None \<Rightarrow> [] | Some t \<Rightarrow> t) ''bedrock_plan'')
         (bedrockReply env)),
      (''ollama'', ollamaEnabled env,
       map_option (\<lambda>t. groupPlan ''ollama'' t ''ollama_plan'') (ollamaReply env))]"

definition heuristicPlan :: "JsHost \<Rightarrow> PlanRequest \<Rightarrow> PlanResponse" where
  "heuristicPlan host request =
     (let intents =
            map (\<lambda>task.
                   \<lparr> plan_agentId = task_id task,
                     intent = ''allocate '' @ numToString host (recommendedParticipants task)
                                @ '' participants to '' @ task_name task,
                     rationale = ''heuristic_allocation'' \<rparr>)
                (pendingTasks request)
      in \<lparr> plans =
             (if intents = []
              then [\<lparr> plan_agentId = ''none'', intent = ''rest and monitor resources'',
                      rationale = ''idle_day'' \<rparr>]
              else intents),
           provider = ''heuristic'' \<rparr>)"

text \<open>The \<^verbatim>\<open>for (const adapter of this.adapters)\<close> loop of \<^verbatim>\<open>plan\<close>: a disabled adapter is
  skipped, a throwing one is caught and the loop goes on.\<close>

fun tryAdapters :: "(string \<times> bool \<times> PlanResponse option) list \<Rightarrow> PlanResponse option" where
  "tryAdapters [] = None"
| "tryAdapters ((prov, enabled, result) # rest) =
     (if \<not> enabled then tryAdapters rest
      else case result of Some response \<Rightarrow> Some response | None \<Rightarrow> tryAdapters rest)"

definition plan :: "JsHost \<Rightarrow> LlmEnv \<Rightarrow> PlanRequest \<Rightarrow> PlanResponse" where
  "plan host env request =
     (case tryAdapters (adapters env) of
        Some response \<Rightarrow> response
      | None \<Rightarrow> heuristicPlan host request)"

text \<open>No adapter is enabled, or every enabled adapter fails.\<close>

definition heuristicOnly :: "LlmEnv \<Rightarrow> bool" where
  "heuristicOnly env \<longleftrightarrow>
     (\<not> openaiEnabled env \<or> openaiReply env = None) \<and>
     (\<not> bedrockEnabled env \<or> bedrockReply env = None) \<and>
     (\<not> ollamaEnabled env \<or> ollamaReply env = None)"

section \<open>random.ts: the simulation orchestrator\<close>

record SimulationLogEntry =
  log_day :: real
  log_agentId :: "string option"
  log_type :: string
  log_summary :: string
  log_detail :: string

record SimulationStepResult =
  newState :: SimulationState
  assignments :: "TaskAssignment list"
  metrics :: DailyMetrics
  logs :: "SimulationLogEntry list"
  causalGraph :: "(string \<times> string \<times> real) list"
  networkStats :: NetworkStats

text \<open>
  The fields of \<^verbatim>\<open>CooperationSimulation\<close>. The planner, the cognition engine and the LLM
  core hold nothing but the configuration; the environment and the simulation share
  one generator; the logger is its two buffers.
\<close>

record Simulation =
  sim_config :: ScenarioConfig
  sim_environment :: EnvironmentState
  sim_network :: SocialNetwork
  sim_rng :: rng
  sim_agents :: "AgentState list"
  sim_logs :: "SimulationLogEntry list"
  sim_causal :: "(string \<times> string \<times> real) list"

definition sampleNormal :: "real \<Rightarrow> real \<Rightarrow> rng \<Rightarrow> real \<times> rng" where
  "sampleNormal mean std g = (let (z, g2) = standardNormal g in (mean + std * z, g2))"

text \<open>The decimal digits of a natural number, as a template string prints it.\<close>

function natToString :: "nat \<Rightarrow> string" where
  "natToString n =
     (if n < 10 then [''0123456789'' ! n]
      else natToString (n div 10) @ [''0123456789'' ! (n mod 10)])"
  by pat_completeness auto
termination
  by (relation "measure (\<lambda>n. n)") auto

declare natToString.simps [simp del]

definition buildAgentId :: "nat \<Rightarrow> string" where
  "buildAgentId i = ''agent_'' @ natToString (i + 1)"

text \<open>\<^verbatim>\<open>Object.entries(skillProfiles).forEach(([key, { mean, std }]) => ...)\<close>.\<close>

definition skillStep ::
  "string \<times> real \<times> real \<Rightarrow> (string \<times> real) list \<times> rng \<Rightarrow> (string \<times> real) list \<times> rng" where
  "skillStep profile st =
     (let (key, mean, std) = profile;
          (sk, g0) = st;
          (raw, g1) = sampleNormal mean std g0
      in (AList.update key (clamp raw 0 1.2) sk, g1))"

definition sampleSkills :: "(string \<times> real \<times> real) list \<Rightarrow> rng \<Rightarrow> (string \<times> real) list \<times> rng" where
  "sampleSkills profiles g = fold skillStep profiles ([], g)"

text \<open>One round of the loop of \<^verbatim>\<open>initializeAgents\<close>.\<close>

definition initializeAgent :: "ScenarioConfig \<Rightarrow> nat \<Rightarrow> rng \<Rightarrow> AgentState \<times> rng" where
  "initializeAgent cfg i g =
     (let camp = [''Camp-A'', ''Camp-B'', ''Camp-C''] ! (i mod 3);
          (sk, g1) = sampleSkills (skillProfiles cfg) g;
          (al, g2) = sampleNormal (alphaMean cfg) (alphaStd cfg) g1;
          (be, g3) = sampleNormal (betaMean cfg) (betaStd cfg) g2;
          (rw, g4) = sampleNormal (prefReputationWeight cfg) 0.1 g3;
          (np, g5) = sampleNormal (prefNormPenalty cfg) 0.1 g4;
          (p1, g6) = sampleNormal 0.5 0.2 g5;
          (p2, g7) = sampleNormal 0.6 0.2 g6;
          (p3, g8) = sampleNormal 0.55 0.15 g7;
          (p4, g9) = sampleNormal 0.7 0.15 g8;
          (p5, g10) = sampleNormal 0.5 0.2 g9
      in (\<lparr> agent_id = buildAgentId i,
             agent_name = ''Forager-'' @ natToString (i + 1),
             campId = camp,
             energy = dailyEnergyNeed cfg * 1.2,
             hungerDebt = 0,
             emotion = \<lparr> valence = baselineValence cfg, arousal = baselineArousal cfg,
                         mood = baselineValence cfg \<rparr>,
             fs_alpha = clamp al 0 2,
             fs_beta = clamp be 0 2,
             fs_reputationWeight = clamp rw 0 1,
             fs_normPenalty = clamp np 0 1,
             reputation = 0.5,
             skillset = sk,
             preferences =
               \<lparr> riskTolerance = clamp p1 0 1, normativeAlignment = clamp p2 0 1,
                 socialGoalWeight = clamp p3 0 1, survivalGoalWeight = clamp p4 0 1,
                 memoryFocus = clamp p5 0 1 \<rparr>,
             resourceExpectations = 1,
             normExpectation = 0.5,
             socialMemory = [],
             episodicMemory = [],
             lastReflectionDay = - 1,
             lastActions = [] \<rparr>,
          g10))"

text \<open>\<^verbatim>\<open>for (let i = 0; i < size; i++)\<close>: \<open>n\<close> rounds are left, the next index is \<open>i\<close>.\<close>

fun initializeAgentsFrom :: "ScenarioConfig \<Rightarrow> nat \<Rightarrow> nat \<Rightarrow> rng \<Rightarrow> AgentState list \<times> rng" where
  "initializeAgentsFrom cfg i 0 g = ([], g)"
| "initializeAgentsFrom cfg i (Suc n) g =
     (let (a, g1) = initializeAgent cfg i g;
          (rest, g2) = initializeAgentsFrom cfg (Suc i) n g1
      in (a # rest, g2))"

text \<open>\<^verbatim>\<open>campMembership[id] = camp\<close> in each round fills the membership object in the order
  of the agents.\<close>

definition initializeAgents :: "ScenarioConfig \<Rightarrow> rng \<Rightarrow> AgentState list \<times> (string \<times> string) list \<times> rng" where
  "initializeAgents cfg g =
     (let (agents, g') = initializeAgentsFrom cfg 0 (nat \<lceil>populationSize cfg\<rceil>) g
      in (agents, fold (\<lambda>a. AList.update (agent_id a) (campId a)) agents [], g'))"

text \<open>A deep clone of values is the values.\<close>

definition deepCloneAgents :: "AgentState list \<Rightarrow> AgentState list" where
  "deepCloneAgents agents = agents"

text \<open>\<^verbatim>\<open>String.prototype.includes\<close>.\<close>

fun includesStr :: "string \<Rightarrow> string \<Rightarrow> bool" where
  "includesStr [] needle = (needle = [])"
| "includesStr (c # cs) needle =
     (take (length needle) (c # cs) = needle \<or> includesStr cs needle)"

text \<open>\<^verbatim>\<open>orderTasksByPlan\<close>: the weight of a task id is the first plan index whose intent
  names a task of that id; the sort is stable.\<close>

definition planWeight :: "JsHost \<Rightarrow> PlanResponse \<Rightarrow> ScenarioTask list \<Rightarrow> string \<Rightarrow> nat" where
  "planWeight host pl tsks tid =
     (case find (\<lambda>(idx, item).
                   list_ex (\<lambda>task. task_id task = tid \<and>
                              (includesStr (toLowerCase host (intent item)) (task_id task) \<or>
                               includesStr (toLowerCase host (intent item)) (task_name task)))
                     tsks)
             (zip [0 ..< length (plans pl)] (plans pl)) of
        Some (idx, item) \<Rightarrow> idx
      | None \<Rightarrow> 9007199254740991)"

definition orderTasksByPlan :: "JsHost \<Rightarrow> PlanResponse \<Rightarrow> ScenarioTask list \<Rightarrow> ScenarioTask list" where
  "orderTasksByPlan host pl tsks = sort_key (\<lambda>task. planWeight host pl tsks (task_id task)) tsks"

definition loggerRecord ::
  "ScenarioConfig \<Rightarrow> SimulationLogEntry \<Rightarrow> SimulationLogEntry list \<Rightarrow> SimulationLogEntry list" where
  "loggerRecord cfg entry buffer = (if eventLog cfg then buffer @ [entry] else buffer)"

definition initialize :: "ScenarioConfig \<Rightarrow> int \<Rightarrow> Simulation option" where
  "initialize cfg seed =
     (case initialEnvironment cfg of
        None \<Rightarrow> None
      | Some env \<Rightarrow>
          (let (agents, membership, g) = initializeAgents cfg (seededRandom seed)
           in Some \<lparr> sim_config = cfg, sim_environment = env,
                     sim_network = initializeNetwork cfg membership,
                     sim_rng = g, sim_agents = agents, sim_logs = [], sim_causal = [] \<rparr>))"

definition fromState :: "ScenarioConfig \<Rightarrow> SimulationState \<Rightarrow> Simulation" where
  "fromState cfg st =
     \<lparr> sim_config = cfg, sim_environment = st_environment st,
       sim_network = newSocialNetwork (st_network st),
       sim_rng = seededRandom (rngSeed st),
       sim_agents = deepCloneAgents (st_agents st), sim_logs = [], sim_causal = [] \<rparr>"

text \<open>\<^verbatim>\<open>Math.floor(this.rng.next() * 1_000_000_000)\<close>: the draw is a multiple of \<open>2\<^sup>-\<^sup>3\<^sup>2\<close>
  below 1, so the product is exact in a double as well.\<close>

definition nextSeedOf :: "rng \<Rightarrow> int \<times> rng" where
  "nextSeedOf g = (let (u, g') = rng_next g in (\<lfloor>u * 1000000000\<rfloor>, g'))"

definition serialize :: "Simulation \<Rightarrow> SimulationState \<times> Simulation" where
  "serialize sim =
     (let (nextSeed, g) = nextSeedOf (sim_rng sim)
      in (\<lparr> st_environment = sim_environment sim,
             st_agents = deepCloneAgents (sim_agents sim),
             st_network = toState (sim_network sim),
             rngSeed = nextSeed,
             environmentRngSeed = nextSeed \<rparr>,
          sim \<lparr> sim_rng := g \<rparr>))"

definition createPlanRequest :: "Simulation \<Rightarrow> PlanRequest option" where
  "createPlanRequest sim =
     (let cfg = sim_config sim; envState = sim_environment sim
      in if seasons cfg = [] then None
         else case seasonAt cfg (jsRemInt (seasonIndex envState) (int (length (seasons cfg)))) of
           None \<Rightarrow> None
         | Some season \<Rightarrow>
             Some \<lparr> req_day = env_day envState, req_season = season_name season,
                    req_environment = envState, req_agents = deepCloneAgents (sim_agents sim),
                    pendingTasks = tasks cfg \<rparr>)"

text \<open>\<^verbatim>\<open>agentIndex\<close> maps an id to the last agent of that id; a participant is mutated
  in place.\<close>

definition hasAgent :: "AgentState list \<Rightarrow> string \<Rightarrow> bool" where
  "hasAgent agents pid \<longleftrightarrow> pid \<in> set (map agent_id agents)"

fun updateAgent :: "string \<Rightarrow> (AgentState \<Rightarrow> AgentState) \<Rightarrow> AgentState list \<Rightarrow> AgentState list" where
  "updateAgent pid f [] = []"
| "updateAgent pid f (a # as) =
     (if agent_id a = pid \<and> \<not> hasAgent as pid then f a # as else a # updateAgent pid f as)"

definition shareOf :: "TaskExecution \<Rightarrow> string \<Rightarrow> real" where
  "shareOf exec pid = (case map_of (rewards exec) pid of None \<Rightarrow> 0 | Some v \<Rightarrow> v)"

definition costOf :: "TaskExecution \<Rightarrow> string \<Rightarrow> real" where
  "costOf exec pid = (case map_of (exec_energyCost exec) pid of None \<Rightarrow> 0 | Some v \<Rightarrow> v)"

definition outcomeName :: "Outcome \<Rightarrow> string" where
  "outcomeName oc = (case oc of Success \<Rightarrow> ''success'' | Failure \<Rightarrow> ''failure'')"

text \<open>
  The body of \<^verbatim>\<open>participants.forEach((agent) => ...)\<close> as far as it changes the agent, in
  the order of the source: energy and hunger debt; the injury; the stimulus of the outcome
  and the reputation; the interactions with the other participants; \<^verbatim>\<open>lastActions\<close>.
  \<open>pids\<close> are the ids of the participants found in the index.
\<close>

definition fairnessOf :: "real \<Rightarrow> real \<Rightarrow> real" where
  "fairnessOf share baseShare =
     (if baseShare = 0 then 0 else (share - baseShare) / max baseShare 0.001)"

definition energyUpdate :: "ScenarioConfig \<Rightarrow> TaskExecution \<Rightarrow> AgentState \<Rightarrow> AgentState" where
  "energyUpdate cfg exec agent =
     (let energyNeed = dailyEnergyNeed cfg;
          share = shareOf exec (agent_id agent);
          cost = costOf exec (agent_id agent);
          a1 = agent \<lparr> energy := max 0 (energy agent + share - cost - energyNeed) \<rparr>
      in if energy a1 < energyNeed * 0.5
         then a1 \<lparr> hungerDebt := hungerDebt a1 + (energyNeed * 0.5 - energy a1) \<rparr>
         else a1)"

definition injuryUpdate :: "ScenarioConfig \<Rightarrow> real \<Rightarrow> TaskExecution \<Rightarrow> AgentState \<Rightarrow> AgentState" where
  "injuryUpdate cfg day exec agent =
     (let asg = assignment exec
      in if agent_id agent \<in> set (injuries asg)
         then applyStimulus cfg (agent \<lparr> energy := max 0 (energy agent - 0.2) \<rparr>) day
                \<lparr> goalAlignment = - 0.6, normAlignment = - 0.2, preferenceAlignment = - 0.3,
                  stim_arousal = 0.6,
                  stim_summary = ''Suffered injury during '' @ taskId asg @ ''.'',
                  stim_tags = [''injury'', taskId asg],
                  stim_impact = - 0.7 \<rparr>
         else agent)"

definition outcomeUpdate ::
  "ScenarioConfig \<Rightarrow> JsHost \<Rightarrow> real \<Rightarrow> TaskExecution \<Rightarrow> real \<Rightarrow> AgentState \<Rightarrow> AgentState" where
  "outcomeUpdate cfg host day exec baseShare agent =
     (let energyNeed = dailyEnergyNeed cfg;
          asg = assignment exec;
          succeeded = (outcome asg = Success);
          share = shareOf exec (agent_id agent);
          fairness = fairnessOf share baseShare;
          a4 = applyStimulus cfg agent day
                 \<lparr> goalAlignment = (if succeeded then 0.8 else - 0.4),
                   normAlignment = (if fairness \<ge> - fs_normPenalty agent then 0.3 else - 0.3),
                   preferenceAlignment = (if share \<ge> energyNeed then 0.2 else - 0.1),
                   stim_arousal = (if succeeded then 0.2 else 0.4),
                   stim_summary = taskId asg @ '' '' @ outcomeName (outcome asg) @ '' with share ''
                                    @ toFixed2 host share @ ''.'',
                   stim_tags = [''task'', taskId asg],
                   stim_impact = (if succeeded then 0.5 else - 0.2) \<rparr>
      in a4 \<lparr> reputation := clamp (reputation a4 + (if succeeded then 0.05 else - 0.03)) 0 1 \<rparr>)"

text \<open>The inner \<^verbatim>\<open>participants.forEach((partner) => ...)\<close>, as far as it changes the agent
  whose id is \<open>self\<close>.\<close>

definition registerPartners ::
  "ScenarioConfig \<Rightarrow> real \<Rightarrow> TaskExecution \<Rightarrow> real \<Rightarrow> string list \<Rightarrow> string \<Rightarrow> AgentState \<Rightarrow> AgentState" where
  "registerPartners cfg day exec baseShare pids self agent =
     fold (\<lambda>partner a.
             if partner = self then a
             else registerInteraction cfg a partner day
                    (if outcome (assignment exec) = Success then 0.2 else - 0.1)
                    (shareOf exec self) (shareOf exec partner)
                    (fairnessOf (shareOf exec self) baseShare))
          pids agent"

definition participantUpdate ::
  "ScenarioConfig \<Rightarrow> JsHost \<Rightarrow> real \<Rightarrow> TaskExecution \<Rightarrow> real \<Rightarrow> string list \<Rightarrow> AgentState \<Rightarrow> AgentState" where
  "participantUpdate cfg host day exec baseShare pids agent =
     (registerPartners cfg day exec baseShare pids (agent_id agent)
        (outcomeUpdate cfg host day exec baseShare
           (injuryUpdate cfg day exec (energyUpdate cfg exec agent))))
       \<lparr> lastActions := [taskId (assignment exec)] \<rparr>"

text \<open>The same loop body as far as it changes the network.\<close>

definition participantEdges :: "TaskExecution \<Rightarrow> string list \<Rightarrow> string \<Rightarrow> SocialNetwork \<Rightarrow> SocialNetwork" where
  "participantEdges exec pids aid net =
     fold (\<lambda>partner n.
             if partner = aid then n
             else reinforceInteraction n aid partner (0.2 + shareOf exec aid * 0.05))
          pids net"

text \<open>The body of \<^verbatim>\<open>executions.forEach\<close>.\<close>

definition applyExecution ::
  "ScenarioConfig \<Rightarrow> JsHost \<Rightarrow> real \<Rightarrow> TaskExecution
     \<Rightarrow> AgentState list \<times> SocialNetwork \<times> SimulationLogEntry list
     \<Rightarrow> AgentState list \<times> SocialNetwork \<times> SimulationLogEntry list" where
  "applyExecution cfg host day exec st =
     (let (agents, net, buffer) = st;
          asg = assignment exec;
          pids = filter (hasAgent agents) (participants asg)
      in
      if pids = [] then st
      else
        let baseShare = (if participants asg = [] then 0
                         else reward asg / real (length (participants asg)));
            agents' = fold (\<lambda>pid. updateAgent pid (participantUpdate cfg host day exec baseShare pids))
                        pids agents;
            net' = fold (participantEdges exec pids) pids net;
            buffer' =
              (if taskLog cfg
               then loggerRecord cfg
                      \<lparr> log_day = day, log_agentId = None, log_type = ''task'',
                        log_summary = taskId asg @ '' '' @ outcomeName (outcome asg),
                        log_detail = jsonStringify host exec \<rparr>
                      buffer
               else buffer)
        in (agents', net', buffer'))"

text \<open>The closing \<^verbatim>\<open>this.agents.forEach\<close> of \<^verbatim>\<open>applyExecutions\<close>: reflection.\<close>

fun reflectAll ::
  "ScenarioConfig \<Rightarrow> JsHost \<Rightarrow> real \<Rightarrow> AgentState list \<Rightarrow> SimulationLogEntry list
     \<Rightarrow> AgentState list \<times> SimulationLogEntry list" where
  "reflectAll cfg host day [] buffer = ([], buffer)"
| "reflectAll cfg host day (a # as) buffer =
     (let (reflection, a') = reflect cfg host a day;
          buffer' =
            (case reflection of
               None \<Rightarrow> buffer
             | Some txt \<Rightarrow>
                 (if txt = [] then buffer
                  else loggerRecord cfg
                         \<lparr> log_day = day, log_agentId = Some (agent_id a), log_type = ''reflection'',
                           log_summary = txt, log_detail = txt \<rparr>
                         buffer));
          (rest, buffer'') = reflectAll cfg host day as buffer'
      in (a' # rest, buffer''))"

definition applyExecutions ::
  "ScenarioConfig \<Rightarrow> JsHost \<Rightarrow> TaskExecution list \<Rightarrow> real
     \<Rightarrow> AgentState list \<times> SocialNetwork \<times> SimulationLogEntry list
     \<Rightarrow> AgentState list \<times> SocialNetwork \<times> SimulationLogEntry list" where
  "applyExecutions cfg host executions day st =
     (let (agents, net, buffer) = st;
          (agents1, net1, buffer1) =
            fold (applyExecution cfg host day) executions (agents, applyDecay net, buffer);
          (agents2, buffer2) = reflectAll cfg host day agents1 buffer1
      in (agents2, net1, buffer2))"

definition stepDay :: "JsHost \<Rightarrow> LlmEnv \<Rightarrow> Simulation \<Rightarrow> (SimulationStepResult \<times> Simulation) option" where
  "stepDay host env sim =
     (let cfg = sim_config sim in
      case createPlanRequest sim of
        None \<Rightarrow> None
      | Some planRequest \<Rightarrow>
          (let orderedTasks = orderTasksByPlan host (plan host env planRequest) (tasks cfg) in
           case tick cfg (sim_environment sim) (sim_rng sim) of
             None \<Rightarrow> None
           | Some (envState, g1) \<Rightarrow>
               (let (executions, g2) =
                      assignTasks cfg g1 (sim_agents sim)
                        (plants envState, smallGame envState, largeGame envState) (Some orderedTasks);
                    (agents', net', buffer') =
                      applyExecutions cfg host executions (env_day envState)
                        (sim_agents sim, sim_network sim, sim_logs sim);
                    stats = computeStats net';
                    m = (evaluateCooperation executions agents')
                          \<lparr> networkAssortativity := stat_assortativity stats,
                            metric_reciprocity := stat_reciprocity stats \<rparr>;
                    (nextSeed, g3) = nextSeedOf g2
                in Some (\<lparr> newState =
                             \<lparr> st_environment = envState,
                               st_agents = deepCloneAgents agents',
                               st_network = toState net',
                               rngSeed = nextSeed,
                               environmentRngSeed = nextSeed \<rparr>,
                           assignments = map assignment executions,
                           metrics = m,
                           logs = buffer',
                           causalGraph = sim_causal sim,
                           networkStats = stats \<rparr>,
                         sim \<lparr> sim_environment := envState, sim_network := net', sim_rng := g3,
                               sim_agents := agents', sim_logs := [], sim_causal := [] \<rparr>))))"

text \<open>\<open>k\<close> calls of \<^verbatim>\<open>stepDay\<close>, one environment per call, collecting the snapshots.\<close>

fun stepDays :: "JsHost \<Rightarrow> LlmEnv list \<Rightarrow> Simulation \<Rightarrow> (SimulationState list \<times> Simulation) option" where
  "stepDays host [] sim = Some ([], sim)"
| "stepDays host (env # envs) sim =
     (case stepDay host env sim of
        None \<Rightarrow> None
      | Some (r, sim') \<Rightarrow>
          (case stepDays host envs sim' of
             None \<Rightarrow> None
           | Some (snaps, sim'') \<Rightarrow> Some (newState r # snaps, sim'')))"

definition runSimulation ::
  "JsHost \<Rightarrow> ScenarioConfig \<Rightarrow> int \<Rightarrow> LlmEnv list \<Rightarrow> SimulationState list option" where
  "runSimulation host cfg seed envs =
     (case initialize cfg seed of
        None \<Rightarrow> None
      | Some sim \<Rightarrow> map_option fst (stepDays host envs sim))"

text \<open>The simulations that \<^verbatim>\<open>initialize\<close>, \<^verbatim>\<open>stepDay\<close> and \<^verbatim>\<open>serialize\<close> can produce for a
  configuration.\<close>

inductive reachable :: "JsHost \<Rightarrow> ScenarioConfig \<Rightarrow> Simulation \<Rightarrow> bool" for host cfg where
  reach_init: "initialize cfg seed = Some sim \<Longrightarrow> reachable host cfg sim"
| reach_step: "reachable host cfg sim \<Longrightarrow> stepDay host env sim = Some (r, sim') \<Longrightarrow> reachable host cfg sim'"
| reach_serialize: "reachable host cfg sim \<Longrightarrow> reachable host cfg (snd (serialize sim))"

section \<open>Predicates used in the statements\<close>

text \<open>The selection loop: what it has taken is what left the available set.\<close>

definition selectInv ::
  "ScenarioTask \<Rightarrow> AgentState list \<Rightarrow> string list \<Rightarrow> AgentState list \<times> string list \<Rightarrow> bool" where
  "selectInv task pool avail0 st \<longleftrightarrow>
     (case st of (ps, avail) \<Rightarrow>
        set avail = set avail0 - set (map agent_id ps) \<and>
        set (map agent_id ps) \<subseteq> set avail0 \<and>
        set ps \<subseteq> set pool \<and>
        distinct (map agent_id ps) \<and>
        (category task = Hunting \<longrightarrow> (\<forall>a \<in> set ps. 0.3 \<le> skillOr a ''hunting'')))"

definition gated :: "ScenarioTask list \<Rightarrow> AgentState list \<Rightarrow> TaskExecution \<Rightarrow> bool" where
  "gated tsks pool e \<longleftrightarrow>
     (\<exists>t \<in> set tsks. taskId (assignment e) = task_id t \<and>
        (category t = Hunting \<longrightarrow>
           (\<forall>p \<in> set (participants (assignment e)).
              \<exists>a \<in> set pool. agent_id a = p \<and> 0.3 \<le> skillOr a ''hunting'')))"

definition loopNotes :: "TaskExecution \<Rightarrow> bool" where
  "loopNotes e \<longleftrightarrow> asg_notes (assignment e) \<noteq> ''fallback maintenance duty''"

text \<open>An execution is staffed when it belongs to a task of the sequence and has at least
  that task's \<^verbatim>\<open>minParticipants\<close> participants.\<close>

definition staffed :: "ScenarioTask list \<Rightarrow> TaskExecution \<Rightarrow> bool" where
  "staffed tsks e \<longleftrightarrow>
     (\<exists>t \<in> set tsks. taskId (assignment e) = task_id t \<and>
        minParticipants t \<le> real (length (participants (assignment e))))"

text \<open>The edge map: every entry is stored under the key of its own source and target.\<close>

definition edgesWellKeyed :: "(string \<times> NetworkEdge) list \<Rightarrow> bool" where
  "edgesWellKeyed es \<longleftrightarrow>
     distinct (map fst es) \<and>
     (\<forall>entry \<in> set es. fst entry = makeKey (edge_source (snd entry)) (edge_target (snd entry)))"

text \<open>The invariant of the social network, and what it needs of agents and executions:
  skills and reward shares that are not negative.\<close>

definition networkInv :: "SocialNetwork \<Rightarrow> bool" where
  "networkInv net \<longleftrightarrow>
     edgesWellKeyed (net_edges net) \<and> (\<forall>entry \<in> set (net_edges net). 0.01 \<le> weight (snd entry))"

definition skillsNonneg :: "AgentState \<Rightarrow> bool" where
  "skillsNonneg a \<longleftrightarrow> (\<forall>entry \<in> set (skillset a). 0 \<le> snd entry)"

definition rewardsNonneg :: "TaskExecution \<Rightarrow> bool" where
  "rewardsNonneg e \<longleftrightarrow> (\<forall>entry \<in> set (rewards e). 0 \<le> snd entry)"

text \<open>The invariants of the social memory and of a simulation.\<close>

definition memoryDistinct :: "AgentState \<Rightarrow> bool" where
  "memoryDistinct a \<longleftrightarrow> distinct (map partnerId (socialMemory a))"

definition simInv :: "ScenarioConfig \<Rightarrow> Simulation \<Rightarrow> bool" where
  "simInv cfg sim \<longleftrightarrow>
     sim_config sim = cfg \<and> networkInv (sim_network sim) \<and>
     (\<forall>a \<in> set (sim_agents sim). skillsNonneg a \<and> memoryDistinct a) \<and>
     sim_logs sim = [] \<and> sim_causal sim = []"

text \<open>The social memory of a participant after one partner of the partner loop.\<close>

definition memoryStep ::
  "ScenarioConfig \<Rightarrow> real \<Rightarrow> TaskExecution \<Rightarrow> real \<Rightarrow> string \<Rightarrow> string
     \<Rightarrow> SocialMemoryEntry list \<Rightarrow> SocialMemoryEntry list" where
  "memoryStep cfg day exec baseShare self partner m =
     (if partner = self then m
      else updateSocialMemory m partner day
             (if outcome (assignment exec) = Success then 0.2 else - 0.1)
             (shareOf exec self) (shareOf exec partner)
             (fairnessOf (shareOf exec self) baseShare)
             (socialMemoryHorizonDays cfg))"

definition memoryOk :: "real \<Rightarrow> SocialMemoryEntry list \<Rightarrow> bool" where
  "memoryOk window m \<longleftrightarrow>
     distinct (map partnerId m) \<and>
     (\<forall>entry \<in> set m. lastInteractionDay (hd m) - lastInteractionDay entry \<le> window)"

text \<open>The ids and social memories of a list of agents.\<close>

definition memoryOf :: "AgentState list \<Rightarrow> (string \<times> SocialMemoryEntry list) list" where
  "memoryOf agents = map (\<lambda>a. (agent_id a, socialMemory a)) agents"

section \<open>Concrete inputs\<close>

text \<open>An agent as \<^verbatim>\<open>initializeAgents\<close> lays it out, with a given id and skill set, and a
  task with the given id, category, norm, yield and participant bounds.\<close>

definition mkAgent :: "string \<Rightarrow> (string \<times> real) list \<Rightarrow> AgentState" where
  "mkAgent i sk =
     \<lparr> agent_id = i, agent_name = i, campId = ''Camp-A'', energy = 12, hungerDebt = 0,
       emotion = \<lparr> valence = 0, arousal = 0, mood = 0 \<rparr>,
       fs_alpha = 0, fs_beta = 0, fs_reputationWeight = 0, fs_normPenalty = 0,
       reputation = 0.5, skillset = sk,
       preferences = \<lparr> riskTolerance = 0.5, normativeAlignment = 0.6, socialGoalWeight = 0.55,
                       survivalGoalWeight = 0.7, memoryFocus = 0.5 \<rparr>,
       resourceExpectations = 1, normExpectation = 0.5,
       socialMemory = [], episodicMemory = [], lastReflectionDay = - 1, lastActions = [] \<rparr>"

definition mkTask ::
  "string \<Rightarrow> TaskCategory \<Rightarrow> TaskNormRule \<Rightarrow> real option \<Rightarrow> real \<Rightarrow> real \<Rightarrow> ScenarioTask" where
  "mkTask i c n y lo hi =
     \<lparr> task_id = i, task_name = i, category = c, successProbability = 1,
       yieldPerParticipant = y, yieldPerParticipantOnSuccess = None, energyCost = 1,
       injuryRiskMultiplier = 1, minParticipants = lo, recommendedParticipants = hi,
       task_norm = n \<rparr>"

text \<open>The execution \<^verbatim>\<open>assignTasks\<close> pushes for one agent on a successful task of norm
  \<^verbatim>\<open>collective_penalty\<close> with \<^verbatim>\<open>yieldPerParticipant = 4\<close>: the task reward is 4, the
  agent's share is 0.\<close>

definition penaltyExecution :: TaskExecution where
  "penaltyExecution =
     (let task = mkTask ''dam'' PublicGood CollectivePenalty (Some 4) 1 1;
          ps = [mkAgent ''agent_1'' []]
      in \<lparr> assignment =
             \<lparr> taskId = task_id task, participants = map agent_id ps, outcome = Success,
               reward = 4, injuries = [], asg_notes = ''coordinated effort succeeded'' \<rparr>,
           rewards = computeShare task ps 4,
           exec_energyCost = computeEnergyCost task ps,
           exec_successProbability = 1 \<rparr>)"

text \<open>A host for the concrete inputs: numbers print as the digits of their integer part.\<close>

definition demoHost :: JsHost where
  "demoHost =
     \<lparr> toFixed2 = (\<lambda>x. natToString (nat \<lfloor>x\<rfloor>) @ ''.00''),
       numToString = (\<lambda>x. natToString (nat \<lfloor>x\<rfloor>)),
       toLowerCase = (\<lambda>s. s),
       jsonStringify = (\<lambda>e. taskId (assignment e)) \<rparr>"

text \<open>A one-season scenario (spring, multiplier 1, no climate noise, gamma shape 2 and
  scale 1, no log-Gaussian factor) with the given tasks, population size and social
  memory horizon; skills and social preferences have standard deviation 0.\<close>

definition demoConfig :: "ScenarioTask list \<Rightarrow> real \<Rightarrow> real \<Rightarrow> ScenarioConfig" where
  "demoConfig ts n horizon =
     \<lparr> displayName = ''Demo'', seasonLengthDays = 30,
       seasons = [\<lparr> season_name = Spring, resourceMultiplier = 1, climateNoise = 0 \<rparr>],
       basePlantRate = 10, baseSmallGameRate = 5, baseLargeGameRate = 2,
       gammaShape = 2, gammaScale = 1, logGaussian = None,
       seasonalLargeGameBonus = (\<lambda>s. None),
       hazardsBase = \<lparr> hz_injury = 0.1, hz_hypothermia = 0.05, hz_predator = 0.05 \<rparr>,
       hazardsSeasonal = None,
       tasks = ts, populationSize = n,
       skillProfiles = [(''gathering'', 0.6, 0), (''hunting'', 0.5, 0), (''crafting'', 0.5, 0)],
       alphaMean = 0.8, alphaStd = 0, betaMean = 0.4, betaStd = 0,
       prefReputationWeight = 0.5, prefNormPenalty = 0.2,
       socialMemoryHorizonDays = horizon, episodicWindowDays = 7, reflectionIntervalDays = 3,
       emotionDecay = 0.1, baselineValence = 0, baselineArousal = 0.5,
       networkDecay = 0.1, eventLog = True, taskLog = True, causalGraphLog = False,
       dailyEnergyNeed = 10 \<rparr>"

text \<open>No environment variable is set; and: the OpenAI key is set but the request fails.\<close>

definition noAdapters :: LlmEnv where
  "noAdapters =
     \<lparr> openaiEnabled = False, openaiReply = None, bedrockEnabled = False, bedrockReply = None,
       ollamaEnabled = False, ollamaReply = None \<rparr>"

definition failingOpenai :: LlmEnv where
  "failingOpenai = noAdapters \<lparr> openaiEnabled := True \<rparr>"

definition forageTask :: ScenarioTask where
  "forageTask = mkTask ''foraging'' Foraging EqualShare (Some 4) 1 2"

definition huntTask :: ScenarioTask where
  "huntTask = mkTask ''hunt'' Hunting EqualShare (Some 4) 2 3"

definition demoRequest :: PlanRequest where
  "demoRequest =
     \<lparr> req_day = 0, req_season = Spring,
       req_environment =
         \<lparr> env_day = 0, seasonIndex = 0, seasonDay = 0, plants = 10, smallGame = 5, largeGame = 2,
           climateShock = 0,
           riskModifier = \<lparr> hz_injury = 0.1, hz_hypothermia = 0.05, hz_predator = 0.05 \<rparr> \<rparr>,
       req_agents = [],
       pendingTasks = [forageTask, huntTask] \<rparr>"

definition lowHunter :: AgentState where
  "lowHunter = mkAgent ''agent_1'' [(''hunting'', 0.1)]"

definition goodHunter :: AgentState where
  "goodHunter = mkAgent ''agent_2'' [(''hunting'', 0.9)]"

definition campHunt :: ScenarioTask where
  "campHunt = mkTask ''camp_maintenance'' Hunting EqualShare (Some 4) 1 1"

definition soloHunt :: ScenarioTask where
  "soloHunt = mkTask ''hunt'' Hunting EqualShare (Some 4) 1 1"

text \<open>Two agents with a gathering skill of at least 0.5, and a \<^verbatim>\<open>camp_maintenance\<close> task
  that needs two participants.\<close>

definition gatherer1 :: AgentState where
  "gatherer1 = mkAgent ''agent_1'' [(''gathering'', 0.6)]"

definition gatherer2 :: AgentState where
  "gatherer2 = mkAgent ''agent_2'' [(''gathering'', 0.5)]"

definition campPair :: ScenarioTask where
  "campPair = mkTask ''camp_maintenance'' PublicGood EqualShare (Some 4) 2 3"

text \<open>A foraging task for exactly two participants.\<close>

definition pairTask :: ScenarioTask where
  "pairTask = mkTask ''gather'' Foraging EqualShare (Some 4) 2 2"

section \<open>Properties\<close>

subsection \<open>evaluateCooperation: the energy balance\<close>

lemma fold_subtract_costs: "fold (\<lambda>cost e. e - cost) cs (eb::real) = eb - sum_list cs"
  by (induction cs arbitrary: eb) simp_all

lemma evalStep_energy:
  "fst (evalStep agents exec acc) =
     fst acc + reward (assignment exec) - sum_list (map snd (exec_energyCost exec))"
  by (cases acc) (simp add: evalStep_def Let_def fold_subtract_costs)

lemma fold_evalStep_energy:
  "fst (fold (evalStep agents) execs acc) =
     fst acc + (\<Sum>e\<leftarrow>execs. reward (assignment e))
       - (\<Sum>e\<leftarrow>execs. sum_list (map snd (exec_energyCost e)))"
  by (induction execs arbitrary: acc) (simp_all add: evalStep_energy)

lemma energyBalance_fold:
  "energyBalance (evaluateCooperation execs agents) = fst (fold (evalStep agents) execs (0, [], 0))"
  by (simp add: evaluateCooperation_def Let_def split: prod.splits)

text \<open>
  C4 (as amended). \<^verbatim>\<open>evaluateCooperation\<close> returns as \<^verbatim>\<open>energyBalance\<close> the sum over the
  executions of the task reward \<^verbatim>\<open>assignment.reward\<close>, minus the sum over the executions
  of every participant's energy cost. The per-participant shares in \<^verbatim>\<open>rewards\<close> do
  not enter the balance.
\<close>

theorem evaluateCooperation_energyBalance:
  "energyBalance (evaluateCooperation execs agents) =
     (\<Sum>e\<leftarrow>execs. reward (assignment e))
       - (\<Sum>e\<leftarrow>execs. sum_list (map snd (exec_energyCost e)))"
  by (simp add: energyBalance_fold fold_evalStep_energy)

text \<open>
  C4 as stated fails: for the successful \<^verbatim>\<open>collective_penalty\<close> execution above the
  shares sum to 0 and the cost is 1, so shares minus costs is \<open>-1\<close>, while the balance
  returned is \<open>4 - 1 = 3\<close>.
\<close>

theorem energyBalance_shares_counterexample:
  "energyBalance (evaluateCooperation [penaltyExecution] [mkAgent ''agent_1'' []]) = 3
   \<and> (\<Sum>e\<leftarrow>[penaltyExecution]. sum_list (map snd (rewards e)))
       - (\<Sum>e\<leftarrow>[penaltyExecution]. sum_list (map snd (exec_energyCost e))) = - 1"
  by (simp add: energyBalance_fold evalStep_energy penaltyExecution_def mkTask_def mkAgent_def
      computeShare_def computeEnergyCost_def assignAll_def Let_def)

subsection \<open>The generator and the task planner\<close>


lemma rng_next_range: "0 \<le> fst (rng_next g) \<and> fst (rng_next g) < 1"
proof -
  define w where "w = rng_output (g + 0x6d2b79f5)"
  have "unat w < 4294967296" using unsigned_less [of w, where ?'a = nat] by simp
  then have "real (unat w) < real 4294967296" by (simp only: of_nat_less_iff)
  then have "real (unat w) < 4294967296" by (simp only: of_nat_numeral)
  moreover have "0 \<le> real (unat w)" by (rule of_nat_0_le_iff)
  ultimately show ?thesis
    by (simp add: rng_next_def Let_def w_def)
qed

lemma shuffle_index: "0 \<le> (u::real) \<Longrightarrow> u < 1 \<Longrightarrow> nat \<lfloor>u * real (Suc k + 1)\<rfloor> \<le> Suc k"
proof -
  assume u: "0 \<le> u" "u < 1"
  have "u * real (Suc k + 1) < real (Suc k + 1)"
    using u by (simp add: mult_less_cancel_right1)
  then have "\<lfloor>u * real (Suc k + 1)\<rfloor> < int (Suc k + 1)"
    by (simp add: floor_less_iff)
  then show ?thesis by linarith
qed

lemma shuffleFrom_set_length:
  "k < length xs \<or> xs = [] \<Longrightarrow>
     set (fst (shuffleFrom k xs g)) = set xs \<and> length (fst (shuffleFrom k xs g)) = length xs"
proof (induction k arbitrary: xs g)
  case 0
  then show ?case by simp
next
  case (Suc k)
  obtain u g' where ug: "rng_next g = (u, g')" by (cases "rng_next g")
  have u: "0 \<le> u" "u < 1" using rng_next_range [of g] ug by simp_all
  show ?case
  proof (cases "xs = []")
    case True
    then show ?thesis using Suc.IH [of "[]" g'] by (simp add: ug)
  next
    case False
    with Suc.prems have i: "Suc k < length xs" by simp
    let ?j = "nat \<lfloor>u * real (Suc k + 1)\<rfloor>"
    have j: "?j < length xs" using shuffle_index [OF u, of k] i by linarith
    let ?ys = "xs[Suc k := xs ! ?j, ?j := xs ! Suc k]"
    have "set ?ys = set xs" "length ?ys = length xs"
      using i j by (simp_all add: set_swap)
    moreover have "k < length ?ys \<or> ?ys = []" using i by simp
    ultimately show ?thesis
      using Suc.IH [of ?ys g'] by (simp add: ug Let_def)
  qed
qed

lemma shuffle_set: "set (fst (shuffle xs g)) = set xs"
  using shuffleFrom_set_length [of "length xs - 1" xs g]
  by (cases xs) (simp_all add: shuffle_def)

lemma set_setAdd: "set (setAdd x xs) = insert x (set xs)"
  by (auto simp: setAdd_def)

lemma set_fold_setAdd: "set (fold setAdd ys xs) = set ys \<union> set xs"
  by (induction ys arbitrary: xs) (auto simp: set_setAdd)

lemma set_newSet: "set (newSet xs) = set xs"
  by (simp add: newSet_def set_fold_setAdd)

lemma selectStep_inv:
  "selectInv task pool avail0 st \<Longrightarrow> a \<in> set pool \<Longrightarrow> selectInv task pool avail0 (selectStep task need a st)"
  by (cases st) (auto simp: selectInv_def selectStep_def setDelete_def Let_def)

lemma fold_selectStep_inv:
  "selectInv task pool avail0 st \<Longrightarrow> set xs \<subseteq> set pool \<Longrightarrow>
     selectInv task pool avail0 (fold (selectStep task need) xs st)"
  by (induction xs arbitrary: st) (simp_all add: selectStep_inv)

lemma selectParticipants_inv:
  "selectInv task shuffled avail (selectParticipants task need shuffled avail)"
  unfolding selectParticipants_def
  by (rule fold_selectStep_inv) (simp_all add: selectInv_def)

text \<open>The body of \<^verbatim>\<open>tasks.forEach\<close> on a task that is skipped.\<close>

lemma processTask_skip_frame:
  assumes "min (recommendedParticipants task) (real (length avail)) < minParticipants task
           \<or> real (length (fst (selectParticipants task
                  (min (recommendedParticipants task) (real (length avail))) shuffled avail)))
               < minParticipants task"
  shows "\<exists>avail'. processTask cfg res shuffled task (avail, execs, g) = (avail', execs, g)
           \<and> set avail' = set avail"
proof (cases "min (recommendedParticipants task) (real (length avail)) < minParticipants task")
  case True
  then show ?thesis by (simp add: processTask_def Let_def)
next
  case False
  let ?need = "min (recommendedParticipants task) (real (length avail))"
  obtain ps avail1 where sel: "selectParticipants task ?need shuffled avail = (ps, avail1)"
    by (cases "selectParticipants task ?need shuffled avail")
  from assms False sel have few: "real (length ps) < minParticipants task" by simp
  have inv: "selectInv task shuffled avail (ps, avail1)"
    using selectParticipants_inv [of task shuffled avail ?need] sel by simp
  then have "set (fold setAdd (map agent_id ps) avail1) = set avail"
    by (auto simp: selectInv_def set_fold_setAdd)
  moreover have "processTask cfg res shuffled task (avail, execs, g)
                   = (fold setAdd (map agent_id ps) avail1, execs, g)"
    using False few sel by (simp add: processTask_def Let_def)
  ultimately show ?thesis by simp
qed

lemma executeTask_taskId [simp]:
  "taskId (assignment (fst (executeTask cfg res task ps g))) = task_id task"
  by (simp add: executeTask_def Let_def split: prod.splits)

lemma executeTask_participants [simp]:
  "participants (assignment (fst (executeTask cfg res task ps g))) = map agent_id ps"
  by (simp add: executeTask_def Let_def split: prod.splits)

lemma executeTask_notes [simp]: "loopNotes (fst (executeTask cfg res task ps g))"
  by (simp add: executeTask_def Let_def loopNotes_def split: prod.splits)

lemma executeTask_rewards:
  "rewards (fst (executeTask cfg res task ps g)) =
     computeShare task ps (reward (assignment (fst (executeTask cfg res task ps g))))"
  by (simp add: executeTask_def Let_def split: prod.splits)

lemma executeTask_outcome:
  "outcome (assignment (fst (executeTask cfg res task ps g))) = Success \<longleftrightarrow>
     fst (rng_next g) < exec_successProbability (fst (executeTask cfg res task ps g))"
  by (simp add: executeTask_def Let_def split: prod.splits)

lemma executeTask_reward:
  "reward (assignment (fst (executeTask cfg res task ps g))) =
     (if outcome (assignment (fst (executeTask cfg res task ps g))) = Success
      then (case yieldPerParticipant task of
              Some y \<Rightarrow> y
            | None \<Rightarrow> (case yieldPerParticipantOnSuccess task of Some z \<Rightarrow> z | None \<Rightarrow> 0)) *
           (case yieldPerParticipant task of
              Some y \<Rightarrow> (if y \<noteq> 0 then real (length ps) else 1)
            | None \<Rightarrow> 1)
      else 0)"
  by (simp add: executeTask_def Let_def split: prod.splits)

lemma processTask_gated:
  assumes "\<forall>e \<in> set execs. gated tsks pool e \<and> loopNotes e" and "task \<in> set tsks"
  shows "\<forall>e \<in> set (fst (snd (processTask cfg res pool task (avail, execs, g)))).
           gated tsks pool e \<and> loopNotes e"
proof -
  let ?need = "min (recommendedParticipants task) (real (length avail))"
  obtain ps avail1 where sel: "selectParticipants task ?need pool avail = (ps, avail1)"
    by (cases "selectParticipants task ?need pool avail")
  have inv: "selectInv task pool avail (ps, avail1)"
    using selectParticipants_inv [of task pool avail ?need] sel by simp
  obtain e g2 where ex: "executeTask cfg res task ps g = (e, g2)"
    by (cases "executeTask cfg res task ps g")
  have e: "taskId (assignment e) = task_id task" "participants (assignment e) = map agent_id ps"
    "loopNotes e"
    using executeTask_taskId [of cfg res task ps g] executeTask_participants [of cfg res task ps g]
      executeTask_notes [of cfg res task ps g] by (simp_all add: ex)
  have new: "gated tsks pool e"
    unfolding gated_def using inv assms(2) e
    by (intro bexI [of _ task]) (auto simp: selectInv_def)
  show ?thesis
    using assms(1) sel new e(3) ex
    by (simp add: processTask_def Let_def)
qed

lemma taskLoop_gated:
  assumes "\<forall>e \<in> set execs. gated tsks pool e \<and> loopNotes e" and "set ts \<subseteq> set tsks"
  shows "\<forall>e \<in> set (fst (snd (fold (processTask cfg res pool) ts (avail, execs, g)))).
           gated tsks pool e \<and> loopNotes e"
  using assms
proof (induction ts arbitrary: avail execs g)
  case Nil
  then show ?case by simp
next
  case (Cons t ts)
  obtain avail' execs' g' where st: "processTask cfg res pool t (avail, execs, g) = (avail', execs', g')"
    by (cases "processTask cfg res pool t (avail, execs, g)")
  from Cons.prems have t: "t \<in> set tsks" and ts: "set ts \<subseteq> set tsks" by simp_all
  have "\<forall>e \<in> set execs'. gated tsks pool e \<and> loopNotes e"
    using processTask_gated [OF Cons.prems(1) t, of cfg res avail g] by (simp only: st fst_conv snd_conv)
  from Cons.IH [OF this ts, of avail' g'] show ?case
    by (simp only: fold_simps st)
qed

lemma idleFallback_notes:
  "e \<in> set (idleFallback cfg tsks pool avail) \<Longrightarrow> \<not> loopNotes e"
  by (auto simp: idleFallback_def loopNotes_def Let_def split: if_splits option.splits)

lemma gated_pool_set: "set pool = set pool' \<Longrightarrow> gated tsks pool e = gated tsks pool' e"
  by (simp add: gated_def)

text \<open>
  C6 (as amended). Every execution that \<^verbatim>\<open>assignTasks\<close> returns, other than the idle
  fallback's \<^verbatim>\<open>camp_maintenance\<close> execution, was pushed for a task of the sequence, and
  when that task is a hunting task each of its participants is an agent whose hunting
  skill (0.5 when the skill is absent) is at least 0.3.
\<close>

theorem assignTasks_hunting_gate:
  assumes "e \<in> set (fst (assignTasks cfg g agents res (Some tsks)))"
    and "asg_notes (assignment e) \<noteq> ''fallback maintenance duty''"
  shows "\<exists>t \<in> set tsks. taskId (assignment e) = task_id t \<and>
           (category t = Hunting \<longrightarrow>
              (\<forall>p \<in> set (participants (assignment e)).
                 \<exists>a \<in> set agents. agent_id a = p \<and> 0.3 \<le> skillOr a ''hunting''))"
proof -
  obtain shuffled g1 where sh: "shuffle agents g = (shuffled, g1)" by (cases "shuffle agents g")
  have pool: "set shuffled = set agents" using shuffle_set [of agents g] sh by simp
  let ?st = "fold (processTask cfg res shuffled) tsks (newSet (map agent_id shuffled), [], g1)"
  have loop: "\<forall>e \<in> set (fst (snd ?st)). gated tsks shuffled e \<and> loopNotes e"
    by (rule taskLoop_gated) simp_all
  from assms(1) have "e \<in> set (fst (snd ?st)) \<or> e \<in> set (idleFallback cfg tsks shuffled (fst ?st))"
    by (auto simp: assignTasks_def sh taskLoop_def Let_def split: prod.splits)
  with assms(2) idleFallback_notes [of e cfg tsks shuffled "fst ?st"]
  have "e \<in> set (fst (snd ?st))" by (auto simp: loopNotes_def)
  with loop have "gated tsks shuffled e" by blast
  then have "gated tsks agents e" using gated_pool_set [OF pool] by simp
  then show ?thesis by (simp add: gated_def)
qed

lemma processTask_staffed:
  assumes "\<forall>e \<in> set execs. staffed tsks e \<and> loopNotes e" and "task \<in> set tsks"
  shows "\<forall>e \<in> set (fst (snd (processTask cfg res pool task (avail, execs, g)))).
           staffed tsks e \<and> loopNotes e"
proof -
  let ?need = "min (recommendedParticipants task) (real (length avail))"
  obtain ps avail1 where sel: "selectParticipants task ?need pool avail = (ps, avail1)"
    by (cases "selectParticipants task ?need pool avail")
  obtain e g2 where ex: "executeTask cfg res task ps g = (e, g2)"
    by (cases "executeTask cfg res task ps g")
  have e: "taskId (assignment e) = task_id task" "participants (assignment e) = map agent_id ps"
    "loopNotes e"
    using executeTask_taskId [of cfg res task ps g] executeTask_participants [of cfg res task ps g]
      executeTask_notes [of cfg res task ps g] by (simp_all add: ex)
  have new: "\<not> real (length ps) < minParticipants task \<Longrightarrow> staffed tsks e"
    unfolding staffed_def using assms(2) e by (intro bexI [of _ task]) simp_all
  show ?thesis
    using assms(1) sel new e(3) ex
    by (simp add: processTask_def Let_def)
qed

lemma taskLoop_staffed:
  assumes "\<forall>e \<in> set execs. staffed tsks e \<and> loopNotes e" and "set ts \<subseteq> set tsks"
  shows "\<forall>e \<in> set (fst (snd (fold (processTask cfg res pool) ts (avail, execs, g)))).
           staffed tsks e \<and> loopNotes e"
  using assms
proof (induction ts arbitrary: avail execs g)
  case Nil
  then show ?case by simp
next
  case (Cons t ts)
  obtain avail' execs' g' where st: "processTask cfg res pool t (avail, execs, g) = (avail', execs', g')"
    by (cases "processTask cfg res pool t (avail, execs, g)")
  from Cons.prems have t: "t \<in> set tsks" and ts: "set ts \<subseteq> set tsks" by simp_all
  have "\<forall>e \<in> set execs'. staffed tsks e \<and> loopNotes e"
    using processTask_staffed [OF Cons.prems(1) t, of cfg res pool avail g]
    by (simp only: st fst_conv snd_conv)
  from Cons.IH [OF this ts, of avail' g'] show ?case
    by (simp only: fold_simps st)
qed

lemma assignTasks_staffed:
  assumes "e \<in> set (fst (assignTasks cfg g agents res (Some tsks)))"
    and "asg_notes (assignment e) \<noteq> ''fallback maintenance duty''"
  shows "staffed tsks e"
proof -
  obtain shuffled g1 where sh: "shuffle agents g = (shuffled, g1)" by (cases "shuffle agents g")
  let ?st = "fold (processTask cfg res shuffled) tsks (newSet (map agent_id shuffled), [], g1)"
  have loop: "\<forall>e \<in> set (fst (snd ?st)). staffed tsks e \<and> loopNotes e"
    by (rule taskLoop_staffed) simp_all
  from assms(1) have "e \<in> set (fst (snd ?st)) \<or> e \<in> set (idleFallback cfg tsks shuffled (fst ?st))"
    by (auto simp: assignTasks_def sh taskLoop_def Let_def split: prod.splits)
  with assms(2) idleFallback_notes [of e cfg tsks shuffled "fst ?st"]
  have "e \<in> set (fst (snd ?st))" by (auto simp: loopNotes_def)
  with loop show ?thesis by blast
qed

text \<open>
  C7 (as amended). When \<^verbatim>\<open>min(recommendedParticipants, |available|) < minParticipants\<close>, or
  when the selection loop finds fewer than \<^verbatim>\<open>minParticipants\<close> eligible agents, the loop
  body pushes no execution, draws no random number, and leaves the same set of available
  agents (the agents taken tentatively are added back). Every execution that
  \<^verbatim>\<open>assignTasks\<close> returns, other than the idle fallback's, belongs to a task of the
  sequence and has at least that task's \<^verbatim>\<open>minParticipants\<close> participants.
\<close>

theorem skipped_task_frame:
  "(min (recommendedParticipants task) (real (length avail)) < minParticipants task
      \<or> real (length (fst (selectParticipants task
                (min (recommendedParticipants task) (real (length avail))) shuffled avail)))
           < minParticipants task \<longrightarrow>
      (\<exists>avail'. processTask cfg res shuffled task (avail, execs, g) = (avail', execs, g)
           \<and> set avail' = set avail)) \<and>
   (e \<in> set (fst (assignTasks cfg g0 agents res (Some tsks))) \<and>
    asg_notes (assignment e) \<noteq> ''fallback maintenance duty'' \<longrightarrow>
      (\<exists>t \<in> set tsks. taskId (assignment e) = task_id t \<and>
         minParticipants t \<le> real (length (participants (assignment e)))))"
  using processTask_skip_frame [of task avail shuffled cfg res execs g]
    assignTasks_staffed [of e cfg g0 agents res tsks]
  unfolding staffed_def by blast

lemma map_of_fold_update_const:
  "map_of (fold (\<lambda>a. AList.update (agent_id a) (c::real)) agents al) k =
     (if k \<in> agent_id ` set agents then Some c else map_of al k)"
  by (induction agents arbitrary: al) (auto simp: update_conv')

lemma map_of_assignAll_const:
  "a \<in> set agents \<Longrightarrow> map_of (assignAll (\<lambda>_. c) agents) (agent_id a) = Some c"
  by (simp add: assignAll_def map_of_fold_update_const)

lemma computeShare_equal:
  assumes "task_norm task = EqualShare" "agents \<noteq> []" "0 \<le> T" "a \<in> set agents"
  shows "map_of (computeShare task agents T) (agent_id a) = Some (T / real (length agents))"
proof (cases "T = 0")
  case True
  then show ?thesis using assms by (simp add: computeShare_def map_of_assignAll_const)
next
  case False
  with assms have "0 < T" by simp
  then show ?thesis using assms by (simp add: computeShare_def Let_def map_of_assignAll_const)
qed

lemma shuffle_two:
  "fst (shuffle [a, b] g) = [a, b] \<or> fst (shuffle [a, b] g) = [b, a]"
proof -
  obtain u g' where ug: "rng_next g = (u, g')" by (cases "rng_next g")
  have u: "0 \<le> u" "u < 1" using rng_next_range [of g] ug by simp_all
  have "nat \<lfloor>u * real (Suc 0 + 1)\<rfloor> \<le> Suc 0" using shuffle_index [OF u, of 0] .
  then consider "nat \<lfloor>u * real (Suc 0 + 1)\<rfloor> = 0" | "nat \<lfloor>u * real (Suc 0 + 1)\<rfloor> = Suc 0"
    by linarith
  then show ?thesis
  proof cases
    case 1
    then show ?thesis using shuffleFrom.simps(2) [of 0 "[a, b]" g]
      by (simp add: shuffle_def ug Let_def)
  next
    case 2
    then show ?thesis using shuffleFrom.simps(2) [of 0 "[a, b]" g]
      by (simp add: shuffle_def ug Let_def)
  qed
qed


lemma newSet_two: "x \<noteq> y \<Longrightarrow> newSet [x, y] = [x, y]"
  by (simp add: newSet_def setAdd_def)

lemma two_agents_loop:
  assumes "agent_id x \<noteq> agent_id y" "category t = Foraging"
    "minParticipants t \<le> 2" "2 \<le> recommendedParticipants t"
  shows "taskLoop cfg res [x, y] [t] ([agent_id x, agent_id y], [], g) =
           ([], [fst (executeTask cfg res t [x, y] g)], snd (executeTask cfg res t [x, y] g))"
proof -
  have need: "min (recommendedParticipants t) 2 = 2" using assms(4) by simp
  have sel: "selectParticipants t 2 [x, y] [agent_id x, agent_id y] = ([x, y], [])"
    using assms(1,2) by (simp add: selectParticipants_def selectStep_def setDelete_def)
  show ?thesis
    using assms(3) by (simp add: taskLoop_def processTask_def need sel split_beta)
qed

lemma two_agents_assign:
  assumes "agent_id x \<noteq> agent_id y" "category t = Foraging"
    "minParticipants t \<le> 2" "2 \<le> recommendedParticipants t"
    "shuffle agents g = ([x, y], g1)"
  shows "fst (assignTasks cfg g agents res (Some [t])) = [fst (executeTask cfg res t [x, y] g1)]"
  using assms(1) two_agents_loop [OF assms(1-4), of cfg res g1]
  by (simp add: assignTasks_def assms(5) newSet_two idleFallback_def)

lemma two_agents_exec:
  fixes cfg res t x y g
  defines "e \<equiv> fst (executeTask cfg res t [x, y] g)"
  assumes "agent_id x \<noteq> agent_id y" "task_norm t = EqualShare" "yieldPerParticipant t = Some 4"
  shows "set (participants (assignment e)) = {agent_id x, agent_id y} \<and>
         cooperationRate (evaluateCooperation [e] ags) = 1 \<and>
         (outcome (assignment e) = Success \<longrightarrow> shareOf e (agent_id x) = 4 \<and> shareOf e (agent_id y) = 4) \<and>
         (exec_successProbability e = 1 \<longrightarrow> outcome (assignment e) = Success)"
proof (intro conjI)
  show "set (participants (assignment e)) = {agent_id x, agent_id y}"
    by (simp add: e_def)
  show "cooperationRate (evaluateCooperation [e] ags) = 1"
    by (simp add: e_def evaluateCooperation_def Let_def split_beta)
  show "outcome (assignment e) = Success \<longrightarrow> shareOf e (agent_id x) = 4 \<and> shareOf e (agent_id y) = 4"
  proof
    assume ok: "outcome (assignment e) = Success"
    have rw: "reward (assignment e) = 8"
      using executeTask_reward [of cfg res t "[x, y]" g] ok assms(4) by (simp add: e_def)
    have "rewards e = computeShare t [x, y] 8"
      using executeTask_rewards [of cfg res t "[x, y]" g] rw by (simp add: e_def)
    then show "shareOf e (agent_id x) = 4 \<and> shareOf e (agent_id y) = 4"
      using computeShare_equal [OF assms(3), of "[x, y]" 8 x]
        computeShare_equal [OF assms(3), of "[x, y]" 8 y]
      by (simp add: shareOf_def)
  qed
  show "exec_successProbability e = 1 \<longrightarrow> outcome (assignment e) = Success"
    using executeTask_outcome [of cfg res t "[x, y]" g] rng_next_range [of g]
    by (simp add: e_def)
qed

lemma executeTask_sp:
  "exec_successProbability (fst (executeTask cfg res task ps g))
     = computeSuccessProbability task ps (resourceByTask res (category task))"
  by (simp add: executeTask_def Let_def split: prod.splits)

lemma foraging_certain:
  assumes "category t = Foraging" "successProbability t = 1" "0 < pl"
    "0.5 \<le> skillOr x ''gathering''" "0.5 \<le> skillOr y ''gathering''"
  shows "computeSuccessProbability t [x, y] (resourceByTask (pl, sg, lg) (category t)) = 1"
proof -
  have l: "0 \<le> ln (1 + pl)" using assms(3) by (simp add: ln_ge_zero)
  have m: "0 \<le> max (real (length [x, y]) - minParticipants t) 0" by simp
  define b where "b = 0.05 * max (real (length [x, y]) - minParticipants t) 0
      + 0.1 * ((skillOr x ''gathering'' + skillOr y ''gathering'') / 2 - 0.5) + 0.05 * ln (1 + pl)"
  have b: "0 \<le> b" unfolding b_def using l m assms(4,5) by simp
  have "computeSuccessProbability t [x, y] (resourceByTask (pl, sg, lg) (category t)) = clamp01 (1 + b)"
    using assms(1,2,3) by (simp add: computeSuccessProbability_def skillKey_def resourceByTask_def b_def Let_def add.assoc)
  then show ?thesis using b by (simp add: clamp01_def)
qed

lemma two_agents_certain:
  fixes cfg t x y g pl sg lg
  defines "e \<equiv> fst (executeTask cfg (pl, sg, lg) t [x, y] g)"
  assumes "agent_id x \<noteq> agent_id y" "task_norm t = EqualShare" "yieldPerParticipant t = Some 4"
    "category t = Foraging" "successProbability t = 1" "0 < pl"
    "0.5 \<le> skillOr x ''gathering''" "0.5 \<le> skillOr y ''gathering''"
  shows "set (participants (assignment e)) = {agent_id x, agent_id y} \<and>
         outcome (assignment e) = Success \<and>
         shareOf e (agent_id x) = 4 \<and> shareOf e (agent_id y) = 4 \<and>
         cooperationRate (evaluateCooperation [e] ags) = 1"
proof -
  have sp: "exec_successProbability e = 1"
    unfolding e_def executeTask_sp using assms(5-9) by (rule foraging_certain)
  have q: "set (participants (assignment e)) = {agent_id x, agent_id y} \<and>
         cooperationRate (evaluateCooperation [e] ags) = 1 \<and>
         (outcome (assignment e) = Success \<longrightarrow> shareOf e (agent_id x) = 4 \<and> shareOf e (agent_id y) = 4) \<and>
         (exec_successProbability e = 1 \<longrightarrow> outcome (assignment e) = Success)"
    unfolding e_def using assms(2-4) by (rule two_agents_exec)
  with sp show ?thesis by blast
qed

text \<open>
  C5 (as amended). Under \<^verbatim>\<open>equal_share\<close>, for a non-empty participant list and a total
  reward \<open>T \<ge> 0\<close>, every participant's share is \<open>T / |P|\<close>. For two agents of different
  ids whose gathering skill (0.5 when absent) is at least 0.5, a positive stock of plants,
  and one foraging task of norm \<^verbatim>\<open>equal_share\<close> with \<^verbatim>\<open>yieldPerParticipant = 4\<close> and
  \<^verbatim>\<open>successProbability = 1\<close> that admits both
  (\<^verbatim>\<open>minParticipants \<le> 2 \<le> recommendedParticipants\<close>), \<^verbatim>\<open>assignTasks\<close> returns one
  execution with both agents, the task succeeds, both shares are 4, and the cooperation
  rate of the day is 1.
\<close>

theorem equal_share_fair:
  "(task_norm task = EqualShare \<and> agents \<noteq> [] \<and> 0 \<le> T \<and> a \<in> set agents \<longrightarrow>
      map_of (computeShare task agents T) (agent_id a) = Some (T / real (length agents))) \<and>
   (agent_id a1 \<noteq> agent_id a2 \<and> category t = Foraging \<and> task_norm t = EqualShare \<and>
    yieldPerParticipant t = Some 4 \<and> successProbability t = 1 \<and>
    minParticipants t \<le> 2 \<and> 2 \<le> recommendedParticipants t \<and> 0 < pl \<and>
    0.5 \<le> skillOr a1 ''gathering'' \<and> 0.5 \<le> skillOr a2 ''gathering'' \<longrightarrow>
      (\<exists>e. fst (assignTasks cfg g [a1, a2] (pl, sg, lg) (Some [t])) = [e] \<and>
           set (participants (assignment e)) = {agent_id a1, agent_id a2} \<and>
           outcome (assignment e) = Success \<and>
           shareOf e (agent_id a1) = 4 \<and> shareOf e (agent_id a2) = 4 \<and>
           cooperationRate (evaluateCooperation [e] [a1, a2]) = 1))"
proof (intro conjI impI)
  assume "task_norm task = EqualShare \<and> agents \<noteq> [] \<and> 0 \<le> T \<and> a \<in> set agents"
  then show "map_of (computeShare task agents T) (agent_id a) = Some (T / real (length agents))"
    using computeShare_equal by blast
next
  assume h: "agent_id a1 \<noteq> agent_id a2 \<and> category t = Foraging \<and> task_norm t = EqualShare \<and>
    yieldPerParticipant t = Some 4 \<and> successProbability t = 1 \<and>
    minParticipants t \<le> 2 \<and> 2 \<le> recommendedParticipants t \<and> 0 < pl \<and>
    0.5 \<le> skillOr a1 ''gathering'' \<and> 0.5 \<le> skillOr a2 ''gathering''"
  obtain sh g1 where sh: "shuffle [a1, a2] g = (sh, g1)" by (cases "shuffle [a1, a2] g")
  from shuffle_two [of a1 a2 g] sh consider "sh = [a1, a2]" | "sh = [a2, a1]" by auto
  then show "\<exists>e. fst (assignTasks cfg g [a1, a2] (pl, sg, lg) (Some [t])) = [e] \<and>
           set (participants (assignment e)) = {agent_id a1, agent_id a2} \<and>
           outcome (assignment e) = Success \<and>
           shareOf e (agent_id a1) = 4 \<and> shareOf e (agent_id a2) = 4 \<and>
           cooperationRate (evaluateCooperation [e] [a1, a2]) = 1"
  proof cases
    case 1
    have d: "agent_id a1 \<noteq> agent_id a2" using h by simp
    have a: "fst (assignTasks cfg g [a1, a2] (pl, sg, lg) (Some [t]))
               = [fst (executeTask cfg (pl, sg, lg) t [a1, a2] g1)]"
      using two_agents_assign [OF d, of t "[a1, a2]" g g1 cfg "(pl, sg, lg)"] h sh 1 by simp
    show ?thesis
      unfolding a
      using two_agents_certain [OF d, of t pl cfg sg lg g1 "[a1, a2]"] h by simp
  next
    case 2
    have d: "agent_id a2 \<noteq> agent_id a1" using h by auto
    have a: "fst (assignTasks cfg g [a1, a2] (pl, sg, lg) (Some [t]))
               = [fst (executeTask cfg (pl, sg, lg) t [a2, a1] g1)]"
      using two_agents_assign [OF d, of t "[a1, a2]" g g1 cfg "(pl, sg, lg)"] h sh 2 by simp
    show ?thesis
      unfolding a
      using two_agents_certain [OF d, of t pl cfg sg lg g1 "[a1, a2]"] h by (simp add: insert_commute)
  qed
qed

subsection \<open>The LLM decision core\<close>

lemma tryAdapters_heuristicOnly: "heuristicOnly env \<Longrightarrow> tryAdapters (adapters env) = None"
  by (auto simp: heuristicOnly_def adapters_def)

lemma plan_heuristic: "heuristicOnly env \<Longrightarrow> plan host env request = heuristicPlan host request"
  by (simp add: plan_def tryAdapters_heuristicOnly)

text \<open>
  C8. When no adapter is enabled, or every enabled adapter fails, \<^verbatim>\<open>plan\<close> returns (it
  throws nothing: the failures are caught) the heuristic response: provider
  \<^verbatim>\<open>heuristic\<close>, and one item per pending task, in order, each with rationale
  \<^verbatim>\<open>heuristic_allocation\<close>, or the single \<^verbatim>\<open>idle_day\<close> item when there is no pending task.
\<close>

theorem plan_heuristic_fallback:
  "heuristicOnly env \<Longrightarrow>
     provider (plan host env request) = ''heuristic'' \<and>
     (pendingTasks request \<noteq> [] \<longrightarrow>
        length (plans (plan host env request)) = length (pendingTasks request) \<and>
        map plan_agentId (plans (plan host env request)) = map task_id (pendingTasks request) \<and>
        (\<forall>item \<in> set (plans (plan host env request)). rationale item = ''heuristic_allocation'')) \<and>
     (pendingTasks request = [] \<longrightarrow>
        plans (plan host env request) =
          [\<lparr> plan_agentId = ''none'', intent = ''rest and monitor resources'', rationale = ''idle_day'' \<rparr>])"
  by (auto simp: plan_heuristic heuristicPlan_def Let_def comp_def)

theorem plan_heuristic_fallback_witness:
  "heuristicOnly noAdapters \<and>
   provider (plan demoHost noAdapters demoRequest) = ''heuristic'' \<and>
   length (pendingTasks demoRequest) = 2 \<and>
   length (plans (plan demoHost noAdapters demoRequest)) = 2 \<and>
   map plan_agentId (plans (plan demoHost noAdapters demoRequest)) = [''foraging'', ''hunt'']"
proof -
  have h: "heuristicOnly noAdapters" by (simp add: heuristicOnly_def noAdapters_def)
  have p: "pendingTasks demoRequest = [forageTask, huntTask]" by (simp add: demoRequest_def)
  show ?thesis
    using plan_heuristic_fallback [OF h, of demoHost demoRequest] h
    by (simp add: p forageTask_def huntTask_def mkTask_def)
qed

subsection \<open>Witnesses and counterexamples of the planner\<close>

text \<open>
  C6 as stated fails: with one agent of hunting skill 0.1 and a task
  \<^verbatim>\<open>camp_maintenance\<close> of category \<^verbatim>\<open>hunting\<close>, the loop rejects the agent and skips the
  task, and the idle fallback then assigns the agent to that hunting task.
\<close>

theorem hunting_gate_fallback_counterexample:
  "map (\<lambda>e. (taskId (assignment e), participants (assignment e)))
     (fst (assignTasks (demoConfig [campHunt] 1 7) 0 [lowHunter] (10, 5, 2) (Some [campHunt])))
     = [(''camp_maintenance'', [''agent_1''])] \<and>
   category campHunt = Hunting \<and> agent_id lowHunter = ''agent_1'' \<and>
   skillOr lowHunter ''hunting'' < 0.3"
  by (simp add: assignTasks_def shuffle_def newSet_def setAdd_def taskLoop_def processTask_def
      selectParticipants_def selectStep_def idleFallback_def campHunt_def mkTask_def
      lowHunter_def mkAgent_def skillOr_def Let_def)

lemma solo_hunt_assign:
  "fst (assignTasks (demoConfig [soloHunt] 1 7) 0 [goodHunter] (10, 5, 2) (Some [soloHunt]))
     = [fst (executeTask (demoConfig [soloHunt] 1 7) (10, 5, 2) soloHunt [goodHunter] 0)]"
  by (simp add: assignTasks_def shuffle_def newSet_def setAdd_def setDelete_def taskLoop_def
      processTask_def selectParticipants_def selectStep_def idleFallback_def soloHunt_def
      mkTask_def goodHunter_def mkAgent_def skillOr_def Let_def split_beta)

theorem assignTasks_hunting_gate_witness:
  "fst (executeTask (demoConfig [soloHunt] 1 7) (10, 5, 2) soloHunt [goodHunter] 0)
     \<in> set (fst (assignTasks (demoConfig [soloHunt] 1 7) 0 [goodHunter] (10, 5, 2) (Some [soloHunt]))) \<and>
   asg_notes (assignment (fst (executeTask (demoConfig [soloHunt] 1 7) (10, 5, 2) soloHunt [goodHunter] 0)))
     \<noteq> ''fallback maintenance duty'' \<and>
   (\<exists>t \<in> set [soloHunt].
      taskId (assignment (fst (executeTask (demoConfig [soloHunt] 1 7) (10, 5, 2) soloHunt [goodHunter] 0)))
        = task_id t \<and>
      (category t = Hunting \<longrightarrow>
         (\<forall>p \<in> set (participants (assignment
                     (fst (executeTask (demoConfig [soloHunt] 1 7) (10, 5, 2) soloHunt [goodHunter] 0)))).
            \<exists>a \<in> set [goodHunter]. agent_id a = p \<and> 0.3 \<le> skillOr a ''hunting'')))"
proof -
  let ?e = "fst (executeTask (demoConfig [soloHunt] 1 7) (10, 5, 2) soloHunt [goodHunter] 0)"
  have m: "?e \<in> set (fst (assignTasks (demoConfig [soloHunt] 1 7) 0 [goodHunter] (10, 5, 2) (Some [soloHunt])))"
    by (simp add: solo_hunt_assign)
  have n: "asg_notes (assignment ?e) \<noteq> ''fallback maintenance duty''"
    using executeTask_notes [of "demoConfig [soloHunt] 1 7" "(10, 5, 2)" soloHunt "[goodHunter]" 0]
    by (simp add: loopNotes_def)
  from assignTasks_hunting_gate [OF m n] m n show ?thesis by blast
qed

text \<open>
  C7 as stated fails: a task with id \<^verbatim>\<open>camp_maintenance\<close> that needs two participants is
  skipped by the loop when one agent is available, and the idle fallback then produces an
  execution of that very task with the one agent.
\<close>

theorem skipped_task_fallback_counterexample:
  "min (recommendedParticipants campPair) (real (length [agent_id gatherer1])) < minParticipants campPair \<and>
   map (\<lambda>e. (taskId (assignment e), participants (assignment e)))
     (fst (assignTasks (demoConfig [campPair] 1 7) 0 [gatherer1] (10, 5, 2) (Some [campPair])))
     = [(task_id campPair, [''agent_1''])]"
  by (simp add: assignTasks_def shuffle_def newSet_def setAdd_def taskLoop_def processTask_def
      idleFallback_def campPair_def mkTask_def gatherer1_def mkAgent_def Let_def)

theorem skipped_task_frame_witness:
  "real (length (fst (selectParticipants huntTask
          (min (recommendedParticipants huntTask) (real (length [''agent_1'', ''agent_2''])))
          [lowHunter, goodHunter] [''agent_1'', ''agent_2''])))
     < minParticipants huntTask \<and>
   (\<exists>avail'. processTask (demoConfig [huntTask] 2 7) (10, 5, 2) [lowHunter, goodHunter] huntTask
                ([''agent_1'', ''agent_2''], [], 0) = (avail', [], 0)
            \<and> set avail' = set [''agent_1'', ''agent_2'']) \<and>
   fst (executeTask (demoConfig [soloHunt] 1 7) (10, 5, 2) soloHunt [goodHunter] 0)
     \<in> set (fst (assignTasks (demoConfig [soloHunt] 1 7) 0 [goodHunter] (10, 5, 2) (Some [soloHunt]))) \<and>
   asg_notes (assignment (fst (executeTask (demoConfig [soloHunt] 1 7) (10, 5, 2) soloHunt [goodHunter] 0)))
     \<noteq> ''fallback maintenance duty'' \<and>
   (\<exists>t \<in> set [soloHunt].
      taskId (assignment (fst (executeTask (demoConfig [soloHunt] 1 7) (10, 5, 2) soloHunt [goodHunter] 0)))
        = task_id t \<and>
      minParticipants t \<le> real (length (participants (assignment
          (fst (executeTask (demoConfig [soloHunt] 1 7) (10, 5, 2) soloHunt [goodHunter] 0))))))"
proof -
  let ?e = "fst (executeTask (demoConfig [soloHunt] 1 7) (10, 5, 2) soloHunt [goodHunter] 0)"
  have h: "real (length (fst (selectParticipants huntTask
          (min (recommendedParticipants huntTask) (real (length [''agent_1'', ''agent_2''])))
          [lowHunter, goodHunter] [''agent_1'', ''agent_2''])))
     < minParticipants huntTask"
    by (simp add: selectParticipants_def selectStep_def setDelete_def huntTask_def mkTask_def
        lowHunter_def goodHunter_def mkAgent_def skillOr_def)
  have m: "?e \<in> set (fst (assignTasks (demoConfig [soloHunt] 1 7) 0 [goodHunter] (10, 5, 2) (Some [soloHunt])))"
    by (simp add: solo_hunt_assign)
  have n: "asg_notes (assignment ?e) \<noteq> ''fallback maintenance duty''"
    using executeTask_notes [of "demoConfig [soloHunt] 1 7" "(10, 5, 2)" soloHunt "[goodHunter]" 0]
    by (simp add: loopNotes_def)
  from skipped_task_frame [where task = huntTask and avail = "[''agent_1'', ''agent_2'']"
      and shuffled = "[lowHunter, goodHunter]" and cfg = "demoConfig [huntTask] 2 7"
      and res = "(10, 5, 2)" and execs = "[]" and g = 0 and e = ?e]
  have a: "\<exists>avail'. processTask (demoConfig [huntTask] 2 7) (10, 5, 2) [lowHunter, goodHunter] huntTask
                ([''agent_1'', ''agent_2''], [], 0) = (avail', [], 0)
            \<and> set avail' = set [''agent_1'', ''agent_2'']"
    using h by blast
  from skipped_task_frame [where cfg = "demoConfig [soloHunt] 1 7" and ?g0.0 = 0
      and agents = "[goodHunter]" and res = "(10, 5, 2)" and tsks = "[soloHunt]" and e = ?e]
  have b: "\<exists>t \<in> set [soloHunt]. taskId (assignment ?e) = task_id t \<and>
             minParticipants t \<le> real (length (participants (assignment ?e)))"
    using m n by blast
  from h a m n b show ?thesis by blast
qed


text \<open>
  C5 as stated fails for a negative total: \<^verbatim>\<open>computeShare\<close> returns the share 0 for every
  participant when \<^verbatim>\<open>totalReward <= 0\<close>, which is not \<open>T / |P|\<close> for \<open>T = -1\<close>.
\<close>

theorem equal_share_negative_counterexample:
  "task_norm forageTask = EqualShare \<and>
   map_of (computeShare forageTask [lowHunter] (- 1)) (agent_id lowHunter) = Some 0 \<and>
   (- 1) / real (length [lowHunter]) = - 1"
  by (simp add: computeShare_def assignAll_def forageTask_def mkTask_def lowHunter_def mkAgent_def)

theorem equal_share_fair_witness:
  "task_norm forageTask = EqualShare \<and> [gatherer1, gatherer2] \<noteq> [] \<and> (0::real) \<le> 8 \<and>
   gatherer1 \<in> set [gatherer1, gatherer2] \<and>
   map_of (computeShare forageTask [gatherer1, gatherer2] 8) (agent_id gatherer1) = Some 4 \<and>
   agent_id gatherer1 \<noteq> agent_id gatherer2 \<and> category forageTask = Foraging \<and>
   yieldPerParticipant forageTask = Some 4 \<and> successProbability forageTask = 1 \<and>
   minParticipants forageTask \<le> 2 \<and> 2 \<le> recommendedParticipants forageTask \<and> (0::real) < 10 \<and>
   0.5 \<le> skillOr gatherer1 ''gathering'' \<and> 0.5 \<le> skillOr gatherer2 ''gathering'' \<and>
   (\<exists>e. fst (assignTasks (demoConfig [forageTask] 2 7) 0 [gatherer1, gatherer2] (10, 5, 2)
              (Some [forageTask])) = [e] \<and>
        set (participants (assignment e)) = {agent_id gatherer1, agent_id gatherer2} \<and>
        outcome (assignment e) = Success \<and>
        shareOf e (agent_id gatherer1) = 4 \<and> shareOf e (agent_id gatherer2) = 4 \<and>
        cooperationRate (evaluateCooperation [e] [gatherer1, gatherer2]) = 1)"
proof -
  have h: "task_norm forageTask = EqualShare" "category forageTask = Foraging"
    "yieldPerParticipant forageTask = Some 4" "successProbability forageTask = 1"
    "minParticipants forageTask \<le> 2"
    "2 \<le> recommendedParticipants forageTask" "agent_id gatherer1 \<noteq> agent_id gatherer2"
    "0.5 \<le> skillOr gatherer1 ''gathering''" "0.5 \<le> skillOr gatherer2 ''gathering''"
    by (simp_all add: forageTask_def mkTask_def gatherer1_def gatherer2_def mkAgent_def skillOr_def)
  show ?thesis
    using equal_share_fair [where task = forageTask and agents = "[gatherer1, gatherer2]" and T = 8
        and a = gatherer1 and ?a1.0 = gatherer1 and ?a2.0 = gatherer2 and t = forageTask
        and cfg = "demoConfig [forageTask] 2 7" and g = 0 and pl = 10 and sg = 5 and lg = 2] h
    by simp
qed

subsection \<open>Determinism on the heuristic path\<close>

lemma stepDay_heuristic:
  assumes "heuristicOnly e1" "heuristicOnly e2"
  shows "stepDay host e1 sim = stepDay host e2 sim"
  unfolding stepDay_def plan_heuristic [OF assms(1)] plan_heuristic [OF assms(2)] ..

lemma stepDays_heuristic:
  "length es1 = length es2 \<Longrightarrow> list_all heuristicOnly es1 \<Longrightarrow> list_all heuristicOnly es2 \<Longrightarrow>
     stepDays host es1 sim = stepDays host es2 sim"
proof (induction es1 es2 arbitrary: sim rule: list_induct2)
  case Nil
  then show ?case by simp
next
  case (Cons e1 es1 e2 es2)
  then have "stepDay host e1 sim = stepDay host e2 sim"
    by (simp add: stepDay_heuristic)
  moreover have "\<And>s. stepDays host es1 s = stepDays host es2 s"
    using Cons by simp
  ultimately show ?case by (simp split: option.splits)
qed

text \<open>
  C1. Two runs of \<^verbatim>\<open>initialize(c, s)\<close> followed by \<open>k\<close> calls of \<^verbatim>\<open>stepDay\<close>, in process
  environments in which no adapter is enabled or every enabled adapter fails, yield the
  same sequence of snapshots (environment, agents, network, \<^verbatim>\<open>rngSeed\<close>,
  \<^verbatim>\<open>environmentRngSeed\<close>), whatever else the two environments hold; this includes that
  both runs fail to return, or throw, at the same step.
\<close>

theorem heuristic_runs_agree:
  "length envs1 = length envs2 \<Longrightarrow> list_all heuristicOnly envs1 \<Longrightarrow> list_all heuristicOnly envs2 \<Longrightarrow>
     runSimulation host cfg seed envs1 = runSimulation host cfg seed envs2"
  by (simp add: runSimulation_def stepDays_heuristic [of envs1 envs2] split: option.splits)

theorem heuristic_runs_agree_witness:
  "length [noAdapters, noAdapters] = length [failingOpenai, noAdapters] \<and>
   list_all heuristicOnly [noAdapters, noAdapters] \<and>
   list_all heuristicOnly [failingOpenai, noAdapters] \<and>
   runSimulation demoHost (demoConfig [forageTask] 3 7) 42 [noAdapters, noAdapters]
     = runSimulation demoHost (demoConfig [forageTask] 3 7) 42 [failingOpenai, noAdapters]"
proof -
  have h: "list_all heuristicOnly [noAdapters, noAdapters]"
    "list_all heuristicOnly [failingOpenai, noAdapters]"
    by (simp_all add: heuristicOnly_def noAdapters_def failingOpenai_def)
  have l: "length [noAdapters, noAdapters] = length [failingOpenai, noAdapters]" by simp
  from heuristic_runs_agree [OF l h] l h show ?thesis by blast
qed

subsection \<open>How far the generator advances\<close>

lemma rng_next_snd: "snd (rng_next g) = g + 0x6d2b79f5"
  by (simp add: rng_next_def Let_def)

lemma standardNormal_snd: "snd (standardNormal g) = g + 2 * 0x6d2b79f5"
  by (simp add: standardNormal_def Let_def split_beta rng_next_snd)

lemma sampleNormal_snd: "snd (sampleNormal m s g) = g + 2 * 0x6d2b79f5"
  by (simp add: sampleNormal_def split_beta standardNormal_snd)

lemma skillStep_snd: "snd (skillStep profile st) = snd st + 2 * 0x6d2b79f5"
  by (simp add: skillStep_def split_beta sampleNormal_snd)

lemma fold_sampleSkills_snd:
  "snd (fold skillStep profiles st) = snd st + of_nat (length profiles) * (2 * 0x6d2b79f5)"
  by (induction profiles arbitrary: st) (simp_all add: skillStep_snd algebra_simps)

lemma sampleSkills_snd:
  "snd (sampleSkills profiles g) = g + of_nat (length profiles) * (2 * 0x6d2b79f5)"
  by (simp add: sampleSkills_def fold_sampleSkills_snd)

lemma initializeAgent_snd:
  "snd (initializeAgent cfg i g) = g + of_nat (length (skillProfiles cfg) + 9) * (2 * 0x6d2b79f5)"
  by (simp add: initializeAgent_def split_beta sampleNormal_snd sampleSkills_snd algebra_simps)

lemma initializeAgentsFrom_snd:
  "snd (initializeAgentsFrom cfg i n g)
     = g + of_nat (n * (length (skillProfiles cfg) + 9)) * (2 * 0x6d2b79f5)"
  by (induction n arbitrary: i g) (simp_all add: split_beta initializeAgent_snd algebra_simps)

lemma initialize_rng:
  "initialize cfg seed = Some sim \<Longrightarrow>
     sim_rng sim = seededRandom seed
       + of_nat (nat \<lceil>populationSize cfg\<rceil> * (length (skillProfiles cfg) + 9)) * (2 * 0x6d2b79f5)"
  using initializeAgentsFrom_snd [of cfg 0 "nat \<lceil>populationSize cfg\<rceil>" "seededRandom seed"]
  by (auto simp: initialize_def initializeAgents_def split_beta split: option.splits)

lemma initialize_demo: "\<exists>sim. initialize (demoConfig ts n h) seed = Some sim"
  by (simp add: initialize_def initialEnvironment_def composeHazard_def demoConfig_def split_beta)

subsection \<open>serialize is not an observer\<close>

text \<open>
  C10 (as amended). \<^verbatim>\<open>serialize\<close> consumes one draw: it leaves the simulation unchanged
  except for the generator, whose state moves on by \<open>0x6d2b79f5\<close> and so differs from the
  state before. The snapshot's \<^verbatim>\<open>rngSeed\<close> and \<^verbatim>\<open>environmentRngSeed\<close> are both the floor
  of that draw times \<open>10\<^sup>9\<close>, a second call returns the floor of the next draw times
  \<open>10\<^sup>9\<close>, and a \<^verbatim>\<open>stepDay\<close> after the call starts from the advanced generator. (The two
  seeds of consecutive calls need not be different.)
\<close>

theorem serialize_consumes_draw:
  "snd (serialize sim) = sim \<lparr> sim_rng := sim_rng sim + 0x6d2b79f5 \<rparr> \<and>
   sim_rng (snd (serialize sim)) \<noteq> sim_rng sim \<and>
   rngSeed (fst (serialize sim)) = \<lfloor>fst (rng_next (sim_rng sim)) * 1000000000\<rfloor> \<and>
   environmentRngSeed (fst (serialize sim)) = rngSeed (fst (serialize sim)) \<and>
   rngSeed (fst (serialize (snd (serialize sim))))
     = \<lfloor>fst (rng_next (sim_rng sim + 0x6d2b79f5)) * 1000000000\<rfloor> \<and>
   stepDay host env (snd (serialize sim)) = stepDay host env (sim \<lparr> sim_rng := sim_rng sim + 0x6d2b79f5 \<rparr>)"
  by (simp add: serialize_def nextSeedOf_def split_beta rng_next_snd)

text \<open>
  C10 as stated fails: \<^verbatim>\<open>initialize\<close> with seed 1513376263 on the three-agent scenario
  leaves the generator in state 242128623, from which the next two draws have the same
  floor after scaling by \<open>10\<^sup>9\<close>, so two consecutive calls of \<^verbatim>\<open>serialize\<close> return the same
  \<^verbatim>\<open>rngSeed\<close> and the same \<^verbatim>\<open>environmentRngSeed\<close>.
\<close>

theorem serialize_same_seed_counterexample:
  "\<exists>sim. initialize (demoConfig [forageTask] 3 7) 1513376263 = Some sim \<and>
     rngSeed (fst (serialize sim)) = rngSeed (fst (serialize (snd (serialize sim)))) \<and>
     environmentRngSeed (fst (serialize sim)) = environmentRngSeed (fst (serialize (snd (serialize sim))))"
proof -
  obtain sim where sim: "initialize (demoConfig [forageTask] 3 7) 1513376263 = Some sim"
    using initialize_demo by blast
  have "sim_rng sim = 242128623"
    using initialize_rng [OF sim] by (simp add: demoConfig_def seededRandom_def)
  then have "rngSeed (fst (serialize sim)) = rngSeed (fst (serialize (snd (serialize sim))))"
    "environmentRngSeed (fst (serialize sim)) = environmentRngSeed (fst (serialize (snd (serialize sim))))"
    by (simp_all add: serialize_def nextSeedOf_def split_beta rng_next_def rng_output_def Let_def)
  with sim show ?thesis by blast
qed

section \<open>Invariants of the reachable states\<close>

subsection \<open>The social network\<close>

lemma set_alist_update:
  "entry \<in> set (AList.update k v al) \<Longrightarrow> entry = (k, v) \<or> entry \<in> set al"
  by (induction al) (auto split: if_splits)

lemma decay_fold_distinct:
  "distinct (map fst m) \<Longrightarrow> distinct (map fst (fold (decayStep d) xs m))"
  by (induction xs arbitrary: m) (simp_all add: decayStep_def Let_def distinct_update distinct_delete)

lemma decay_fold_map_of:
  "distinct (map fst xs) \<Longrightarrow>
     map_of (fold (decayStep d) xs m) k =
       (case map_of xs k of
          None \<Rightarrow> map_of m k
        | Some e \<Rightarrow> if weight e * d < 0.01 then None else Some (e \<lparr> weight := weight e * d \<rparr>))"
proof (induction xs arbitrary: m)
  case Nil
  then show ?case by simp
next
  case (Cons x xs)
  obtain k0 e0 where x: "x = (k0, e0)" by (cases x)
  from Cons.prems x have notin: "map_of xs k0 = None" and d: "distinct (map fst xs)"
    by (simp_all add: map_of_eq_None_iff)
  have at_k0: "map_of (decayStep d x m) k0 =
                 (if weight e0 * d < 0.01 then None else Some (e0 \<lparr> weight := weight e0 * d \<rparr>))"
    by (simp add: x decayStep_def Let_def update_conv' delete_conv')
  have elsewhere: "k \<noteq> k0 \<Longrightarrow> map_of (decayStep d x m) k = map_of m k"
    by (simp add: x decayStep_def Let_def update_conv' delete_conv')
  have ih: "map_of (fold (decayStep d) (x # xs) m) k =
       (case map_of xs k of
          None \<Rightarrow> map_of (decayStep d x m) k
        | Some e \<Rightarrow> if weight e * d < 0.01 then None else Some (e \<lparr> weight := weight e * d \<rparr>))"
    using Cons.IH [OF d, of "decayStep d x m"] by simp
  show ?case
  proof (cases "k = k0")
    case True
    then show ?thesis unfolding ih using notin at_k0 by (simp add: x split: option.splits)
  next
    case False
    then show ?thesis unfolding ih using elsewhere by (simp add: x split: option.splits)
  qed
qed

lemma applyDecay_inv:
  assumes "edgesWellKeyed (net_edges net)"
  shows "networkInv (applyDecay net)"
proof -
  let ?d = "1 - net_forgetFactor net"
  let ?es = "net_edges net"
  let ?rs = "fold (decayStep ?d) ?es ?es"
  from assms have dist: "distinct (map fst ?es)" by (simp add: edgesWellKeyed_def)
  have rdist: "distinct (map fst ?rs)" using dist by (rule decay_fold_distinct)
  have entry: "fst entry = makeKey (edge_source (snd entry)) (edge_target (snd entry))
                 \<and> 0.01 \<le> weight (snd entry)" if "entry \<in> set ?rs" for entry
  proof -
    obtain k e where ke: "entry = (k, e)" by (cases entry)
    from that rdist have "map_of ?rs k = Some e" by (simp add: ke)
    then have c: "(case map_of ?es k of None \<Rightarrow> map_of ?es k
                   | Some e0 \<Rightarrow> if weight e0 * ?d < 0.01 then None
                               else Some (e0 \<lparr> weight := weight e0 * ?d \<rparr>)) = Some e"
      using decay_fold_map_of [OF dist, of ?d ?es k] by simp
    then obtain e0 where e0: "map_of ?es k = Some e0" by (cases "map_of ?es k") simp_all
    from c e0 have e: "\<not> weight e0 * ?d < 0.01" "e = e0 \<lparr> weight := weight e0 * ?d \<rparr>"
      by (simp_all split: if_splits)
    from e0 have "(k, e0) \<in> set ?es" by (rule map_of_SomeD)
    with assms have "k = makeKey (edge_source e0) (edge_target e0)"
      by (auto simp: edgesWellKeyed_def)
    with e show ?thesis by (simp add: ke)
  qed
  show ?thesis
    unfolding networkInv_def edgesWellKeyed_def applyDecay_def
    using rdist entry by simp
qed

lemma reinforceInteraction_inv:
  assumes "networkInv net" "0.01 \<le> delta"
  shows "networkInv (reinforceInteraction net s t delta)"
proof -
  let ?key = "makeKey s t"
  let ?es = "net_edges net"
  let ?upd = "case map_of ?es ?key of
                Some existing \<Rightarrow> existing \<lparr> weight := weight existing + delta \<rparr>
              | None \<Rightarrow> \<lparr> edge_source = s, edge_target = t, weight = delta \<rparr>"
  from assms(1) have dist: "distinct (map fst ?es)"
    and keyed: "\<And>entry. entry \<in> set ?es \<Longrightarrow>
                  fst entry = makeKey (edge_source (snd entry)) (edge_target (snd entry))"
    and heavy: "\<And>entry. entry \<in> set ?es \<Longrightarrow> 0.01 \<le> weight (snd entry)"
    by (auto simp: networkInv_def edgesWellKeyed_def)
  have new: "?key = makeKey (edge_source ?upd) (edge_target ?upd) \<and> 0.01 \<le> weight ?upd"
  proof (cases "map_of ?es ?key")
    case None
    then show ?thesis using assms(2) by simp
  next
    case (Some ex)
    then have "(?key, ex) \<in> set ?es" by (rule map_of_SomeD)
    then show ?thesis using keyed [of "(?key, ex)"] heavy [of "(?key, ex)"] assms(2) Some by simp
  qed
  have "fst entry = makeKey (edge_source (snd entry)) (edge_target (snd entry))
          \<and> 0.01 \<le> weight (snd entry)"
    if "entry \<in> set (AList.update ?key ?upd ?es)" for entry
    using set_alist_update [OF that] new keyed [of entry] heavy [of entry] by auto
  then show ?thesis
    unfolding networkInv_def edgesWellKeyed_def reinforceInteraction_def Let_def
    using dist by (simp add: distinct_update)
qed

lemma participantEdges_inv:
  assumes "networkInv net" "0 \<le> shareOf exec aid"
  shows "networkInv (participantEdges exec pids aid net)"
proof -
  define delta where "delta = 0.2 + shareOf exec aid * 0.05"
  have d: "0.01 \<le> delta" using assms(2) by (simp add: delta_def)
  have "networkInv n \<Longrightarrow>
          networkInv (fold (\<lambda>partner n.
             if partner = aid then n else reinforceInteraction n aid partner delta) ps n)" for ps n
    by (induction ps arbitrary: n) (simp_all add: reinforceInteraction_inv [OF _ d])
  from this [of net pids] assms(1) show ?thesis
    by (simp only: participantEdges_def delta_def)
qed

lemma shareOf_nonneg: "rewardsNonneg e \<Longrightarrow> 0 \<le> shareOf e pid"
  by (auto simp: rewardsNonneg_def shareOf_def split: option.splits dest!: map_of_SomeD)

lemma fold_participantEdges_inv:
  "networkInv net \<Longrightarrow> rewardsNonneg exec \<Longrightarrow> networkInv (fold (participantEdges exec pids) ps net)"
  by (induction ps arbitrary: net) (simp_all add: participantEdges_inv shareOf_nonneg)

lemma applyExecution_network:
  "networkInv net \<Longrightarrow> rewardsNonneg exec \<Longrightarrow>
     networkInv (fst (snd (applyExecution cfg host day exec (agents, net, buf))))"
  by (simp add: applyExecution_def Let_def fold_participantEdges_inv)

lemma fold_applyExecution_network:
  "networkInv (fst (snd st)) \<Longrightarrow> \<forall>e \<in> set execs. rewardsNonneg e \<Longrightarrow>
     networkInv (fst (snd (fold (applyExecution cfg host day) execs st)))"
proof (induction execs arbitrary: st)
  case Nil
  then show ?case by simp
next
  case (Cons e es)
  obtain agents net buf where st: "st = (agents, net, buf)" by (cases st)
  have "networkInv (fst (snd (applyExecution cfg host day e st)))"
    unfolding st using Cons.prems by (intro applyExecution_network) (simp_all add: st)
  then show ?case using Cons.IH [of "applyExecution cfg host day e st"] Cons.prems(2) by simp
qed

lemma applyExecutions_network:
  assumes "edgesWellKeyed (net_edges net)" "\<forall>e \<in> set execs. rewardsNonneg e"
  shows "networkInv (fst (snd (applyExecutions cfg host execs day (agents, net, buf))))"
proof -
  have "networkInv (fst (snd (fold (applyExecution cfg host day) execs (agents, applyDecay net, buf))))"
    by (rule fold_applyExecution_network) (simp_all add: applyDecay_inv assms)
  then show ?thesis by (simp add: applyExecutions_def split_beta)
qed


subsection \<open>Shares are not negative\<close>

lemma skillOr_nonneg: "skillsNonneg a \<Longrightarrow> 0 \<le> skillOr a k"
  by (auto simp: skillsNonneg_def skillOr_def split: option.splits dest!: map_of_SomeD)

lemma fold_assign_set:
  "entry \<in> set (fold (\<lambda>a. AList.update (agent_id a) (f a)) agents al) \<Longrightarrow>
     entry \<in> set al \<or> (\<exists>a \<in> set agents. entry = (agent_id a, f a))"
proof (induction agents arbitrary: al)
  case Nil
  then show ?case by simp
next
  case (Cons a agents)
  from Cons.IH [OF Cons.prems [simplified]] show ?case
    using set_alist_update [of entry "agent_id a" "f a" al] by auto
qed

lemma assignAll_set: "entry \<in> set (assignAll f agents) \<Longrightarrow> \<exists>a \<in> set agents. entry = (agent_id a, f a)"
  using fold_assign_set [of entry f agents "[]"] by (simp add: assignAll_def)

lemma assignAll_nonneg:
  "(\<And>a. a \<in> set agents \<Longrightarrow> 0 \<le> f a) \<Longrightarrow> entry \<in> set (assignAll f agents) \<Longrightarrow> 0 \<le> snd entry"
  using assignAll_set [of entry f agents] by auto

lemma foldl_sum_nonneg:
  "0 \<le> (z::real) \<Longrightarrow> (\<And>a. a \<in> set xs \<Longrightarrow> 0 \<le> f a) \<Longrightarrow> 0 \<le> foldl (\<lambda>acc a. acc + f a) z xs"
  by (induction xs arbitrary: z) simp_all

lemma computeShare_nonneg:
  assumes sk: "\<And>a. a \<in> set ps \<Longrightarrow> skillsNonneg a" and mem: "entry \<in> set (computeShare task ps T)"
  shows "0 \<le> snd entry"
proof (cases "ps = [] \<or> T \<le> 0")
  case True
  then have "computeShare task ps T = assignAll (\<lambda>a. 0) ps" by (simp add: computeShare_def)
  with mem show ?thesis using assignAll_nonneg [of ps "\<lambda>a. 0" entry] by simp
next
  case False
  then have T: "0 < T" and ne: "ps \<noteq> []" by simp_all
  have n: "0 < real (length ps)" using ne by simp
  show ?thesis
  proof (cases "task_norm task")
    case EqualShare
    then have "computeShare task ps T = assignAll (\<lambda>a. T / real (length ps)) ps"
      using False by (simp add: computeShare_def)
    with mem show ?thesis using assignAll_nonneg [of ps "\<lambda>a. T / real (length ps)" entry] T by simp
  next
    case ProportionalSkill
    define total where "total = foldl (\<lambda>acc a. acc + skillOr a (skillKey task)) 0 ps"
    define f :: "AgentState \<Rightarrow> real" where "f = (\<lambda>a. T * (skillOr a (skillKey task) /
                                (if total \<noteq> 0 then total else real (length ps))))"
    have tot: "0 \<le> total"
      unfolding total_def by (rule foldl_sum_nonneg) (simp_all add: skillOr_nonneg sk)
    have eq: "computeShare task ps T = assignAll f ps"
      unfolding computeShare_def Let_def f_def total_def
      using False ProportionalSkill by (simp only: if_False TaskNormRule.simps)
    have "0 \<le> f a" if "a \<in> set ps" for a
      unfolding f_def using T tot n skillOr_nonneg [OF sk [OF that], of "skillKey task"] by simp
    then show ?thesis using mem assignAll_nonneg [of ps f entry] by (simp add: eq)
  next
    case KeyContributorReward
    define elite where
      "elite = take (max 1 (length (sort_key (\<lambda>a. - skillOr a (skillKey task)) ps) div 3))
                 (sort_key (\<lambda>a. - skillOr a (skillKey task)) ps)"
    define f :: "AgentState \<Rightarrow> real" where "f = (\<lambda>a. (T - T * 0.25) / real (length ps) +
                           (if agent_id a \<in> set (map agent_id elite)
                            then T * 0.25 / real (length elite) else 0))"
    have eq: "computeShare task ps T = assignAll f ps"
      unfolding computeShare_def Let_def f_def elite_def
      using False KeyContributorReward by (simp only: if_False TaskNormRule.simps)
    have "0 \<le> f a" for a
      unfolding f_def using T n by simp
    then show ?thesis using mem assignAll_nonneg [of ps f entry] by (simp add: eq)
  next
    case CollectivePenalty
    then have "computeShare task ps T = assignAll (\<lambda>a. 0) ps"
      using False by (simp add: computeShare_def)
    with mem show ?thesis using assignAll_nonneg [of ps "\<lambda>a. 0" entry] by simp
  qed
qed

lemma executeTask_rewardsNonneg:
  "(\<And>a. a \<in> set ps \<Longrightarrow> skillsNonneg a) \<Longrightarrow> rewardsNonneg (fst (executeTask cfg res task ps g))"
  unfolding rewardsNonneg_def executeTask_rewards using computeShare_nonneg by blast

lemma processTask_all:
  assumes "\<forall>e \<in> set execs. P e"
    and "\<And>ps g'. set ps \<subseteq> set pool \<Longrightarrow> P (fst (executeTask cfg res task ps g'))"
  shows "\<forall>e \<in> set (fst (snd (processTask cfg res pool task (avail, execs, g)))). P e"
proof -
  let ?need = "min (recommendedParticipants task) (real (length avail))"
  obtain ps avail1 where sel: "selectParticipants task ?need pool avail = (ps, avail1)"
    by (cases "selectParticipants task ?need pool avail")
  have "selectInv task pool avail (ps, avail1)"
    using selectParticipants_inv [of task pool avail ?need] sel by simp
  then have "set ps \<subseteq> set pool" by (simp add: selectInv_def)
  then have new: "P (fst (executeTask cfg res task ps g))" by (rule assms(2))
  obtain e g2 where ex: "executeTask cfg res task ps g = (e, g2)"
    by (cases "executeTask cfg res task ps g")
  show ?thesis
    using assms(1) sel new ex by (simp add: processTask_def Let_def)
qed

lemma taskLoop_all:
  assumes "\<forall>e \<in> set execs. P e"
    and "\<And>task ps g'. set ps \<subseteq> set pool \<Longrightarrow> P (fst (executeTask cfg res task ps g'))"
  shows "\<forall>e \<in> set (fst (snd (fold (processTask cfg res pool) ts (avail, execs, g)))). P e"
  using assms(1)
proof (induction ts arbitrary: avail execs g)
  case Nil
  then show ?case by simp
next
  case (Cons t ts)
  obtain avail' execs' g' where st: "processTask cfg res pool t (avail, execs, g) = (avail', execs', g')"
    by (cases "processTask cfg res pool t (avail, execs, g)")
  have "\<forall>e \<in> set (fst (snd (processTask cfg res pool t (avail, execs, g)))). P e"
    by (rule processTask_all) (rule Cons.prems, rule assms(2))
  then have "\<forall>e \<in> set execs'. P e"
    by (simp only: st fst_conv snd_conv)
  from Cons.IH [OF this, of avail' g'] show ?case
    by (simp only: fold_simps st)
qed

lemma idleFallback_rewardsNonneg:
  "e \<in> set (idleFallback cfg tsks pool avail) \<Longrightarrow> rewardsNonneg e"
  using assignAll_nonneg [of _ "\<lambda>a. 0"]
  by (auto simp: idleFallback_def rewardsNonneg_def computeShare_def Let_def
      split: if_splits option.splits)

lemma assignTasks_rewardsNonneg:
  assumes "\<And>a. a \<in> set agents \<Longrightarrow> skillsNonneg a"
    and "e \<in> set (fst (assignTasks cfg g agents res ts))"
  shows "rewardsNonneg e"
proof -
  obtain shuffled g1 where sh: "shuffle agents g = (shuffled, g1)" by (cases "shuffle agents g")
  have pool: "set shuffled = set agents" using shuffle_set [of agents g] sh by simp
  let ?tsks = "case ts of Some ts \<Rightarrow> ts | None \<Rightarrow> tasks cfg"
  let ?st = "fold (processTask cfg res shuffled) ?tsks (newSet (map agent_id shuffled), [], g1)"
  have loop: "\<forall>e \<in> set (fst (snd ?st)). rewardsNonneg e"
    by (rule taskLoop_all) (auto intro!: executeTask_rewardsNonneg assms(1) simp: pool)
  from assms(2) have "e \<in> set (fst (snd ?st)) \<or> e \<in> set (idleFallback cfg ?tsks shuffled (fst ?st))"
    by (auto simp: assignTasks_def sh taskLoop_def Let_def split: prod.splits)
  with loop idleFallback_rewardsNonneg show ?thesis by blast
qed

subsection \<open>What a step does to the agents\<close>

lemma updateAgent_all:
  "(\<And>a. a \<in> set as \<Longrightarrow> P a) \<Longrightarrow> (\<And>a. P a \<Longrightarrow> P (f a)) \<Longrightarrow> a \<in> set (updateAgent pid f as) \<Longrightarrow> P a"
  by (induction as arbitrary: a) (auto split: if_splits)

lemma fold_updateAgent_all:
  "(\<And>a. a \<in> set as \<Longrightarrow> P a) \<Longrightarrow> (\<And>a. P a \<Longrightarrow> P (f a)) \<Longrightarrow>
     a \<in> set (fold (\<lambda>pid. updateAgent pid f) pids as) \<Longrightarrow> P a"
proof (induction pids arbitrary: as a)
  case Nil
  then show ?case by simp
next
  case (Cons p pids)
  have "\<And>b. b \<in> set (updateAgent p f as) \<Longrightarrow> P b"
    using updateAgent_all [of as P f] Cons.prems(1,2) by blast
  from Cons.IH [OF this Cons.prems(2)] Cons.prems(3) show ?case by simp
qed

lemma applyExecution_agents:
  assumes "\<And>a. a \<in> set agents \<Longrightarrow> P a"
    and "\<And>a bs pids. P a \<Longrightarrow> P (participantUpdate cfg host day exec bs pids a)"
    and "a \<in> set (fst (applyExecution cfg host day exec (agents, net, buf)))"
  shows "P a"
proof (cases "filter (hasAgent agents) (participants (assignment exec)) = []")
  case True
  with assms(1,3) show ?thesis by (simp add: applyExecution_def Let_def)
next
  case False
  with assms(3) show ?thesis
    using fold_updateAgent_all [of agents P _ a, OF assms(1) assms(2)]
    by (simp add: applyExecution_def Let_def)
qed

lemma fold_applyExecution_agents:
  assumes "\<And>a. a \<in> set (fst st) \<Longrightarrow> P a"
    and "\<And>a exec bs pids. P a \<Longrightarrow> P (participantUpdate cfg host day exec bs pids a)"
    and "a \<in> set (fst (fold (applyExecution cfg host day) execs st))"
  shows "P a"
  using assms(1,3)
proof (induction execs arbitrary: st)
  case Nil
  then show ?case by simp
next
  case (Cons e es)
  obtain agents net buf where st: "st = (agents, net, buf)" by (cases st)
  have "\<And>b. b \<in> set (fst (applyExecution cfg host day e st)) \<Longrightarrow> P b"
    unfolding st using applyExecution_agents [of agents P cfg host day e _ net buf] Cons.prems(1) assms(2)
    by (simp add: st)
  from Cons.IH [OF this] Cons.prems(2) show ?case by simp
qed

lemma reflectAll_agents:
  "(\<And>a. a \<in> set as \<Longrightarrow> P a) \<Longrightarrow> (\<And>a. P a \<Longrightarrow> P (snd (reflect cfg host a day))) \<Longrightarrow>
     a \<in> set (fst (reflectAll cfg host day as buf)) \<Longrightarrow> P a"
  by (induction as arbitrary: buf a) (auto simp: split_beta Let_def)

lemma applyExecutions_agents:
  assumes "\<And>a. a \<in> set agents \<Longrightarrow> P a"
    and "\<And>a exec bs pids. P a \<Longrightarrow> P (participantUpdate cfg host day exec bs pids a)"
    and "\<And>a. P a \<Longrightarrow> P (snd (reflect cfg host a day))"
    and "a \<in> set (fst (applyExecutions cfg host execs day (agents, net, buf)))"
  shows "P a"
proof -
  let ?st = "fold (applyExecution cfg host day) execs (agents, applyDecay net, buf)"
  have "\<And>b. b \<in> set (fst ?st) \<Longrightarrow> P b"
    using fold_applyExecution_agents [of "(agents, applyDecay net, buf)" P cfg host day _ execs]
      assms(1,2) by simp
  then show ?thesis
    using reflectAll_agents [of "fst ?st" P cfg host day a "snd (snd ?st)"] assms(3,4)
    by (simp add: applyExecutions_def split_beta)
qed


subsection \<open>Fields that a step leaves alone\<close>

lemma applyStimulus_fields [simp]:
  "skillset (applyStimulus cfg a day st) = skillset a"
  "agent_id (applyStimulus cfg a day st) = agent_id a"
  "socialMemory (applyStimulus cfg a day st) = socialMemory a"
  by (simp_all add: applyStimulus_def)

lemma energyUpdate_fields [simp]:
  "skillset (energyUpdate cfg exec a) = skillset a"
  "agent_id (energyUpdate cfg exec a) = agent_id a"
  "socialMemory (energyUpdate cfg exec a) = socialMemory a"
  by (simp_all add: energyUpdate_def Let_def)

lemma injuryUpdate_fields [simp]:
  "skillset (injuryUpdate cfg day exec a) = skillset a"
  "agent_id (injuryUpdate cfg day exec a) = agent_id a"
  "socialMemory (injuryUpdate cfg day exec a) = socialMemory a"
  by (simp_all add: injuryUpdate_def Let_def)

lemma outcomeUpdate_fields [simp]:
  "skillset (outcomeUpdate cfg host day exec bs a) = skillset a"
  "agent_id (outcomeUpdate cfg host day exec bs a) = agent_id a"
  "socialMemory (outcomeUpdate cfg host day exec bs a) = socialMemory a"
  by (simp_all add: outcomeUpdate_def Let_def)

lemma registerPartners_fields:
  "skillset (registerPartners cfg day exec bs pids self a) = skillset a \<and>
   agent_id (registerPartners cfg day exec bs pids self a) = agent_id a \<and>
   socialMemory (registerPartners cfg day exec bs pids self a)
     = fold (memoryStep cfg day exec bs self) pids (socialMemory a)"
  unfolding registerPartners_def
  by (induction pids arbitrary: a) (simp_all add: registerInteraction_def memoryStep_def)

lemma participantUpdate_fields:
  "skillset (participantUpdate cfg host day exec bs pids a) = skillset a"
  "agent_id (participantUpdate cfg host day exec bs pids a) = agent_id a"
  "socialMemory (participantUpdate cfg host day exec bs pids a)
     = fold (memoryStep cfg day exec bs (agent_id a)) pids (socialMemory a)"
  by (simp_all add: participantUpdate_def registerPartners_fields)

lemma reflect_fields [simp]:
  "skillset (snd (reflect cfg host a day)) = skillset a"
  "agent_id (snd (reflect cfg host a day)) = agent_id a"
  "socialMemory (snd (reflect cfg host a day)) = socialMemory a"
  by (simp_all add: reflect_def Let_def)

subsection \<open>The social memory\<close>

lemma updateSocialMemory_distinct:
  "distinct (map partnerId m) \<Longrightarrow>
     distinct (map partnerId (updateSocialMemory m pid day rd given received sent window))"
  by (auto simp: updateSocialMemory_def Let_def distinct_map_filter)

lemma updateSocialMemory_horizon:
  "0 \<le> window \<Longrightarrow> entry \<in> set (updateSocialMemory m pid day rd given received sent window) \<Longrightarrow>
     day - lastInteractionDay entry \<le> window"
  by (auto simp: updateSocialMemory_def Let_def)

lemma updateSocialMemory_hd:
  "lastInteractionDay (hd (updateSocialMemory m pid day rd given received sent window)) = day"
  by (simp add: updateSocialMemory_def Let_def)

lemma memoryStep_ok:
  "0 \<le> socialMemoryHorizonDays cfg \<Longrightarrow> memoryOk (socialMemoryHorizonDays cfg) m \<Longrightarrow>
     memoryOk (socialMemoryHorizonDays cfg) (memoryStep cfg day exec bs self partner m)"
  unfolding memoryStep_def memoryOk_def
  using updateSocialMemory_distinct updateSocialMemory_horizon
  by (auto simp: updateSocialMemory_hd)

lemma fold_memoryStep_ok:
  "0 \<le> socialMemoryHorizonDays cfg \<Longrightarrow> memoryOk (socialMemoryHorizonDays cfg) m \<Longrightarrow>
     memoryOk (socialMemoryHorizonDays cfg) (fold (memoryStep cfg day exec bs self) ps m)"
  by (induction ps arbitrary: m) (simp_all add: memoryStep_ok)

lemma fold_memoryStep_distinct:
  "distinct (map partnerId m) \<Longrightarrow>
     distinct (map partnerId (fold (memoryStep cfg day exec bs self) ps m))"
  by (induction ps arbitrary: m) (simp_all add: memoryStep_def updateSocialMemory_distinct)


subsection \<open>The initial simulation\<close>

lemma clamp_lower: "lo \<le> hi \<Longrightarrow> lo \<le> clamp v lo hi"
  by (simp add: clamp_def)

lemma skillStep_nonneg:
  "entry \<in> set (fst (skillStep profile st)) \<Longrightarrow> entry \<in> set (fst st) \<or> 0 \<le> snd entry"
proof -
  obtain key mean std where p: "profile = (key, mean, std)" by (cases profile)
  obtain sk g0 where st: "st = (sk, g0)" by (cases st)
  assume "entry \<in> set (fst (skillStep profile st))"
  then have "entry \<in> set (AList.update key (clamp (fst (sampleNormal mean std g0)) 0 1.2) sk)"
    by (simp add: skillStep_def p st split_beta)
  from set_alist_update [OF this] show ?thesis
    using clamp_lower [of 0 "1.2" "fst (sampleNormal mean std g0)"] by (auto simp: st)
qed

lemma fold_skillStep_nonneg:
  "entry \<in> set (fst (fold skillStep profiles st)) \<Longrightarrow> entry \<in> set (fst st) \<or> 0 \<le> snd entry"
proof (induction profiles arbitrary: st)
  case Nil
  then show ?case by simp
next
  case (Cons p ps)
  from Cons.IH [of "skillStep p st"] Cons.prems
  have "entry \<in> set (fst (skillStep p st)) \<or> 0 \<le> snd entry" by simp
  then show ?case using skillStep_nonneg [of entry p st] by blast
qed

lemma initializeAgent_fields:
  "skillsNonneg (fst (initializeAgent cfg i g))"
  "socialMemory (fst (initializeAgent cfg i g)) = []"
  "agent_id (fst (initializeAgent cfg i g)) = buildAgentId i"
proof -
  have "skillset (fst (initializeAgent cfg i g)) = fst (sampleSkills (skillProfiles cfg) g)"
    by (simp add: initializeAgent_def split_beta)
  then show "skillsNonneg (fst (initializeAgent cfg i g))"
    using fold_skillStep_nonneg [of _ "skillProfiles cfg" "([], g)"]
    by (auto simp: skillsNonneg_def sampleSkills_def)
  show "socialMemory (fst (initializeAgent cfg i g)) = []"
    by (simp add: initializeAgent_def split_beta)
  show "agent_id (fst (initializeAgent cfg i g)) = buildAgentId i"
    by (simp add: initializeAgent_def split_beta)
qed

lemma initializeAgentsFrom_fields:
  "a \<in> set (fst (initializeAgentsFrom cfg i n g)) \<Longrightarrow> skillsNonneg a \<and> socialMemory a = []"
  by (induction n arbitrary: i g) (auto simp: split_beta initializeAgent_fields)

lemma initializeNetwork_inv: "networkInv (initializeNetwork cfg membership)"
  by (simp add: initializeNetwork_def newSocialNetwork_def networkInv_def edgesWellKeyed_def)

lemma initialize_fields:
  assumes "initialize cfg seed = Some sim"
  shows "sim_config sim = cfg" "networkInv (sim_network sim)" "sim_logs sim = []" "sim_causal sim = []"
    "\<And>a. a \<in> set (sim_agents sim) \<Longrightarrow> skillsNonneg a \<and> socialMemory a = []"
proof -
  obtain env where env: "initialEnvironment cfg = Some env"
    using assms by (cases "initialEnvironment cfg") (simp_all add: initialize_def)
  let ?ia = "initializeAgentsFrom cfg 0 (nat \<lceil>populationSize cfg\<rceil>) (seededRandom seed)"
  have sim: "sim = \<lparr> sim_config = cfg, sim_environment = env,
                     sim_network = initializeNetwork cfg
                        (fold (\<lambda>a. AList.update (agent_id a) (campId a)) (fst ?ia) []),
                     sim_rng = snd ?ia, sim_agents = fst ?ia, sim_logs = [], sim_causal = [] \<rparr>"
    using assms by (simp add: initialize_def env initializeAgents_def split_beta)
  show "sim_config sim = cfg" "networkInv (sim_network sim)" "sim_logs sim = []" "sim_causal sim = []"
    by (simp_all add: sim initializeNetwork_inv)
  show "\<And>a. a \<in> set (sim_agents sim) \<Longrightarrow> skillsNonneg a \<and> socialMemory a = []"
    using initializeAgentsFrom_fields [of _ cfg 0 "nat \<lceil>populationSize cfg\<rceil>" "seededRandom seed"]
    by (simp add: sim)
qed

subsection \<open>One step\<close>

lemma stepDay_SomeD:
  assumes "stepDay host env sim = Some (r, sim')"
  shows "\<exists>envS g1 tsks.
           tick (sim_config sim) (sim_environment sim) (sim_rng sim) = Some (envS, g1) \<and>
           tsks = orderTasksByPlan host (plan host env (the (createPlanRequest sim))) (tasks (sim_config sim)) \<and>
           createPlanRequest sim \<noteq> None \<and>
           sim' = sim \<lparr> sim_environment := envS,
                        sim_network := fst (snd (applyExecutions (sim_config sim) host
                            (fst (assignTasks (sim_config sim) g1 (sim_agents sim)
                                    (plants envS, smallGame envS, largeGame envS) (Some tsks)))
                            (env_day envS) (sim_agents sim, sim_network sim, sim_logs sim))),
                        sim_rng := snd (nextSeedOf (snd (assignTasks (sim_config sim) g1 (sim_agents sim)
                                    (plants envS, smallGame envS, largeGame envS) (Some tsks)))),
                        sim_agents := fst (applyExecutions (sim_config sim) host
                            (fst (assignTasks (sim_config sim) g1 (sim_agents sim)
                                    (plants envS, smallGame envS, largeGame envS) (Some tsks)))
                            (env_day envS) (sim_agents sim, sim_network sim, sim_logs sim)),
                        sim_logs := [], sim_causal := [] \<rparr> \<and>
           st_environment (newState r) = envS \<and>
           st_agents (newState r) = sim_agents sim' \<and>
           st_network (newState r) = toState (sim_network sim') \<and>
           rngSeed (newState r) = fst (nextSeedOf (snd (assignTasks (sim_config sim) g1 (sim_agents sim)
                                    (plants envS, smallGame envS, largeGame envS) (Some tsks))))"
  using assms
  by (auto simp: stepDay_def Let_def split_beta deepCloneAgents_def split: option.splits)

lemma stepDay_simInv:
  assumes inv: "simInv cfg sim" and step: "stepDay host env sim = Some (r, sim')"
  shows "simInv cfg sim'"
proof -
  from inv have cfg: "sim_config sim = cfg" and net: "networkInv (sim_network sim)"
    and ag: "\<And>a. a \<in> set (sim_agents sim) \<Longrightarrow> skillsNonneg a \<and> memoryDistinct a"
    by (simp_all add: simInv_def)
  from stepDay_SomeD [OF step] obtain envS g1 tsks where
    sim': "sim' = sim \<lparr> sim_environment := envS,
                        sim_network := fst (snd (applyExecutions cfg host
                            (fst (assignTasks cfg g1 (sim_agents sim)
                                    (plants envS, smallGame envS, largeGame envS) (Some tsks)))
                            (env_day envS) (sim_agents sim, sim_network sim, sim_logs sim))),
                        sim_rng := snd (nextSeedOf (snd (assignTasks cfg g1 (sim_agents sim)
                                    (plants envS, smallGame envS, largeGame envS) (Some tsks)))),
                        sim_agents := fst (applyExecutions cfg host
                            (fst (assignTasks cfg g1 (sim_agents sim)
                                    (plants envS, smallGame envS, largeGame envS) (Some tsks)))
                            (env_day envS) (sim_agents sim, sim_network sim, sim_logs sim)),
                        sim_logs := [], sim_causal := [] \<rparr>"
    unfolding cfg by blast
  let ?execs = "fst (assignTasks cfg g1 (sim_agents sim)
                       (plants envS, smallGame envS, largeGame envS) (Some tsks))"
  have rw: "\<forall>e \<in> set ?execs. rewardsNonneg e"
    using assignTasks_rewardsNonneg [of "sim_agents sim" _ cfg g1] ag by blast
  have n': "networkInv (fst (snd (applyExecutions cfg host ?execs (env_day envS)
                                   (sim_agents sim, sim_network sim, sim_logs sim))))"
    using net rw by (intro applyExecutions_network) (simp_all add: networkInv_def)
  have a': "skillsNonneg a \<and> memoryDistinct a"
    if "a \<in> set (fst (applyExecutions cfg host ?execs (env_day envS)
                        (sim_agents sim, sim_network sim, sim_logs sim)))" for a
    using that
  proof (rule applyExecutions_agents [where P = "\<lambda>a. skillsNonneg a \<and> memoryDistinct a", rotated 3])
    show "\<And>a. a \<in> set (sim_agents sim) \<Longrightarrow> skillsNonneg a \<and> memoryDistinct a" by (rule ag)
    show "\<And>a exec bs pids. skillsNonneg a \<and> memoryDistinct a \<Longrightarrow>
            skillsNonneg (participantUpdate cfg host (env_day envS) exec bs pids a) \<and>
            memoryDistinct (participantUpdate cfg host (env_day envS) exec bs pids a)"
      by (simp add: skillsNonneg_def memoryDistinct_def participantUpdate_fields
          fold_memoryStep_distinct)
    show "\<And>a. skillsNonneg a \<and> memoryDistinct a \<Longrightarrow>
            skillsNonneg (snd (reflect cfg host a (env_day envS))) \<and>
            memoryDistinct (snd (reflect cfg host a (env_day envS)))"
      by (simp add: skillsNonneg_def memoryDistinct_def)
  qed
  show ?thesis
    unfolding simInv_def sim' using cfg n' a' by simp
qed

lemma serialize_simInv: "simInv cfg sim \<Longrightarrow> simInv cfg (snd (serialize sim))"
  by (simp add: serialize_def simInv_def split_beta)

lemma reachable_simInv: "reachable host cfg sim \<Longrightarrow> simInv cfg sim"
proof (induction rule: reachable.induct)
  case (reach_init seed sim)
  then show ?case
    using initialize_fields [OF reach_init] by (simp add: simInv_def memoryDistinct_def)
next
  case (reach_step sim env r sim')
  then show ?case using stepDay_simInv by blast
next
  case (reach_serialize sim)
  from reach_serialize.IH show ?case by (rule serialize_simInv)
qed

lemma stepDay_memoryOk:
  assumes h: "0 \<le> socialMemoryHorizonDays cfg" and cfg: "sim_config sim = cfg"
    and ok: "\<And>a. a \<in> set (sim_agents sim) \<Longrightarrow> memoryOk (socialMemoryHorizonDays cfg) (socialMemory a)"
    and step: "stepDay host env sim = Some (r, sim')"
    and a: "a \<in> set (sim_agents sim')"
  shows "memoryOk (socialMemoryHorizonDays cfg) (socialMemory a)"
proof -
  from stepDay_SomeD [OF step] obtain envS g1 tsks where
    sim': "sim' = sim \<lparr> sim_environment := envS,
                        sim_network := fst (snd (applyExecutions cfg host
                            (fst (assignTasks cfg g1 (sim_agents sim)
                                    (plants envS, smallGame envS, largeGame envS) (Some tsks)))
                            (env_day envS) (sim_agents sim, sim_network sim, sim_logs sim))),
                        sim_rng := snd (nextSeedOf (snd (assignTasks cfg g1 (sim_agents sim)
                                    (plants envS, smallGame envS, largeGame envS) (Some tsks)))),
                        sim_agents := fst (applyExecutions cfg host
                            (fst (assignTasks cfg g1 (sim_agents sim)
                                    (plants envS, smallGame envS, largeGame envS) (Some tsks)))
                            (env_day envS) (sim_agents sim, sim_network sim, sim_logs sim)),
                        sim_logs := [], sim_causal := [] \<rparr>"
    unfolding cfg by blast
  define execs where "execs = fst (assignTasks cfg g1 (sim_agents sim)
                                    (plants envS, smallGame envS, largeGame envS) (Some tsks))"
  have ags: "sim_agents sim' = fst (applyExecutions cfg host execs (env_day envS)
                                  (sim_agents sim, sim_network sim, sim_logs sim))"
    by (simp add: sim' execs_def)
  from a show ?thesis
    unfolding ags
  proof (rule applyExecutions_agents
      [where P = "\<lambda>a. memoryOk (socialMemoryHorizonDays cfg) (socialMemory a)", rotated 3])
    show "\<And>a. a \<in> set (sim_agents sim) \<Longrightarrow> memoryOk (socialMemoryHorizonDays cfg) (socialMemory a)"
      by (rule ok)
    show "\<And>a exec bs pids. memoryOk (socialMemoryHorizonDays cfg) (socialMemory a) \<Longrightarrow>
            memoryOk (socialMemoryHorizonDays cfg)
              (socialMemory (participantUpdate cfg host (env_day envS) exec bs pids a))"
      by (simp add: participantUpdate_fields fold_memoryStep_ok h)
    show "\<And>a. memoryOk (socialMemoryHorizonDays cfg) (socialMemory a) \<Longrightarrow>
            memoryOk (socialMemoryHorizonDays cfg)
              (socialMemory (snd (reflect cfg host a (env_day envS))))"
      by simp
  qed
qed

lemma reachable_memoryOk:
  assumes h: "0 \<le> socialMemoryHorizonDays cfg"
  shows "reachable host cfg sim \<Longrightarrow>
           (\<forall>a \<in> set (sim_agents sim). memoryOk (socialMemoryHorizonDays cfg) (socialMemory a))"
proof (induction rule: reachable.induct)
  case (reach_init seed sim)
  then show ?case
    using initialize_fields(5) [OF reach_init] by (simp add: memoryOk_def)
next
  case (reach_step sim env r sim')
  have "sim_config sim = cfg" using reachable_simInv [OF reach_step(1)] by (simp add: simInv_def)
  then show ?case
    using stepDay_memoryOk [OF h _ _ reach_step(2)] reach_step(3) by blast
next
  case (reach_serialize sim)
  then show ?case by (simp add: serialize_def split_beta)
qed

lemma distinct_map_comp: "distinct (map (f \<circ> g) xs) \<Longrightarrow> distinct (map g xs)"
  by (induction xs) auto

lemma networkInv_pairs:
  assumes "networkInv net"
  shows "distinct (map (\<lambda>e. (edge_source e, edge_target e)) (edges (toState net)))"
    and "list_all (\<lambda>e. 0.01 \<le> weight e) (edges (toState net))"
proof -
  from assms have dist: "distinct (map fst (net_edges net))"
    and keyed: "\<And>entry. entry \<in> set (net_edges net) \<Longrightarrow>
                  fst entry = makeKey (edge_source (snd entry)) (edge_target (snd entry))"
    and heavy: "\<And>entry. entry \<in> set (net_edges net) \<Longrightarrow> 0.01 \<le> weight (snd entry)"
    by (auto simp: networkInv_def edgesWellKeyed_def)
  have "map fst (net_edges net)
          = map ((\<lambda>p. makeKey (fst p) (snd p)) \<circ> (\<lambda>e. (edge_source e, edge_target e)))
              (map snd (net_edges net))"
    using keyed by (simp add: comp_def)
  with dist have "distinct (map ((\<lambda>p. makeKey (fst p) (snd p)) \<circ> (\<lambda>e. (edge_source e, edge_target e)))
              (map snd (net_edges net)))" by simp
  then show "distinct (map (\<lambda>e. (edge_source e, edge_target e)) (edges (toState net)))"
    unfolding toState_def using distinct_map_comp by fastforce
  show "list_all (\<lambda>e. 0.01 \<le> weight e) (edges (toState net))"
    using heavy by (auto simp: toState_def list_all_iff)
qed


subsection \<open>The network of a reachable state\<close>

text \<open>
  C9. In every state reached by \<^verbatim>\<open>initialize\<close> and any sequence of \<^verbatim>\<open>stepDay\<close> and
  \<^verbatim>\<open>serialize\<close> calls, whatever the LLM adapters reply, the network state holds at most
  one edge per ordered pair of source and target, and every edge has weight at least 0.01.
\<close>

theorem reachable_network_edges:
  assumes "reachable host cfg sim"
  shows "distinct (map (\<lambda>e. (edge_source e, edge_target e)) (edges (toState (sim_network sim)))) \<and>
         list_all (\<lambda>e. 0.01 \<le> weight e) (edges (toState (sim_network sim)))"
proof -
  from assms have "networkInv (sim_network sim)"
    using reachable_simInv by (auto simp: simInv_def)
  then show ?thesis using networkInv_pairs by blast
qed

section \<open>A run of the three-agent scenario\<close>

subsection \<open>A first round of the gamma sampler that accepts\<close>

lemma gammaLoop_accept:
  assumes c: "0 \<le> c" "c \<le> 1 / 2"
    and u1: "1 / 2 \<le> fst (rng_next g)"
    and u3: "fst (rng_next (g + 2 * 0x6d2b79f5)) < 43 / 50"
  shows "\<exists>r. gammaLoop gscale d c g = Some (r, g + 3 * 0x6d2b79f5)"
proof -
  define g1 where "g1 = snd (rng_next g)"
  define g2 where "g2 = snd (rng_next g1)"
  define g3 where "g3 = snd (rng_next g2)"
  define a where "a = fst (rng_next g)"
  define b where "b = fst (rng_next g1)"
  define u where "u = fst (rng_next g2)"
  define x where "x = sqrt (- 2 * ln a) * cos (2 * pi * b)"
  have g2: "g2 = g + 2 * 0x6d2b79f5" by (simp add: g2_def g1_def rng_next_snd)
  have g3: "g3 = g + 3 * 0x6d2b79f5" by (simp add: g3_def g2_def g1_def rng_next_snd)
  have a: "1 / 2 \<le> a" "a < 1" using u1 rng_next_range [of g] by (simp_all add: a_def)
  have "ln (1 / 2) \<le> ln a" using a by (subst ln_le_cancel_iff) simp_all
  moreover have "ln (1 / 2 :: real) = - ln 2" by (simp add: ln_div)
  moreover have "ln (2::real) < 1" by (rule ln_2_less_1)
  ultimately have lo: "- 1 \<le> ln a" by linarith
  have hi: "ln a \<le> 0" using a by simp
  have s: "(sqrt (- 2 * ln a))\<^sup>2 = - 2 * ln a" using hi by simp
  have co: "(cos (2 * pi * b))\<^sup>2 \<le> 1" by (simp add: abs_square_le_1)
  have x2: "x\<^sup>2 = (- 2 * ln a) * (cos (2 * pi * b))\<^sup>2"
    unfolding x_def power_mult_distrib s ..
  have "(- 2 * ln a) * (cos (2 * pi * b))\<^sup>2 \<le> (- 2 * ln a) * 1"
    using co hi by (intro mult_left_mono) simp_all
  then have x2le: "x\<^sup>2 \<le> 2" using lo x2 by simp
  have "x ^ 4 = (x\<^sup>2)\<^sup>2" by simp
  also have "\<dots> \<le> 2\<^sup>2" using x2le by (intro power_mono) simp_all
  finally have x4: "x ^ 4 \<le> 4" by simp
  have "\<bar>x\<bar> \<le> 3 / 2"
  proof (rule ccontr)
    assume "\<not> \<bar>x\<bar> \<le> 3 / 2"
    then have "(3 / 2)\<^sup>2 < \<bar>x\<bar>\<^sup>2" by (intro power_strict_mono) simp_all
    then show False using x2le by (simp add: power2_eq_square)
  qed
  then have "\<bar>c * x\<bar> \<le> (1 / 2) * (3 / 2)"
    unfolding abs_mult using c by (intro mult_mono) simp_all
  then have nv: "(1 + c * x \<le> 0) = False" by (simp add: abs_le_iff)
  have acc: "(u < 1 - 0.0331 * x ^ 4) = True" using x4 u3 by (simp add: u_def g2)
  have na: "(a = 0) = False" using a by simp
  have "gammaLoop gscale d c g = Some (gscale * d * ((1 + c * x) * (1 + c * x) * (1 + c * x)), g3)"
    apply (subst gammaLoop.simps)
    apply (simp only: Let_def g1_def [symmetric])
    apply (simp only: g2_def [symmetric])
    apply (simp only: g3_def [symmetric] a_def [symmetric] b_def [symmetric] u_def [symmetric])
    apply (simp only: x_def [symmetric] na nv acc if_True if_False)
    done
  then show ?thesis unfolding g3 by blast
qed

lemma gammaSample_accept:
  assumes "gshape = 2"
    and "1 / 2 \<le> fst (rng_next g)"
    and "fst (rng_next (g + 2 * 0x6d2b79f5)) < 43 / 50"
  shows "\<exists>r. gammaSample gshape gscale g = Some (r, g + 3 * 0x6d2b79f5)"
proof -
  have "(2::real)\<^sup>2 \<le> 9 * (2 - 1 / 3)" by (simp add: power2_eq_square)
  then have "2 \<le> sqrt (9 * (2 - 1 / 3))" by (rule real_le_rsqrt)
  then have c: "1 / sqrt (9 * (2 - 1 / 3)) \<le> 1 / 2" "0 \<le> 1 / sqrt (9 * (2 - 1 / 3))"
    by (simp_all add: field_simps)
  show ?thesis
    unfolding assms(1)
    apply (subst gammaSample.simps)
    using gammaLoop_accept [OF c(2) c(1) assms(2,3), of gscale "2 - 1 / 3"] by simp
qed

lemma tick_demo:
  assumes "1 / 2 \<le> fst (rng_next g)"
    and "fst (rng_next (g + 2 * 0x6d2b79f5)) < 43 / 50"
  shows "\<exists>envS. tick (demoConfig ts n h) env g = Some (envS, g + 3 * 0x6d2b79f5) \<and>
           env_day envS = env_day env + 1 \<and> 0 < plants envS"
proof -
  obtain r where r: "gammaSample 2 1 g = Some (r, g + 3 * 0x6d2b79f5)"
    using gammaSample_accept [OF refl assms] by blast
  show ?thesis
    by (simp add: tick_def demoConfig_def r seasonAt_def jsRemInt_def composeHazard_def Let_def)
qed

lemma createPlanRequest_demo:
  "sim_config sim = demoConfig ts n h \<Longrightarrow> createPlanRequest sim \<noteq> None"
  by (simp add: createPlanRequest_def demoConfig_def seasonAt_def jsRemInt_def Let_def)

lemma stepDay_demo:
  assumes cfg: "sim_config sim = demoConfig ts n h"
    and acc: "1 / 2 \<le> fst (rng_next (sim_rng sim))"
      "fst (rng_next (sim_rng sim + 2 * 0x6d2b79f5)) < 43 / 50"
  shows "\<exists>r sim' envS.
           stepDay host env sim = Some (r, sim') \<and>
           tick (demoConfig ts n h) (sim_environment sim) (sim_rng sim)
             = Some (envS, sim_rng sim + 3 * 0x6d2b79f5) \<and>
           env_day envS = env_day (sim_environment sim) + 1 \<and> 0 < plants envS"
proof -
  obtain envS where t: "tick (demoConfig ts n h) (sim_environment sim) (sim_rng sim)
                          = Some (envS, sim_rng sim + 3 * 0x6d2b79f5)"
    and d: "env_day envS = env_day (sim_environment sim) + 1" "0 < plants envS"
    using tick_demo [OF acc, of ts n h "sim_environment sim"] by blast
  obtain rq where rq: "createPlanRequest sim = Some rq"
    using createPlanRequest_demo [OF cfg] by blast
  have "\<exists>r sim'. stepDay host env sim = Some (r, sim')"
    by (simp add: stepDay_def cfg rq t Let_def split_beta)
  with t d show ?thesis by blast
qed


subsection \<open>How many draws the planner takes\<close>

lemma shuffleFrom_snd: "snd (shuffleFrom k xs g) = g + of_nat k * 0x6d2b79f5"
  by (induction k arbitrary: xs g) (simp_all add: split_beta Let_def rng_next_snd algebra_simps)

lemma sampleInjuries_snd: "snd (sampleInjuries th ps g) = g + of_nat (length ps) * 0x6d2b79f5"
  by (induction ps arbitrary: g) (simp_all add: split_beta Let_def rng_next_snd algebra_simps)

lemma executeTask_snd:
  "snd (executeTask cfg res t ps g) = g + of_nat (Suc (length ps)) * 0x6d2b79f5"
  by (simp add: executeTask_def split_beta Let_def sampleInjuries_snd rng_next_snd algebra_simps)

subsection \<open>Three agents and one task for two\<close>

lemma three_agents_loop:
  assumes "agent_id x \<noteq> agent_id y" "agent_id x \<noteq> agent_id z" "agent_id y \<noteq> agent_id z"
    "category t = Foraging" "minParticipants t \<le> 2" "recommendedParticipants t = 2"
  shows "taskLoop cfg res [x, y, z] [t] ([agent_id x, agent_id y, agent_id z], [], g) =
           ([agent_id z], [fst (executeTask cfg res t [x, y] g)], snd (executeTask cfg res t [x, y] g))"
proof -
  have need: "min (recommendedParticipants t) 3 = 2" using assms(6) by simp
  have sel: "selectParticipants t 2 [x, y, z] [agent_id x, agent_id y, agent_id z] = ([x, y], [agent_id z])"
    using assms(1-4) by (simp add: selectParticipants_def selectStep_def setDelete_def)
  show ?thesis
    using assms(5) by (simp add: taskLoop_def processTask_def need sel split_beta)
qed

lemma three_agents_assign:
  assumes "agent_id x \<noteq> agent_id y" "agent_id x \<noteq> agent_id z" "agent_id y \<noteq> agent_id z"
    "category t = Foraging" "minParticipants t \<le> 2" "recommendedParticipants t = 2"
    "task_id t \<noteq> ''camp_maintenance''" "tasks cfg = [t]"
    "shuffle agents g = ([x, y, z], g1)"
  shows "assignTasks cfg g agents res (Some [t])
           = ([fst (executeTask cfg res t [x, y] g1)], g1 + 3 * 0x6d2b79f5)"
  using assms(1-3,7,8) three_agents_loop [OF assms(1-6), of cfg res g1]
    executeTask_snd [of cfg res t "[x, y]" g1]
  by (simp add: assignTasks_def assms(9) newSet_def setAdd_def idleFallback_def)

subsection \<open>What a step does to the social memories\<close>

lemma map_other_ids:
  "\<forall>b \<in> set as. agent_id b \<noteq> pid \<Longrightarrow> map (\<lambda>b. if agent_id b = pid then f b else b) as = as"
  by (induction as) simp_all

lemma updateAgent_map:
  "distinct (map agent_id as) \<Longrightarrow>
     updateAgent pid f as = map (\<lambda>a. if agent_id a = pid then f a else a) as"
proof (induction as)
  case Nil
  then show ?case by simp
next
  case (Cons a as)
  show ?case
  proof (cases "agent_id a = pid")
    case True
    have notin: "agent_id a \<notin> agent_id ` set as" using Cons.prems by simp
    have "\<forall>b \<in> set as. agent_id b \<noteq> pid"
    proof
      fix b
      assume "b \<in> set as"
      then have "agent_id b \<in> agent_id ` set as" by (rule imageI)
      with notin have "agent_id b \<noteq> agent_id a" by metis
      then show "agent_id b \<noteq> pid" using True by simp
    qed
    then have others: "\<forall>b \<in> set as. agent_id b \<noteq> pid" .
    then have nh: "\<not> hasAgent as pid" unfolding hasAgent_def by auto
    show ?thesis using True nh by (simp add: map_other_ids [OF others])
  next
    case False
    then show ?thesis using Cons by simp
  qed
qed

lemma fold_updateAgent_map:
  assumes "\<And>a. agent_id (f a) = agent_id a"
  shows "distinct (map agent_id as) \<Longrightarrow> distinct pids \<Longrightarrow>
     fold (\<lambda>pid. updateAgent pid f) pids as
       = map (\<lambda>a. if agent_id a \<in> set pids then f a else a) as"
proof (induction pids arbitrary: as)
  case Nil
  then show ?case by simp
next
  case (Cons p pids)
  let ?as = "map (\<lambda>a. if agent_id a = p then f a else a) as"
  have ids: "map agent_id ?as = map agent_id as" by (simp add: assms)
  have d: "distinct (map agent_id ?as)" unfolding ids by (rule Cons.prems(1))
  have "fold (\<lambda>pid. updateAgent pid f) (p # pids) as = fold (\<lambda>pid. updateAgent pid f) pids ?as"
    by (simp add: updateAgent_map [OF Cons.prems(1)])
  also have "\<dots> = map (\<lambda>a. if agent_id a \<in> set pids then f a else a) ?as"
    using Cons.IH [OF d] Cons.prems(2) by simp
  also have "\<dots> = map (\<lambda>a. if agent_id a \<in> set (p # pids) then f a else a) as"
    using Cons.prems(2) by (auto simp: assms)
  finally show ?case .
qed

lemma reflectAll_memoryOf: "memoryOf (fst (reflectAll cfg host day as buf)) = memoryOf as"
  by (induction as arbitrary: buf) (simp_all add: memoryOf_def split_beta Let_def)

lemma applyExecutions_memoryOf:
  assumes "distinct (map agent_id agents)" "distinct (participants (assignment e))"
    "set (participants (assignment e)) \<subseteq> set (map agent_id agents)"
    "participants (assignment e) \<noteq> []"
  shows "memoryOf (fst (applyExecutions cfg host [e] day (agents, net, buf)))
           = map (\<lambda>a. (agent_id a,
                        if agent_id a \<in> set (participants (assignment e))
                        then fold (memoryStep cfg day e (reward (assignment e)
                                       / real (length (participants (assignment e)))) (agent_id a))
                               (participants (assignment e)) (socialMemory a)
                        else socialMemory a))
               agents"
proof -
  let ?ps = "participants (assignment e)"
  have pids: "filter (hasAgent agents) ?ps = ?ps"
    using assms(3) by (auto simp: hasAgent_def filter_id_conv)
  let ?f = "participantUpdate cfg host day e (reward (assignment e) / real (length ?ps)) ?ps"
  have f: "\<And>a. agent_id (?f a) = agent_id a" by (simp add: participantUpdate_fields)
  have ags: "fst (applyExecution cfg host day e (agents, applyDecay net, buf))
               = map (\<lambda>a. if agent_id a \<in> set ?ps then ?f a else a) agents"
    using assms(4) fold_updateAgent_map [of ?f agents ?ps, OF f assms(1,2)]
    by (simp add: applyExecution_def pids Let_def)
  have "memoryOf (fst (applyExecutions cfg host [e] day (agents, net, buf)))
          = memoryOf (fst (applyExecution cfg host day e (agents, applyDecay net, buf)))"
    by (simp add: applyExecutions_def split_beta reflectAll_memoryOf)
  also have "\<dots> = memoryOf (map (\<lambda>a. if agent_id a \<in> set ?ps then ?f a else a) agents)"
    unfolding ags ..
  finally show ?thesis
    by (simp add: memoryOf_def participantUpdate_fields comp_def cong: if_cong)
qed

lemma applyExecutions_network_one:
  assumes "set (participants (assignment e)) \<subseteq> set (map agent_id agents)"
    "participants (assignment e) \<noteq> []"
  shows "fst (snd (applyExecutions cfg host [e] day (agents, net, buf)))
           = fold (participantEdges e (participants (assignment e))) (participants (assignment e))
               (applyDecay net)"
proof -
  have pids: "filter (hasAgent agents) (participants (assignment e)) = participants (assignment e)"
    using assms(1) by (auto simp: hasAgent_def filter_id_conv)
  show ?thesis
    using assms(2) by (simp add: applyExecutions_def applyExecution_def pids split_beta Let_def)
qed


subsection \<open>The agents of the three-agent scenario\<close>

lemma initializeAgentsFrom_memoryOf:
  "memoryOf (fst (initializeAgentsFrom cfg i n g)) = map (\<lambda>k. (buildAgentId k, [])) [i ..< i + n]"
proof (induction n arbitrary: i g)
  case 0
  then show ?case by (simp add: memoryOf_def)
next
  case (Suc n)
  have "memoryOf (fst (initializeAgentsFrom cfg i (Suc n) g))
          = (buildAgentId i, []) # memoryOf (fst (initializeAgentsFrom cfg (Suc i) n (snd (initializeAgent cfg i g))))"
    by (simp add: memoryOf_def split_beta initializeAgent_fields)
  also have "\<dots> = (buildAgentId i, []) # map (\<lambda>k. (buildAgentId k, [])) [Suc i ..< Suc i + n]"
    by (simp only: Suc.IH)
  also have "\<dots> = map (\<lambda>k. (buildAgentId k, [])) [i ..< i + Suc n]"
    by (simp add: upt_rec [of i])
  finally show ?case .
qed

lemma shuffle_length: "length (fst (shuffle xs g)) = length xs"
  using shuffleFrom_set_length [of "length xs - 1" xs g]
  by (cases xs) (simp_all add: shuffle_def)

lemma shuffle_snd: "snd (shuffle xs g) = g + of_nat (length xs - 1) * 0x6d2b79f5"
  by (simp add: shuffle_def shuffleFrom_snd)

lemma buildAgentId_three:
  "buildAgentId 0 = ''agent_1''" "buildAgentId (Suc 0) = ''agent_2''"
  "buildAgentId (Suc (Suc 0)) = ''agent_3''"
  by (simp_all add: buildAgentId_def natToString.simps)

lemma initialize_three:
  assumes "initialize (demoConfig ts 3 h) seed = Some sim"
  shows "memoryOf (sim_agents sim) = [(''agent_1'', []), (''agent_2'', []), (''agent_3'', [])]"
    and "sim_config sim = demoConfig ts 3 h"
    and "env_day (sim_environment sim) = 0"
    and "sim_rng sim = seededRandom seed + 72 * 0x6d2b79f5"
proof -
  have n: "nat \<lceil>populationSize (demoConfig ts 3 h)\<rceil> = 3" by (simp add: demoConfig_def)
  have "sim_agents sim = fst (initializeAgentsFrom (demoConfig ts 3 h) 0 3 (seededRandom seed))"
    using assms by (auto simp: initialize_def initializeAgents_def n split_beta split: option.splits)
  then show "memoryOf (sim_agents sim) = [(''agent_1'', []), (''agent_2'', []), (''agent_3'', [])]"
    using initializeAgentsFrom_memoryOf [of "demoConfig ts 3 h" 0 3 "seededRandom seed"]
    by (simp add: upt_conv_Cons buildAgentId_three)
  show "sim_config sim = demoConfig ts 3 h" using initialize_fields(1) [OF assms] .
  show "env_day (sim_environment sim) = 0"
    using assms by (auto simp: initialize_def initialEnvironment_def split_beta split: option.splits)
  show "sim_rng sim = seededRandom seed + 72 * 0x6d2b79f5"
    using initialize_rng [OF assms] by (simp add: demoConfig_def)
qed

subsection \<open>One day of the three-agent scenario\<close>

lemma pair_step:
  fixes sim :: Simulation and h :: real
  defines "cfg \<equiv> demoConfig [pairTask] 3 h"
  assumes cfg: "sim_config sim = cfg"
    and acc: "1 / 2 \<le> fst (rng_next (sim_rng sim))"
      "fst (rng_next (sim_rng sim + 2 * 0x6d2b79f5)) < 43 / 50"
    and ids: "distinct (map agent_id (sim_agents sim))"
    and sh: "fst (shuffle (sim_agents sim) (sim_rng sim + 3 * 0x6d2b79f5)) = [x, y, z]"
  shows "\<exists>r sim' e.
           stepDay host env sim = Some (r, sim') \<and>
           sim_config sim' = cfg \<and>
           sim_rng sim' = sim_rng sim + 9 * 0x6d2b79f5 \<and>
           env_day (sim_environment sim') = env_day (sim_environment sim) + 1 \<and>
           rngSeed (newState r) = \<lfloor>fst (rng_next (sim_rng sim + 8 * 0x6d2b79f5)) * 1000000000\<rfloor> \<and>
           participants (assignment e) = [agent_id x, agent_id y] \<and>
           sim_network sim' = fold (participantEdges e [agent_id x, agent_id y])
                                [agent_id x, agent_id y] (applyDecay (sim_network sim)) \<and>
           memoryOf (sim_agents sim')
             = map (\<lambda>a. (agent_id a,
                          if agent_id a \<in> {agent_id x, agent_id y}
                          then fold (memoryStep cfg (env_day (sim_environment sim) + 1) e
                                       (reward (assignment e) / 2) (agent_id a))
                                 [agent_id x, agent_id y] (socialMemory a)
                          else socialMemory a))
                 (sim_agents sim)"
proof -
  let ?g = "sim_rng sim"
  define G3 where "G3 = ?g + 3 * 0x6d2b79f5"
  define G5 where "G5 = ?g + 5 * 0x6d2b79f5"
  define G8 where "G8 = ?g + 8 * 0x6d2b79f5"
  obtain r sim' envS where step: "stepDay host env sim = Some (r, sim')"
    and t: "tick cfg (sim_environment sim) ?g = Some (envS, G3)"
    and d: "env_day envS = env_day (sim_environment sim) + 1"
    using stepDay_demo [of sim "[pairTask]" 3 h host env] cfg acc unfolding cfg_def G3_def by blast
  have tsks: "orderTasksByPlan host (plan host env (the (createPlanRequest sim))) (tasks cfg) = [pairTask]"
    by (simp add: orderTasksByPlan_def cfg_def demoConfig_def)
  let ?res = "(plants envS, smallGame envS, largeGame envS)"
  have shG: "fst (shuffle (sim_agents sim) G3) = [x, y, z]" unfolding G3_def by (rule sh)
  have shs: "set [x, y, z] = set (sim_agents sim)" "length (sim_agents sim) = 3"
    using shuffle_set [of "sim_agents sim" G3] shuffle_length [of "sim_agents sim" G3]
    unfolding shG by simp_all
  have "snd (shuffle (sim_agents sim) G3) = G3 + 2 * 0x6d2b79f5"
    unfolding shuffle_snd shs(2) by simp
  then have "snd (shuffle (sim_agents sim) G3) = G5" by (simp add: G3_def G5_def)
  with shG have shg: "shuffle (sim_agents sim) G3 = ([x, y, z], G5)"
    by (simp add: prod_eq_iff)
  have "distinct (map agent_id [x, y, z])"
  proof -
    have "card (set (map agent_id (sim_agents sim))) = 3"
      using distinct_card [OF ids] shs(2) by simp
    moreover have "set (map agent_id [x, y, z]) = set (map agent_id (sim_agents sim))"
      using shs(1) by (metis set_map)
    ultimately have "card (set (map agent_id [x, y, z])) = length (map agent_id [x, y, z])" by simp
    then show ?thesis by (rule card_distinct)
  qed
  then have xyz: "agent_id x \<noteq> agent_id y" "agent_id x \<noteq> agent_id z" "agent_id y \<noteq> agent_id z"
    by auto
  define e where "e = fst (executeTask cfg ?res pairTask [x, y] G5)"
  have "G5 + 3 * 0x6d2b79f5 = G8" by (simp add: G5_def G8_def)
  then have asg: "assignTasks cfg G3 (sim_agents sim) ?res (Some [pairTask]) = ([e], G8)"
    using three_agents_assign [OF xyz _ _ _ _ _ shg, of pairTask cfg ?res]
    by (simp add: e_def pairTask_def mkTask_def cfg_def demoConfig_def)
  have ps: "participants (assignment e) = [agent_id x, agent_id y]" by (simp add: e_def)
  from stepDay_SomeD [OF step] obtain envS' g1 tsks' where
    t': "tick (sim_config sim) (sim_environment sim) ?g = Some (envS', g1)"
    and ts': "tsks' = orderTasksByPlan host (plan host env (the (createPlanRequest sim)))
                        (tasks (sim_config sim))"
    and s': "sim' = sim \<lparr> sim_environment := envS',
                        sim_network := fst (snd (applyExecutions (sim_config sim) host
                            (fst (assignTasks (sim_config sim) g1 (sim_agents sim)
                                    (plants envS', smallGame envS', largeGame envS') (Some tsks')))
                            (env_day envS') (sim_agents sim, sim_network sim, sim_logs sim))),
                        sim_rng := snd (nextSeedOf (snd (assignTasks (sim_config sim) g1 (sim_agents sim)
                                    (plants envS', smallGame envS', largeGame envS') (Some tsks')))),
                        sim_agents := fst (applyExecutions (sim_config sim) host
                            (fst (assignTasks (sim_config sim) g1 (sim_agents sim)
                                    (plants envS', smallGame envS', largeGame envS') (Some tsks')))
                            (env_day envS') (sim_agents sim, sim_network sim, sim_logs sim)),
                        sim_logs := [], sim_causal := [] \<rparr>"
    and seed': "rngSeed (newState r)
                  = fst (nextSeedOf (snd (assignTasks (sim_config sim) g1 (sim_agents sim)
                                    (plants envS', smallGame envS', largeGame envS') (Some tsks'))))"
    by blast
  have e1: "envS' = envS" "g1 = G3" using t t' unfolding cfg by simp_all
  have e2: "tsks' = [pairTask]" unfolding ts' cfg tsks ..
  have ags: "sim_agents sim' = fst (applyExecutions cfg host [e] (env_day envS)
                                  (sim_agents sim, sim_network sim, sim_logs sim))"
    unfolding s' by (simp add: cfg e1 e2 asg)
  have net0: "sim_network sim' = fst (snd (applyExecutions cfg host [e] (env_day envS)
                                  (sim_agents sim, sim_network sim, sim_logs sim)))"
    unfolding s' by (simp add: cfg e1 e2 asg)
  have rng: "sim_rng sim' = snd (nextSeedOf G8)"
    unfolding s' by (simp add: cfg e1 e2 asg)
  have c': "sim_config sim' = cfg" unfolding s' by (simp add: cfg)
  have env': "sim_environment sim' = envS" unfolding s' by (simp add: e1)
  have seed: "rngSeed (newState r) = fst (nextSeedOf G8)"
    unfolding seed' by (simp add: cfg e1 e2 asg)
  have sub: "set (participants (assignment e)) \<subseteq> set (map agent_id (sim_agents sim))"
    using shs(1) unfolding ps by auto
  have mem: "memoryOf (sim_agents sim')
             = map (\<lambda>a. (agent_id a,
                          if agent_id a \<in> {agent_id x, agent_id y}
                          then fold (memoryStep cfg (env_day (sim_environment sim) + 1) e
                                       (reward (assignment e) / 2) (agent_id a))
                                 [agent_id x, agent_id y] (socialMemory a)
                          else socialMemory a))
                 (sim_agents sim)"
    unfolding ags
    using applyExecutions_memoryOf [OF ids _ sub, of cfg host "env_day envS" "sim_network sim" "sim_logs sim"]
      xyz(1)
    by (simp add: ps d)
  have net: "sim_network sim' = fold (participantEdges e [agent_id x, agent_id y])
                                [agent_id x, agent_id y] (applyDecay (sim_network sim))"
    unfolding net0
    using applyExecutions_network_one [OF sub, of cfg host "env_day envS" "sim_network sim" "sim_logs sim"]
    by (simp add: ps)
  have "sim_rng sim' = ?g + 9 * 0x6d2b79f5"
    by (simp add: rng nextSeedOf_def split_beta rng_next_snd G8_def)
  moreover have "rngSeed (newState r) = \<lfloor>fst (rng_next (?g + 8 * 0x6d2b79f5)) * 1000000000\<rfloor>"
    by (simp add: seed nextSeedOf_def split_beta G8_def)
  moreover have "env_day (sim_environment sim') = env_day (sim_environment sim) + 1"
    unfolding env' by (rule d)
  ultimately show ?thesis using step c' ps net mem by blast
qed


subsection \<open>The run from seed 32\<close>

lemma shuffle_three:
  "fst (shuffle [a, b, c] g) =
     (let j = nat \<lfloor>fst (rng_next g) * 3\<rfloor>;
          xs = [a, b, c][Suc (Suc 0) := [a, b, c] ! j, j := c];
          k = nat \<lfloor>fst (rng_next (g + 0x6d2b79f5)) * 2\<rfloor>
      in xs[Suc 0 := xs ! k, k := xs ! Suc 0])"
proof -
  have "shuffle [a, b, c] g = shuffleFrom (Suc (Suc 0)) [a, b, c] g"
    by (simp add: shuffle_def numeral_2_eq_2)
  then show ?thesis
    by (simp add: split_beta Let_def rng_next_snd)
qed

lemma seed32_start: "seededRandom 32 + 72 * 0x6d2b79f5 = (3023719688 :: rng)"
  by (simp add: seededRandom_def)

lemma seed32_day1:
  "1 / 2 \<le> fst (rng_next (3023719688 :: rng))"
  "fst (rng_next ((3023719688 :: rng) + 2 * 0x6d2b79f5)) < 43 / 50"
  "nat \<lfloor>fst (rng_next ((3023719688 :: rng) + 3 * 0x6d2b79f5)) * 3\<rfloor> = 0"
  "nat \<lfloor>fst (rng_next ((3023719688 :: rng) + 3 * 0x6d2b79f5 + 0x6d2b79f5)) * 2\<rfloor> = 1"
  by (simp_all add: rng_next_def rng_output_def Let_def)

lemma seed32_day2:
  "1 / 2 \<le> fst (rng_next ((3023719688 :: rng) + 9 * 0x6d2b79f5))"
  "fst (rng_next ((3023719688 :: rng) + 9 * 0x6d2b79f5 + 2 * 0x6d2b79f5)) < 43 / 50"
  "nat \<lfloor>fst (rng_next ((3023719688 :: rng) + 9 * 0x6d2b79f5 + 3 * 0x6d2b79f5)) * 3\<rfloor> = 2"
  "nat \<lfloor>fst (rng_next ((3023719688 :: rng) + 9 * 0x6d2b79f5 + 3 * 0x6d2b79f5 + 0x6d2b79f5)) * 2\<rfloor> = 0"
  by (simp_all add: rng_next_def rng_output_def Let_def)

lemma seed32_shuffle1:
  "fst (shuffle [a, b, c] ((3023719688 :: rng) + 3 * 0x6d2b79f5)) = [c, b, a]"
  unfolding shuffle_three Let_def seed32_day1(3,4) by simp

lemma seed32_shuffle2:
  "fst (shuffle [a, b, c] ((3023719688 :: rng) + 9 * 0x6d2b79f5 + 3 * 0x6d2b79f5)) = [b, a, c]"
  unfolding shuffle_three Let_def seed32_day2(3,4) by (simp add: numeral_2_eq_2)

lemma memoryOf_three:
  "memoryOf as = [(i1, m1), (i2, m2), (i3, m3)] \<Longrightarrow>
     \<exists>a b c. as = [a, b, c] \<and> agent_id a = i1 \<and> agent_id b = i2 \<and> agent_id c = i3 \<and>
             socialMemory a = m1 \<and> socialMemory b = m2 \<and> socialMemory c = m3"
  by (auto simp: memoryOf_def map_eq_Cons_conv)


lemma seed32_two_days:
  fixes h :: real
  defines "cfg \<equiv> demoConfig [pairTask] 3 h"
  shows "\<exists>sim0 r1 sim1 r2 sim2 c1 c2.
     initialize cfg 32 = Some sim0 \<and>
     stepDay host env1 sim0 = Some (r1, sim1) \<and> stepDay host env2 sim1 = Some (r2, sim2) \<and>
     env_day (sim_environment sim1) = 1 \<and> env_day (sim_environment sim2) = 2 \<and>
     c1 \<in> set (sim_agents sim1) \<and> c2 \<in> set (sim_agents sim2) \<and>
     socialMemory c1 \<noteq> [] \<and> socialMemory c2 = socialMemory c1 \<and>
     lastInteractionDay (hd (socialMemory c1)) = 1 \<and>
     length (edges (toState (sim_network sim1))) = 2"
proof -
  obtain sim0 where sim0: "initialize cfg 32 = Some sim0"
    unfolding cfg_def using initialize_demo by blast
  note i = initialize_three [OF sim0 [unfolded cfg_def]]
  have cfg0: "sim_config sim0 = cfg" unfolding cfg_def by (rule i(2))
  have rng0: "sim_rng sim0 = 3023719688" unfolding i(4) by (rule seed32_start)
  obtain a b c where ags0: "sim_agents sim0 = [a, b, c]"
    and id0: "agent_id a = ''agent_1''" "agent_id b = ''agent_2''" "agent_id c = ''agent_3''"
    and m0: "socialMemory a = []" "socialMemory b = []" "socialMemory c = []"
    using memoryOf_three [OF i(1)] by blast
  have d0: "distinct (map agent_id (sim_agents sim0))" by (simp add: ags0 id0)
  have acc0: "1 / 2 \<le> fst (rng_next (sim_rng sim0))"
    "fst (rng_next (sim_rng sim0 + 2 * 0x6d2b79f5)) < 43 / 50"
    unfolding rng0 by (rule seed32_day1(1), rule seed32_day1(2))
  have sh0: "fst (shuffle (sim_agents sim0) (sim_rng sim0 + 3 * 0x6d2b79f5)) = [c, b, a]"
    unfolding rng0 ags0 by (rule seed32_shuffle1)
  from pair_step [OF cfg0 [unfolded cfg_def] acc0 d0 sh0, of host env1, folded cfg_def]
  obtain r1 sim1 e1 where step1: "stepDay host env1 sim0 = Some (r1, sim1)"
    and cfg1: "sim_config sim1 = cfg"
    and rng1': "sim_rng sim1 = sim_rng sim0 + 9 * 0x6d2b79f5"
    and day1': "env_day (sim_environment sim1) = env_day (sim_environment sim0) + 1"
    and net1: "sim_network sim1 = fold (participantEdges e1 [agent_id c, agent_id b])
                                    [agent_id c, agent_id b] (applyDecay (sim_network sim0))"
    and mem1': "memoryOf (sim_agents sim1)
             = map (\<lambda>x. (agent_id x,
                          if agent_id x \<in> {agent_id c, agent_id b}
                          then fold (memoryStep cfg (env_day (sim_environment sim0) + 1) e1
                                       (reward (assignment e1) / 2) (agent_id x))
                                 [agent_id c, agent_id b] (socialMemory x)
                          else socialMemory x))
                 (sim_agents sim0)"
    by blast
  have day1: "env_day (sim_environment sim1) = 1" unfolding day1' i(3) by simp
  have rng1: "sim_rng sim1 = 3023719688 + 9 * 0x6d2b79f5" unfolding rng1' rng0 ..
  define M2 where "M2 = memoryStep cfg 1 e1 (reward (assignment e1) / 2) ''agent_2'' ''agent_3'' []"
  define M3 where "M3 = memoryStep cfg 1 e1 (reward (assignment e1) / 2) ''agent_3'' ''agent_2'' []"
  have mem1: "memoryOf (sim_agents sim1) = [(''agent_1'', []), (''agent_2'', M2), (''agent_3'', M3)]"
    unfolding mem1' ags0 i(3)
    by (simp add: id0 m0 M2_def M3_def memoryStep_def)
  have M3: "M3 \<noteq> []" "lastInteractionDay (hd M3) = 1"
    by (simp_all add: M3_def memoryStep_def updateSocialMemory_def Let_def)
  obtain a1 b1 c1 where ags1: "sim_agents sim1 = [a1, b1, c1]"
    and id1: "agent_id a1 = ''agent_1''" "agent_id b1 = ''agent_2''" "agent_id c1 = ''agent_3''"
    and m1: "socialMemory c1 = M3"
    using memoryOf_three [OF mem1] by blast
  have d1: "distinct (map agent_id (sim_agents sim1))" by (simp add: ags1 id1)
  have acc1: "1 / 2 \<le> fst (rng_next (sim_rng sim1))"
    "fst (rng_next (sim_rng sim1 + 2 * 0x6d2b79f5)) < 43 / 50"
    unfolding rng1 by (rule seed32_day2(1), rule seed32_day2(2))
  have sh1: "fst (shuffle (sim_agents sim1) (sim_rng sim1 + 3 * 0x6d2b79f5)) = [b1, a1, c1]"
    unfolding rng1 ags1 by (rule seed32_shuffle2)
  from pair_step [OF cfg1 [unfolded cfg_def] acc1 d1 sh1, of host env2, folded cfg_def]
  obtain r2 sim2 e2 where step2: "stepDay host env2 sim1 = Some (r2, sim2)"
    and day2': "env_day (sim_environment sim2) = env_day (sim_environment sim1) + 1"
    and mem2': "memoryOf (sim_agents sim2)
             = map (\<lambda>x. (agent_id x,
                          if agent_id x \<in> {agent_id b1, agent_id a1}
                          then fold (memoryStep cfg (env_day (sim_environment sim1) + 1) e2
                                       (reward (assignment e2) / 2) (agent_id x))
                                 [agent_id b1, agent_id a1] (socialMemory x)
                          else socialMemory x))
                 (sim_agents sim1)"
    by blast
  have day2: "env_day (sim_environment sim2) = 2" unfolding day2' day1 by simp
  obtain N1 N2 where mem2: "memoryOf (sim_agents sim2) = [(''agent_1'', N1), (''agent_2'', N2), (''agent_3'', M3)]"
    unfolding mem2' ags1 by (simp add: id1 m1)
  obtain a2 b2 c2 where ags2: "sim_agents sim2 = [a2, b2, c2]" and m2: "socialMemory c2 = M3"
    using memoryOf_three [OF mem2] by blast
  have net0: "net_edges (sim_network sim0) = []"
    using sim0 by (auto simp: initialize_def initializeNetwork_def newSocialNetwork_def split_beta
        split: option.splits)
  have edges1: "length (edges (toState (sim_network sim1))) = 2"
    unfolding net1
    by (simp add: id0 participantEdges_def reinforceInteraction_def applyDecay_def net0 toState_def
        makeKey_def Let_def)
  have "c1 \<in> set (sim_agents sim1)" "c2 \<in> set (sim_agents sim2)" by (simp_all add: ags1 ags2)
  with sim0 step1 step2 day1 day2 M3 m1 m2 edges1 show ?thesis by (metis (no_types))
qed


subsection \<open>The social memory of a reachable state\<close>

text \<open>
  C3 (as amended). In every state reached by \<^verbatim>\<open>initialize\<close> and any sequence of
  \<^verbatim>\<open>stepDay\<close> and \<^verbatim>\<open>serialize\<close> calls, the social memory of every agent holds at most one
  entry per partner. When the horizon is not negative, every entry is within the horizon
  of the agent's latest interaction (the first entry of the list), and right after an
  interaction registered on a day every entry is within the horizon of that day. Nothing
  bounds the age of an entry by the current day: entries are pruned only when the agent
  itself interacts.
\<close>

theorem reachable_social_memory:
  assumes "reachable host cfg sim" and "a \<in> set (sim_agents sim)"
  shows "distinct (map partnerId (socialMemory a)) \<and>
         (0 \<le> socialMemoryHorizonDays cfg \<longrightarrow>
            (\<forall>entry \<in> set (socialMemory a).
               lastInteractionDay (hd (socialMemory a)) - lastInteractionDay entry
                 \<le> socialMemoryHorizonDays cfg) \<and>
            (\<forall>entry \<in> set (socialMemory (registerInteraction cfg a pid day rd given received sent)).
               day - lastInteractionDay entry \<le> socialMemoryHorizonDays cfg))"
proof (intro conjI impI)
  show "distinct (map partnerId (socialMemory a))"
    using reachable_simInv [OF assms(1)] assms(2) by (auto simp: simInv_def memoryDistinct_def)
next
  assume h: "0 \<le> socialMemoryHorizonDays cfg"
  show "\<forall>entry \<in> set (socialMemory a).
          lastInteractionDay (hd (socialMemory a)) - lastInteractionDay entry
            \<le> socialMemoryHorizonDays cfg"
    using reachable_memoryOk [OF h assms(1)] assms(2) by (auto simp: memoryOk_def)
  show "\<forall>entry \<in> set (socialMemory (registerInteraction cfg a pid day rd given received sent)).
          day - lastInteractionDay entry \<le> socialMemoryHorizonDays cfg"
    using updateSocialMemory_horizon [OF h] by (auto simp: registerInteraction_def)
qed

theorem reachable_social_memory_witness:
  "\<exists>sim0 r1 sim1 c1.
     initialize (demoConfig [pairTask] 3 7) 32 = Some sim0 \<and>
     stepDay demoHost noAdapters sim0 = Some (r1, sim1) \<and>
     reachable demoHost (demoConfig [pairTask] 3 7) sim1 \<and>
     c1 \<in> set (sim_agents sim1) \<and> socialMemory c1 \<noteq> [] \<and>
     0 \<le> socialMemoryHorizonDays (demoConfig [pairTask] 3 7) \<and>
     distinct (map partnerId (socialMemory c1)) \<and>
     list_all (\<lambda>entry. lastInteractionDay (hd (socialMemory c1)) - lastInteractionDay entry
                          \<le> socialMemoryHorizonDays (demoConfig [pairTask] 3 7))
       (socialMemory c1) \<and>
     list_all (\<lambda>entry. 2 - lastInteractionDay entry \<le> socialMemoryHorizonDays (demoConfig [pairTask] 3 7))
       (socialMemory (registerInteraction (demoConfig [pairTask] 3 7) c1 ''agent_1'' 2 0.2 4 4 0))"
proof -
  let ?cfg = "demoConfig [pairTask] 3 7"
  obtain sim0 r1 sim1 and c1 :: AgentState where sim0: "initialize ?cfg 32 = Some sim0"
    and step: "stepDay demoHost noAdapters sim0 = Some (r1, sim1)"
    and c1: "c1 \<in> set (sim_agents sim1)" "socialMemory c1 \<noteq> []"
    using seed32_two_days [of 7 demoHost noAdapters noAdapters] by blast
  have r: "reachable demoHost ?cfg sim1"
    using reach_step [OF reach_init [OF sim0] step] .
  have h: "0 \<le> socialMemoryHorizonDays ?cfg" by (simp add: demoConfig_def)
  from reachable_social_memory [OF r c1(1), where pid = "''agent_1''" and day = 2 and rd = "0.2"
      and given = 4 and received = 4 and sent = 0] h sim0 step r c1
  show ?thesis unfolding list_all_iff by blast
qed

text \<open>
  C3 as stated fails: in the three-agent scenario with one task for two and a horizon of
  0 days, the run from seed 32 pairs agents 3 and 2 on day 1 and agents 2 and 1 on day 2.
  Agent 3 does not interact on day 2, so after day 2 its entry of day 1 is still there,
  one day older than the horizon allows.
\<close>

theorem social_memory_stale_counterexample:
  "\<exists>sim0 r1 sim1 r2 sim2.
     initialize (demoConfig [pairTask] 3 0) 32 = Some sim0 \<and>
     stepDay demoHost noAdapters sim0 = Some (r1, sim1) \<and>
     stepDay demoHost noAdapters sim1 = Some (r2, sim2) \<and>
     env_day (sim_environment sim2) = 2 \<and>
     (\<exists>a \<in> set (sim_agents sim2). \<exists>entry \<in> set (socialMemory a).
        lastInteractionDay entry = 1 \<and>
        socialMemoryHorizonDays (demoConfig [pairTask] 3 0)
          < env_day (sim_environment sim2) - lastInteractionDay entry)"
proof -
  let ?cfg = "demoConfig [pairTask] 3 0"
  obtain sim0 r1 sim1 r2 sim2 and c1 c2 :: AgentState where sim0: "initialize ?cfg 32 = Some sim0"
    and step: "stepDay demoHost noAdapters sim0 = Some (r1, sim1)"
      "stepDay demoHost noAdapters sim1 = Some (r2, sim2)"
    and day: "env_day (sim_environment sim2) = 2"
    and c: "c2 \<in> set (sim_agents sim2)" "socialMemory c1 \<noteq> []" "socialMemory c2 = socialMemory c1"
      "lastInteractionDay (hd (socialMemory c1)) = 1"
    using seed32_two_days [of 0 demoHost noAdapters noAdapters] by blast
  have hd: "hd (socialMemory c2) \<in> set (socialMemory c2)" using c(2,3) by simp
  have "lastInteractionDay (hd (socialMemory c2)) = 1" using c(3,4) by simp
  moreover have "socialMemoryHorizonDays ?cfg
                   < env_day (sim_environment sim2) - lastInteractionDay (hd (socialMemory c2))"
    using c(3,4) day by (simp add: demoConfig_def)
  ultimately show ?thesis using sim0 step day c(1) hd by blast
qed

theorem reachable_network_edges_witness:
  "\<exists>sim0 r sim1.
     initialize (demoConfig [pairTask] 3 7) 32 = Some sim0 \<and>
     stepDay demoHost noAdapters sim0 = Some (r, sim1) \<and>
     reachable demoHost (demoConfig [pairTask] 3 7) sim1 \<and>
     length (edges (toState (sim_network sim1))) = 2 \<and>
     distinct (map (\<lambda>e. (edge_source e, edge_target e)) (edges (toState (sim_network sim1)))) \<and>
     list_all (\<lambda>e. 0.01 \<le> weight e) (edges (toState (sim_network sim1)))"
proof -
  let ?cfg = "demoConfig [pairTask] 3 7"
  obtain sim0 r1 sim1 where sim0: "initialize ?cfg 32 = Some sim0"
    and step: "stepDay demoHost noAdapters sim0 = Some (r1, sim1)"
    and n: "length (edges (toState (sim_network sim1))) = 2"
    using seed32_two_days [of 7 demoHost noAdapters noAdapters] by blast
  have r: "reachable demoHost ?cfg sim1"
    using reach_step [OF reach_init [OF sim0] step] .
  from reachable_network_edges [OF r] sim0 step r n show ?thesis by blast
qed

section \<open>A snapshot and its copy\<close>

lemma update_fresh: "k \<notin> fst ` set al \<Longrightarrow> AList.update k v al = al @ [(k, v)]"
  by (induction al) auto

lemma fold_update_entries:
  "distinct (map fst (acc @ es)) \<Longrightarrow> \<forall>entry \<in> set es. fst entry = key (snd entry) \<Longrightarrow>
     fold (\<lambda>e. AList.update (key e) e) (map snd es) acc = acc @ es"
proof (induction es arbitrary: acc)
  case Nil
  then show ?case by simp
next
  case (Cons entry es)
  have k: "key (snd entry) = fst entry" using Cons.prems(2) by simp
  have fresh: "fst entry \<notin> fst ` set acc" using Cons.prems(1) by auto
  have "fold (\<lambda>e. AList.update (key e) e) (map snd (entry # es)) acc
          = fold (\<lambda>e. AList.update (key e) e) (map snd es) (acc @ [entry])"
    by (simp add: k update_fresh [OF fresh])
  also have "\<dots> = (acc @ [entry]) @ es"
    using Cons.prems by (intro Cons.IH) simp_all
  finally show ?case by simp
qed

lemma newSocialNetwork_toState: "networkInv net \<Longrightarrow> newSocialNetwork (toState net) = net"
  using fold_update_entries [of "[]" "net_edges net" "\<lambda>e. makeKey (edge_source e) (edge_target e)"]
  by (simp add: networkInv_def edgesWellKeyed_def newSocialNetwork_def toState_def)

text \<open>
  C2 (as amended). For a state reached by \<^verbatim>\<open>initialize\<close> and any sequence of \<^verbatim>\<open>stepDay\<close>
  and \<^verbatim>\<open>serialize\<close> calls, the copy \<^verbatim>\<open>fromState(config, serialize(sim))\<close> has the
  configuration, environment, network and agents of the original and differs from it at
  most in the generator, which is seeded afresh from the snapshot's \<^verbatim>\<open>rngSeed\<close>; so a
  \<^verbatim>\<open>stepDay\<close> on the copy is the \<^verbatim>\<open>stepDay\<close> of the original with its generator re-seeded
  from the snapshot.
\<close>

theorem snapshot_copy_reseeded:
  assumes "reachable host cfg sim"
  shows "fromState cfg (fst (serialize sim))
           = sim \<lparr> sim_rng := seededRandom (rngSeed (fst (serialize sim))) \<rparr> \<and>
         stepDay host env (fromState cfg (fst (serialize sim)))
           = stepDay host env (sim \<lparr> sim_rng := seededRandom (rngSeed (fst (serialize sim))) \<rparr>)"
proof -
  from reachable_simInv [OF assms] have inv: "sim_config sim = cfg" "networkInv (sim_network sim)"
    "sim_logs sim = []" "sim_causal sim = []"
    by (simp_all add: simInv_def)
  have "fromState cfg (fst (serialize sim))
          = sim \<lparr> sim_rng := seededRandom (rngSeed (fst (serialize sim))) \<rparr>"
    using inv
    by (simp add: fromState_def serialize_def split_beta deepCloneAgents_def newSocialNetwork_toState)
  then show ?thesis by simp
qed

lemma list_three: "length xs = 3 \<Longrightarrow> \<exists>x y z. xs = [x, y, z]"
  by (cases xs; cases "tl xs"; cases "tl (tl xs)") auto

lemma seed32_snapshot:
  "\<lfloor>fst (rng_next (3023719688 :: rng)) * 1000000000\<rfloor> = 504896137"
  "\<lfloor>fst (rng_next ((3023719688 :: rng) + 8 * 0x6d2b79f5)) * 1000000000\<rfloor> = 840299580"
  "1 / 2 \<le> fst (rng_next ((3023719688 :: rng) + 0x6d2b79f5))"
  "fst (rng_next ((3023719688 :: rng) + 0x6d2b79f5 + 2 * 0x6d2b79f5)) < 43 / 50"
  "\<lfloor>fst (rng_next ((3023719688 :: rng) + 0x6d2b79f5 + 8 * 0x6d2b79f5)) * 1000000000\<rfloor> = 610453242"
  "1 / 2 \<le> fst (rng_next (seededRandom 504896137))"
  "fst (rng_next (seededRandom 504896137 + 2 * 0x6d2b79f5)) < 43 / 50"
  "\<lfloor>fst (rng_next (seededRandom 504896137 + 8 * 0x6d2b79f5)) * 1000000000\<rfloor> = 702405857"
  by (simp_all add: rng_next_def rng_output_def Let_def seededRandom_def)


theorem snapshot_copy_reseeded_witness:
  "\<exists>sim0 r sim1.
     initialize (demoConfig [pairTask] 3 7) 32 = Some sim0 \<and>
     stepDay demoHost noAdapters sim0 = Some (r, sim1) \<and>
     reachable demoHost (demoConfig [pairTask] 3 7) sim1 \<and>
     length (edges (toState (sim_network sim1))) = 2 \<and>
     fromState (demoConfig [pairTask] 3 7) (fst (serialize sim1))
       = sim1 \<lparr> sim_rng := seededRandom (rngSeed (fst (serialize sim1))) \<rparr> \<and>
     stepDay demoHost noAdapters (fromState (demoConfig [pairTask] 3 7) (fst (serialize sim1)))
       = stepDay demoHost noAdapters (sim1 \<lparr> sim_rng := seededRandom (rngSeed (fst (serialize sim1))) \<rparr>)"
proof -
  let ?cfg = "demoConfig [pairTask] 3 7"
  obtain sim0 r1 sim1 where sim0: "initialize ?cfg 32 = Some sim0"
    and step: "stepDay demoHost noAdapters sim0 = Some (r1, sim1)"
    and n: "length (edges (toState (sim_network sim1))) = 2"
    using seed32_two_days [of 7 demoHost noAdapters noAdapters] by blast
  have r: "reachable demoHost ?cfg sim1"
    using reach_step [OF reach_init [OF sim0] step] .
  from snapshot_copy_reseeded [OF r, of noAdapters] sim0 step r n show ?thesis by blast
qed

text \<open>
  C2 as stated fails: on the heuristic path (no adapter is enabled), in the three-agent scenario initialised with
  seed 32, \<^verbatim>\<open>serialize\<close> returns the resume seed 504896137, and the generator of the copy
  starts from that seed while the original continues from its own state. One \<^verbatim>\<open>stepDay\<close>
  gives the snapshot seed 702405857 on the copy, 840299580 on the original before the call
  of \<^verbatim>\<open>serialize\<close> and 610453242 on the original after it.
\<close>

theorem snapshot_replay_counterexample:
  "\<exists>sim r sim' r2 sim2 rc simc.
     initialize (demoConfig [pairTask] 3 7) 32 = Some sim \<and>
     rngSeed (fst (serialize sim)) = 504896137 \<and>
     stepDay demoHost noAdapters sim = Some (r, sim') \<and>
     stepDay demoHost noAdapters (snd (serialize sim)) = Some (r2, sim2) \<and>
     stepDay demoHost noAdapters (fromState (demoConfig [pairTask] 3 7) (fst (serialize sim)))
       = Some (rc, simc) \<and>
     rngSeed (newState r) = 840299580 \<and> rngSeed (newState r2) = 610453242 \<and>
     rngSeed (newState rc) = 702405857 \<and> rc \<noteq> r \<and> rc \<noteq> r2"
proof -
  let ?cfg = "demoConfig [pairTask] 3 7"
  obtain sim where sim: "initialize ?cfg 32 = Some sim"
    using initialize_demo by blast
  note i = initialize_three [OF sim]
  have rng0: "sim_rng sim = 3023719688" unfolding i(4) by (rule seed32_start)
  obtain a b c where ags: "sim_agents sim = [a, b, c]"
    and ids: "agent_id a = ''agent_1''" "agent_id b = ''agent_2''" "agent_id c = ''agent_3''"
    using memoryOf_three [OF i(1)] by blast
  have d: "distinct (map agent_id (sim_agents sim))" by (simp add: ags ids)
  define post where "post = snd (serialize sim)"
  define copy where "copy = fromState ?cfg (fst (serialize sim))"
  have seed: "rngSeed (fst (serialize sim)) = 504896137"
    using seed32_snapshot(1) by (simp add: serialize_def nextSeedOf_def split_beta rng0)
  have post: "sim_config post = ?cfg" "sim_agents post = sim_agents sim"
    "sim_rng post = 3023719688 + 0x6d2b79f5"
    by (simp_all add: post_def serialize_def nextSeedOf_def split_beta rng_next_snd i(2) rng0)
  have copy: "sim_config copy = ?cfg" "sim_agents copy = sim_agents sim"
    "sim_rng copy = seededRandom 504896137"
    unfolding copy_def fromState_def seed
    by (simp_all add: serialize_def split_beta deepCloneAgents_def)
  have sh: "\<exists>x y z. fst (shuffle (sim_agents sim) g) = [x, y, z]" for g
    by (rule list_three) (simp add: shuffle_length ags)
  obtain x y z where s0: "fst (shuffle (sim_agents sim) (sim_rng sim + 3 * 0x6d2b79f5)) = [x, y, z]"
    using sh by blast
  obtain x1 y1 z1 where s1: "fst (shuffle (sim_agents post) (sim_rng post + 3 * 0x6d2b79f5)) = [x1, y1, z1]"
    unfolding post(2) using sh by blast
  obtain x2 y2 z2 where s2: "fst (shuffle (sim_agents copy) (sim_rng copy + 3 * 0x6d2b79f5)) = [x2, y2, z2]"
    unfolding copy(2) using sh by blast
  have acc0: "1 / 2 \<le> fst (rng_next (sim_rng sim))"
    "fst (rng_next (sim_rng sim + 2 * 0x6d2b79f5)) < 43 / 50"
    unfolding rng0 by (rule seed32_day1(1), rule seed32_day1(2))
  have acc1: "1 / 2 \<le> fst (rng_next (sim_rng post))"
    "fst (rng_next (sim_rng post + 2 * 0x6d2b79f5)) < 43 / 50"
    unfolding post(3) by (rule seed32_snapshot(3), rule seed32_snapshot(4))
  have acc2: "1 / 2 \<le> fst (rng_next (sim_rng copy))"
    "fst (rng_next (sim_rng copy + 2 * 0x6d2b79f5)) < 43 / 50"
    unfolding copy(3) by (rule seed32_snapshot(6), rule seed32_snapshot(7))
  from pair_step [OF i(2) acc0 d s0, of demoHost noAdapters]
  obtain r sim' where st0: "stepDay demoHost noAdapters sim = Some (r, sim')"
    and v0: "rngSeed (newState r) = \<lfloor>fst (rng_next (sim_rng sim + 8 * 0x6d2b79f5)) * 1000000000\<rfloor>"
    by blast
  from pair_step [OF post(1) acc1 d [folded post(2)] s1, of demoHost noAdapters]
  obtain r2 sim2 where st1: "stepDay demoHost noAdapters post = Some (r2, sim2)"
    and v1: "rngSeed (newState r2) = \<lfloor>fst (rng_next (sim_rng post + 8 * 0x6d2b79f5)) * 1000000000\<rfloor>"
    by blast
  from pair_step [OF copy(1) acc2 d [folded copy(2)] s2, of demoHost noAdapters]
  obtain rc simc where st2: "stepDay demoHost noAdapters copy = Some (rc, simc)"
    and v2: "rngSeed (newState rc) = \<lfloor>fst (rng_next (sim_rng copy + 8 * 0x6d2b79f5)) * 1000000000\<rfloor>"
    by blast
  have w0: "rngSeed (newState r) = 840299580" unfolding v0 rng0 by (rule seed32_snapshot(2))
  have w1: "rngSeed (newState r2) = 610453242" unfolding v1 post(3) by (rule seed32_snapshot(5))
  have w2: "rngSeed (newState rc) = 702405857" unfolding v2 copy(3) by (rule seed32_snapshot(8))
  have ne: "rc \<noteq> r" "rc \<noteq> r2" using w0 w1 w2 by auto
  from sim seed st0 st1 [unfolded post_def] st2 [unfolded copy_def] w0 w1 w2 ne
  show ?thesis by blast
qed

end
